theory Spec2Isabelle
  imports Complex_Main
begin

section \<open>Strings\<close>

text \<open>
  A JavaScript string is a sequence of UTF-16 code units. The model uses \<^typ>\<open>string\<close>,
  one \<^typ>\<open>char\<close> per code unit, which covers the code units U+0000 to U+00FF; every
  character the source tests for (the fence, the newline, the nine reserved file-name
  characters) lies in that range.
\<close>

definition newline :: char where
  "newline = CHR 0x0A"

definition fence :: string where
  "fence = ''```mermaid''"

definition closing_fence :: string where
  "closing_fence = ''```''"

text \<open>\<^verbatim>\<open>s.startsWith(p)\<close> and its mirror image at the end of the string.\<close>

definition startsWith :: "string \<Rightarrow> string \<Rightarrow> bool" where
  "startsWith s p = (take (length p) s = p)"

definition endsWith :: "string \<Rightarrow> string \<Rightarrow> bool" where
  "endsWith s p = (length p \<le> length s \<and> drop (length s - length p) s = p)"

text \<open>
  \<^verbatim>\<open>s.substring(a, b)\<close>: both indices are clamped to the length of the string and
  swapped when the first is the larger.
\<close>

definition substring :: "string \<Rightarrow> nat \<Rightarrow> nat \<Rightarrow> string" where
  "substring s a b =
     (let a' = min a (length s);
          b' = min b (length s);
          lo = min a' b';
          hi = max a' b'
      in take (hi - lo) (drop lo s))"

text \<open>
  The white space that \<^verbatim>\<open>String.prototype.trim\<close> removes, within U+0000..U+00FF:
  tab, line feed, vertical tab, form feed, carriage return, space, no-break space.
\<close>

definition isWhiteSpace :: "char \<Rightarrow> bool" where
  "isWhiteSpace c = (c = CHR 0x09 \<or> c = CHR 0x0A \<or> c = CHR 0x0B \<or> c = CHR 0x0C
                     \<or> c = CHR 0x0D \<or> c = CHR 0x20 \<or> c = CHR 0xA0)"

definition trim :: "string \<Rightarrow> string" where
  "trim s = rev (dropWhile isWhiteSpace (rev (dropWhile isWhiteSpace s)))"

text \<open>
  \<^verbatim>\<open>.replace(/^```mermaid\n?/, '')\<close>: the pattern is anchored at the start (no
  multiline flag), so the only possible match is at index 0; the optional newline is
  greedy.
\<close>

definition replace_opening :: "string \<Rightarrow> string" where
  "replace_opening s =
     (if startsWith s fence then
        (case drop (length fence) s of
           [] \<Rightarrow> []
         | c # r \<Rightarrow> if c = newline then r else c # r)
      else s)"

text \<open>
  \<^verbatim>\<open>.replace(/\n?```$/, '')\<close>: without the global flag the leftmost match is replaced.
  \<^verbatim>\<open>$\<close> matches at the end of the input only, so the pattern matches at a position
  exactly when the rest of the string from there is a newline and three backticks, or
  three backticks. The scan tries each start position from the left.
\<close>

fun replace_closing :: "string \<Rightarrow> string" where
  "replace_closing [] = []"
| "replace_closing (c # cs) =
     (if c # cs = newline # closing_fence \<or> c # cs = closing_fence then []
      else c # replace_closing cs)"

section \<open>The structural outline\<close>

text \<open>
  The fields of the metadata cache that \<^verbatim>\<open>extractMermaidBlocks\<close> reads:
  \<^verbatim>\<open>position.start.offset\<close>, \<^verbatim>\<open>position.end.offset\<close> and \<^verbatim>\<open>position.start.line\<close>
  of a section, \<^verbatim>\<open>heading\<close> and \<^verbatim>\<open>position.start.line\<close> of a heading.
\<close>

record Loc =
  line :: nat
  offset :: nat

record Pos =
  start :: Loc
  finish :: Loc

record SectionCache =
  sec_type :: string
  sec_position :: Pos

record HeadingCache =
  h_heading :: string
  h_position :: Pos

record CachedMetadata =
  sections :: "SectionCache list option"
  headings :: "HeadingCache list option"

record MermaidBlock =
  code :: string
  heading :: string

section \<open>extractMermaidBlocks\<close>

text \<open>
  The backward scan over the headings. The argument \<open>n\<close> is the loop index plus one, so
  the loop condition \<^verbatim>\<open>i >= 0\<close> is \<open>n \<noteq> 0\<close>; the scan starts at \<open>n = length hs\<close>.
\<close>

fun nearest_heading_loop :: "HeadingCache list \<Rightarrow> nat \<Rightarrow> nat \<Rightarrow> string" where
  "nearest_heading_loop hs l 0 = ''direct content''"
| "nearest_heading_loop hs l (Suc i) =
     (if line (start (h_position (hs ! i))) < l then h_heading (hs ! i)
      else nearest_heading_loop hs l i)"

text \<open>The loop over the sections; \<open>acc\<close> is the array \<^verbatim>\<open>mermaidBlocks\<close> that it pushes to.\<close>

fun extract_loop ::
  "string \<Rightarrow> HeadingCache list \<Rightarrow> SectionCache list \<Rightarrow> MermaidBlock list \<Rightarrow> MermaidBlock list"
where
  "extract_loop content hs [] acc = acc"
| "extract_loop content hs (s # ss) acc =
     (if sec_type s = ''code'' then
        (let blockContent =
               substring content (offset (start (sec_position s)))
                                 (offset (finish (sec_position s)))
         in if startsWith blockContent ''```mermaid'' then
              (let c = trim (replace_closing (replace_opening blockContent));
                   nearestHeading =
                     nearest_heading_loop hs (line (start (sec_position s))) (length hs)
               in extract_loop content hs ss (acc @ [\<lparr>code = c, heading = nearestHeading\<rparr>]))
            else extract_loop content hs ss acc)
      else extract_loop content hs ss acc)"

text \<open>
  \<^verbatim>\<open>getFileCache\<close> may return null, and both \<^verbatim>\<open>sections\<close> and \<^verbatim>\<open>headings\<close> may be
  absent from the cache.
\<close>

definition extractMermaidBlocks :: "string \<Rightarrow> CachedMetadata option \<Rightarrow> MermaidBlock list" where
  "extractMermaidBlocks content cache =
     (case cache of
        None \<Rightarrow> []
      | Some c \<Rightarrow>
          (case sections c of
             None \<Rightarrow> []
           | Some ss \<Rightarrow>
               extract_loop content (case headings c of None \<Rightarrow> [] | Some hs \<Rightarrow> hs) ss []))"

subsection \<open>The extraction as the specification words it\<close>

text \<open>The sections and headings of an outline, empty when the outline has none.\<close>

definition outline_sections :: "CachedMetadata option \<Rightarrow> SectionCache list" where
  "outline_sections cache =
     (case cache of None \<Rightarrow> [] | Some c \<Rightarrow> (case sections c of None \<Rightarrow> [] | Some ss \<Rightarrow> ss))"

definition outline_headings :: "CachedMetadata option \<Rightarrow> HeadingCache list" where
  "outline_headings cache =
     (case cache of None \<Rightarrow> [] | Some c \<Rightarrow> (case headings c of None \<Rightarrow> [] | Some hs \<Rightarrow> hs))"

definition section_text :: "string \<Rightarrow> SectionCache \<Rightarrow> string" where
  "section_text content s =
     substring content (offset (start (sec_position s))) (offset (finish (sec_position s)))"

text \<open>A code-typed section whose literal content begins with the fence marker.\<close>

definition mermaid_section :: "string \<Rightarrow> SectionCache \<Rightarrow> bool" where
  "mermaid_section content s =
     (sec_type s = ''code'' \<and> startsWith (section_text content s) fence)"

text \<open>
  The source text in the specification's words: strip the opening fence, then the
  newline that trails it, then the closing fence, and trim the white space around what
  is left.
\<close>

definition strip_opening_fence :: "string \<Rightarrow> string" where
  "strip_opening_fence t = (if startsWith t fence then drop (length fence) t else t)"

definition strip_leading_newline :: "string \<Rightarrow> string" where
  "strip_leading_newline t = (if startsWith t [newline] then drop 1 t else t)"

definition strip_closing_fence :: "string \<Rightarrow> string" where
  "strip_closing_fence t =
     (if endsWith t closing_fence then take (length t - length closing_fence) t else t)"

definition spec_sourceText :: "string \<Rightarrow> string" where
  "spec_sourceText t =
     trim (strip_closing_fence (strip_leading_newline (strip_opening_fence t)))"

text \<open>
  The context label in the specification's words: the text of the last heading whose
  start line is strictly smaller, or the sentinel when there is none.
\<close>

definition spec_contextLabel :: "HeadingCache list \<Rightarrow> nat \<Rightarrow> string" where
  "spec_contextLabel hs l =
     (case filter (\<lambda>h. line (start (h_position h)) < l) hs of
        [] \<Rightarrow> ''direct content''
      | x # xs \<Rightarrow> h_heading (last (x # xs)))"

text \<open>The block that the specification associates with a matching section.\<close>

definition block_of :: "string \<Rightarrow> HeadingCache list \<Rightarrow> SectionCache \<Rightarrow> MermaidBlock" where
  "block_of content hs s =
     \<lparr>code = spec_sourceText (section_text content s),
      heading = spec_contextLabel hs (line (start (sec_position s)))\<rparr>"

section \<open>The output file name\<close>

datatype fmt = png | svg

fun fmt_string :: "fmt \<Rightarrow> string" where
  "fmt_string png = ''png''"
| "fmt_string svg = ''svg''"

text \<open>The character class \<^verbatim>\<open>[\\/:*?"<>|]\<close> of the sanitising pattern.\<close>

definition reserved_chars :: string where
  "reserved_chars =
     [CHR 0x5C, CHR ''/'', CHR '':'', CHR ''*'', CHR ''?'', CHR 0x22, CHR ''<'', CHR ''>'', CHR ''|'']"

text \<open>
  \<^verbatim>\<open>heading.replace(/[\\/:*?"<>|]/g, '-')\<close>: with the global flag every match is
  replaced, scanning from the left; a match is one character long.
\<close>

fun replace_reserved :: "string \<Rightarrow> string" where
  "replace_reserved [] = []"
| "replace_reserved (c # cs) =
     (if c \<in> set reserved_chars then CHR ''-'' # replace_reserved cs
      else c # replace_reserved cs)"

text \<open>
  A non-negative integer in a template literal is written in decimal, without leading
  zeros.
\<close>

definition digit_char :: "nat \<Rightarrow> char" where
  "digit_char d = ''0123456789'' ! d"

fun decimal :: "nat \<Rightarrow> string" where
  "decimal n = (if n < 10 then [digit_char n] else decimal (n div 10) @ [digit_char (n mod 10)])"

declare decimal.simps [simp del]

text \<open>The number a decimal numeral denotes, to say what \<open>decimal\<close> writes.\<close>

definition digit_value :: "char \<Rightarrow> nat" where
  "digit_value c = of_char c - 48"

definition decimal_value :: "string \<Rightarrow> nat" where
  "decimal_value s = foldl (\<lambda>n c. 10 * n + digit_value c) 0 s"

text \<open>
  \<^verbatim>\<open>`${baseName}-${sanitizedHeading}-${index + 1}.${this.settings.format}`\<close>
\<close>

definition defaultFileName :: "string \<Rightarrow> string \<Rightarrow> nat \<Rightarrow> fmt \<Rightarrow> string" where
  "defaultFileName baseName h index f =
     (let sanitizedHeading = replace_reserved h
      in baseName @ ''-'' @ sanitizedHeading @ ''-'' @ decimal (index + 1) @ ''.'' @ fmt_string f)"

section \<open>The document tree\<close>

text \<open>
  An element of the page: tag name, class list, attributes, text content and children in
  document order.
\<close>

datatype element =
  Element (tagName: string) (classList: "string list") (attributes: "(string \<times> string) list")
    (textContent: string) (childNodes: "element list")

text \<open>
  \<^verbatim>\<open>querySelector('svg:not(.copy-code-button)')\<close> over the children of the container:
  the first match among the descendants in document order (an element before its
  children, children before later siblings). A DOM node knows its ancestors; the model
  returns the match together with the class lists of its ancestors, nearest first.
\<close>

fun querySelector :: "string list list \<Rightarrow> element list \<Rightarrow> (element \<times> string list list) option" where
  "querySelector anc [] = None"
| "querySelector anc (Element t cs as tx ks # es) =
     (if t = ''svg'' \<and> ''copy-code-button'' \<notin> set cs then Some (Element t cs as tx ks, anc)
      else (case querySelector (cs # anc) ks of
              Some r \<Rightarrow> Some r
            | None \<Rightarrow> querySelector anc es))"

text \<open>
  \<^verbatim>\<open>candidate.closest('.copy-code-button')\<close> is not null: the candidate or one of its
  ancestors carries the class.
\<close>

definition closest_copy_code_button :: "element \<times> string list list \<Rightarrow> bool" where
  "closest_copy_code_button cand =
     list_ex (\<lambda>cs. ''copy-code-button'' \<in> set cs) (classList (fst cand) # snd cand)"

definition getAttribute :: "element \<Rightarrow> string \<Rightarrow> string option" where
  "getAttribute e n = map_of (attributes e) n"

fun update_attribute :: "(string \<times> string) list \<Rightarrow> string \<Rightarrow> string \<Rightarrow> (string \<times> string) list" where
  "update_attribute [] n v = [(n, v)]"
| "update_attribute ((k, x) # rest) n v =
     (if k = n then (k, v) # rest else (k, x) # update_attribute rest n v)"

definition setAttribute :: "element \<Rightarrow> string \<Rightarrow> string \<Rightarrow> element" where
  "setAttribute e n v =
     Element (tagName e) (classList e) (update_attribute (attributes e) n v) (textContent e)
       (childNodes e)"

definition prepend :: "element \<Rightarrow> element \<Rightarrow> element" where
  "prepend e c =
     Element (tagName e) (classList e) (attributes e) (textContent e) (c # childNodes e)"

section \<open>The world and the host\<close>

text \<open>What the plugin does to its surroundings, in the order in which it does it.\<close>

datatype event =
    Notice string
  | ConsoleLog string
  | ConsoleError string
  | RenderCall nat string
  | DirectoryDialog
  | SaveDialog string
  | WriteFile string
  | OpenPath string
  | ModalClose
  | ProgressNotice string
  | ProgressMessage string
  | ProgressHide

text \<open>
  The state that the plugin changes: the children of \<^verbatim>\<open>document.body\<close> (node
  identities; \<open>fresh\<close> is the identity of the next node created), the milliseconds spent in
  \<^verbatim>\<open>setTimeout\<close> waits, the number of \<^verbatim>\<open>querySelector\<close> polls made, the file system
  and the trace of events.
\<close>

record world =
  body :: "nat list"
  fresh :: nat
  clock :: nat
  polls :: nat
  files :: "string \<rightharpoonup> string"
  log :: "event list"

definition emit :: "event list \<Rightarrow> world \<Rightarrow> world" where
  "emit es w = w\<lparr>log := log w @ es\<rparr>"

text \<open>
  How an asynchronous call ends: it returns a value, it throws, or it waits for ever on a
  promise that never settles.
\<close>

datatype 'a outcome = Returns 'a | Throws string | Hangs

text \<open>
  What one call of \<^verbatim>\<open>MarkdownRenderer.render\<close> does: its promise resolves, rejects with
  a message or never settles, and the render engine fills the container over time;
  \<open>contents i\<close> are the children of the container when the \<open>i\<close>-th poll looks at it.
\<close>

datatype settlement = Resolves | Rejects string | Pending

record rendering =
  settles :: settlement
  contents :: "nat \<Rightarrow> element list"

text \<open>
  The platform the plugin runs on (Obsidian, the browser, Electron, Node), as parameters:
  each field is the answer of one external call to the arguments the source passes it.
  Of the promises that the plugin awaits, only that of the renderer may stay pending in
  the model; the dialogs, the image load and the shell are taken to settle. A number is
  a \<^typ>\<open>rat option\<close>: the rational value of a double, with \<open>None\<close> for NaN.
\<close>

record host =
  fontText :: string
  fontFamily :: string
  bodyPath :: "string list list"
  markdownRender :: "nat \<Rightarrow> string \<Rightarrow> rendering"
  viewBoxBaseVal :: "element \<Rightarrow> rat \<times> rat"
  parseFloat :: "string \<Rightarrow> rat option"
  numberToString :: "rat option \<Rightarrow> string"
  serializeToString :: "element \<Rightarrow> string"
  bufferFrom :: "string \<Rightarrow> string"
  canvasOutOfRange :: "rat \<Rightarrow> nat"
  getContext2d :: "nat \<Rightarrow> nat \<Rightarrow> bool"
  rasterize :: "string \<Rightarrow> nat \<Rightarrow> nat \<Rightarrow> string + string"
  dialogAvailable :: bool
  showSaveDialog :: "string \<Rightarrow> bool \<times> string"
  showOpenDialog :: "bool \<times> string list"
  pathJoin :: "string \<Rightarrow> string \<Rightarrow> string"
  writeFileFails :: "string \<rightharpoonup> string"
  openPathFails :: "string \<rightharpoonup> string"

record MermaidExporterSettings =
  imageScale :: nat
  format :: fmt
  autoOpen :: bool
  overwrite :: bool

section \<open>renderMermaidToSvg\<close>

text \<open>
  \<^verbatim>\<open>style.getPropertyValue('--font-text') || style.fontFamily || 'sans-serif'\<close>: the
  empty string is falsy.
\<close>

definition rawFont :: "host \<Rightarrow> string" where
  "rawFont h =
     (if fontText h \<noteq> [] then fontText h
      else if fontFamily h \<noteq> [] then fontFamily h
      else ''sans-serif'')"

text \<open>\<^verbatim>\<open>rawFont.replace(/"/g, '\\"')\<close>\<close>

fun escape_quotes :: "string \<Rightarrow> string" where
  "escape_quotes [] = []"
| "escape_quotes (c # cs) =
     (if c = CHR 0x22 then CHR 0x5C # CHR 0x22 # escape_quotes cs else c # escape_quotes cs)"

definition safeCode :: "string \<Rightarrow> string \<Rightarrow> string" where
  \<open>safeCode jsonFont c =
     ''%%{init: { "fontFamily": "'' @ jsonFont
     @ ''", "flowchart": {"htmlLabels": false}, "sequence": {"actorFontFamily": "'' @ jsonFont
     @ ''", "noteFontFamily": "'' @ jsonFont
     @ ''", "messageFontFamily": "'' @ jsonFont
     @ ''"}, "themeVariables": { "fontFamily": "'' @ jsonFont
     @ ''", "fontSize": "16px"} } }%%'' @ [newline] @ c\<close>

text \<open>The markdown handed to the renderer: the directive and the code in a mermaid fence.\<close>

definition render_markup :: "host \<Rightarrow> string \<Rightarrow> string" where
  "render_markup h c =
     ''```mermaid'' @ [newline] @ safeCode (escape_quotes (rawFont h)) c @ [newline] @ ''```''"

definition styleEl :: "string \<Rightarrow> element" where
  "styleEl cssFont =
     Element ''style'' [] []
       ([newline]
        @ ''                text, tspan, .node, .label, .messageText, .noteText, .loopText, .actor, .cluster-label, .cluster text, .title, g.cluster text {''
        @ [newline] @ ''                    font-family: '' @ cssFont @ '' !important;''
        @ [newline] @ ''                }'' @ [newline] @ ''            '')
       []"

definition maxRetries :: nat where
  "maxRetries = 200"

text \<open>
  The polling loop: up to \<open>maxRetries\<close> attempts; an attempt that finds no usable
  candidate is followed by a wait of 50 ms. \<open>anc\<close> are the class lists of the container
  and of its ancestors.
\<close>

function poll_loop ::
  "string list list \<Rightarrow> (nat \<Rightarrow> element list) \<Rightarrow> nat \<Rightarrow> world \<Rightarrow> element option \<times> world"
where
  "poll_loop anc cont i w =
     (if i < maxRetries then
        (let w1 = w\<lparr>polls := polls w + 1\<rparr>
         in case querySelector anc (cont i) of
              Some candidate \<Rightarrow>
                if \<not> closest_copy_code_button candidate then (Some (fst candidate), w1)
                else poll_loop anc cont (i + 1) (w1\<lparr>clock := clock w1 + 50\<rparr>)
            | None \<Rightarrow> poll_loop anc cont (i + 1) (w1\<lparr>clock := clock w1 + 50\<rparr>))
      else (None, w))"
  by pat_completeness auto
termination
  by (relation "measure (\<lambda>(anc, cont, i, w). maxRetries - i)") auto

declare poll_loop.simps [simp del]

text \<open>
  The call returns the element found (\<open>None\<close> for null), throws when the promise of the
  renderer rejects, and never gets past the \<^verbatim>\<open>await\<close> when that promise stays pending.
  The container is created by \<^verbatim>\<open>document.body.createDiv()\<close>, without a class.
\<close>

definition renderMermaidToSvg :: "host \<Rightarrow> string \<Rightarrow> world \<Rightarrow> element option outcome \<times> world" where
  "renderMermaidToSvg h c w =
     (let tempContainer = fresh w;
          w1 = w\<lparr>body := body w @ [tempContainer], fresh := fresh w + 1\<rparr>;
          w2 = emit [ConsoleLog (''Mermaid Exporter: Detected font '' @ [CHR 0x27] @ rawFont h
                                  @ [CHR 0x27])] w1;
          cssFont = rawFont h;
          markup = render_markup h c;
          w3 = emit [RenderCall tempContainer markup] w2;
          r = markdownRender h tempContainer markup
      in case settles r of
           Rejects e \<Rightarrow> (Throws e, w3)
         | Pending \<Rightarrow> (Hangs, w3)
         | Resolves \<Rightarrow>
             (let (targetSvg, w4) = poll_loop ([] # bodyPath h) (contents r) 0 w3;
                  w5 = (if targetSvg = None
                        then emit [ConsoleError ''Mermaid Exporter: Failed to find SVG after 10s wait.''] w4
                        else w4);
                  result = (case targetSvg of
                              None \<Rightarrow> None
                            | Some el \<Rightarrow> Some (prepend el (styleEl cssFont)));
                  w6 = w5\<lparr>body := remove1 tempContainer (body w5)\<rparr>
              in (Returns result, w6)))"

text \<open>
  A qualifying SVG element among the descendants of the container: an \<^verbatim>\<open>svg\<close> element
  that is not a copy-code-button artifact, that is, neither it nor an ancestor carries
  the class. \<open>inside\<close> says that an ancestor does.
\<close>

fun has_qualifying_svg :: "bool \<Rightarrow> element list \<Rightarrow> bool" where
  "has_qualifying_svg inside [] = False"
| "has_qualifying_svg inside (Element t cs as tx ks # es) =
     ((t = ''svg'' \<and> ''copy-code-button'' \<notin> set cs \<and> \<not> inside)
      \<or> has_qualifying_svg (inside \<or> ''copy-code-button'' \<in> set cs) ks
      \<or> has_qualifying_svg inside es)"

definition body_in_copy_code_button :: "host \<Rightarrow> bool" where
  "body_in_copy_code_button h = list_ex (\<lambda>cs. ''copy-code-button'' \<in> set cs) (bodyPath h)"

section \<open>saveSvgAsImage\<close>

text \<open>\<^verbatim>\<open>svg.getAttribute(n) || d\<close>\<close>

definition attribute_or :: "element \<Rightarrow> string \<Rightarrow> string \<Rightarrow> string" where
  "attribute_or e n d =
     (case getAttribute e n of None \<Rightarrow> d | Some v \<Rightarrow> if v = [] then d else v)"

text \<open>
  The intrinsic dimensions: those of the view box, or the parsed \<^verbatim>\<open>width\<close> and
  \<^verbatim>\<open>height\<close> attributes when either is zero.
\<close>

definition dimensions :: "host \<Rightarrow> element \<Rightarrow> rat option \<times> rat option" where
  "dimensions h e =
     (let (width, height) = viewBoxBaseVal h e
      in if width = 0 \<or> height = 0
         then (parseFloat h (attribute_or e ''width'' ''800''),
               parseFloat h (attribute_or e ''height'' ''600''))
         else (Some width, Some height))"

text \<open>
  Arithmetic on numbers is that of IEEE 754 doubles: the exact result, rounded to the
  nearest double, ties to the even significand. \<open>bit_length n\<close> is the number of binary
  digits of \<open>n\<close>, \<open>two_to e\<close> is \<open>2\<close> to the power \<open>e\<close>, and \<open>binary_exponent a\<close> is the \<open>e\<close>
  with \<open>2^e \<le> a < 2^(e+1)\<close> for a positive \<open>a\<close>. A double has 53 significant bits; below
  \<open>2^-1022\<close> the spacing stays at \<open>2^-1074\<close>. A result of magnitude \<open>2^1024\<close> or more stands
  for an infinity.
\<close>

function bit_length :: "int \<Rightarrow> nat" where
  "bit_length n = (if n \<le> 0 then 0 else Suc (bit_length (n div 2)))"
  by pat_completeness auto
termination
  by (relation "measure nat") auto

declare bit_length.simps [simp del]

definition two_to :: "int \<Rightarrow> rat" where
  "two_to e = (if 0 \<le> e then 2 ^ nat e else 1 / 2 ^ nat (- e))"

definition binary_exponent :: "rat \<Rightarrow> int" where
  "binary_exponent a =
     (let (p, q) = quotient_of a;
          d = int (bit_length p) - int (bit_length q)
      in if two_to d \<le> a then d else d - 1)"

definition round_half_even :: "rat \<Rightarrow> int" where
  "round_half_even y =
     (let f = \<lfloor>y\<rfloor>;
          r = y - of_int f
      in if r < 1 / 2 then f
         else if 1 / 2 < r then f + 1
         else if f mod 2 = 0 then f else f + 1)"

definition double_round :: "rat \<Rightarrow> rat" where
  "double_round x =
     (if x = 0 then 0
      else (let a = \<bar>x\<bar>;
                e = max (binary_exponent a) (- 1022);
                u = two_to (e - 52)
            in sgn x * of_int (round_half_even (a / u)) * u))"

text \<open>\<^verbatim>\<open>width * scale\<close>: NaN stays NaN.\<close>

definition times_scale :: "rat option \<Rightarrow> nat \<Rightarrow> rat option" where
  "times_scale x scale =
     (case x of None \<Rightarrow> None | Some v \<Rightarrow> Some (double_round (v * of_nat scale)))"

text \<open>
  \<^verbatim>\<open>canvas.width = x\<close>: the attribute is an unsigned long, so the number assigned is
  converted to an integer by dropping its fraction; NaN becomes 0. The browser's answer
  to a number that is negative or not below \<open>2^31\<close> is a parameter.
\<close>

definition toCanvasSize :: "host \<Rightarrow> rat option \<Rightarrow> nat" where
  "toCanvasSize h x =
     (case x of
        None \<Rightarrow> 0
      | Some v \<Rightarrow> if 0 \<le> v \<and> v < 2 ^ 31 then nat \<lfloor>v\<rfloor> else canvasOutOfRange h v)"

definition canvas_size :: "host \<Rightarrow> MermaidExporterSettings \<Rightarrow> element \<Rightarrow> nat \<times> nat" where
  "canvas_size h st el =
     (let scale = imageScale st;
          (width, height) = dimensions h el
      in (toCanvasSize h (times_scale width scale), toCanvasSize h (times_scale height scale)))"

text \<open>
  The image buffer: \<open>Inl\<close> when the conversion throws (the image fails to load, the
  canvas cannot be read), \<open>Inr None\<close> when no buffer is made (no 2D context).
\<close>

definition make_buffer ::
  "host \<Rightarrow> MermaidExporterSettings \<Rightarrow> element \<Rightarrow> string \<Rightarrow> string + string option" where
  "make_buffer h st el svgData =
     (if format st = svg then Inr (Some (bufferFrom h svgData))
      else (let (cw, ch) = canvas_size h st el
            in if getContext2d h cw ch
               then (case rasterize h svgData cw ch of
                       Inl e \<Rightarrow> Inl e
                     | Inr b \<Rightarrow> Inr (Some b))
               else Inr None))"

text \<open>
  The tail of the function, once a final path is known: the write, which may throw, and
  the guarded attempt to open the file.
\<close>

definition write_and_open ::
  "host \<Rightarrow> MermaidExporterSettings \<Rightarrow> string \<Rightarrow> string \<Rightarrow> bool \<Rightarrow> world \<Rightarrow> string option \<times> world" where
  "write_and_open h st finalPath buffer skipOpen w =
     (if finalPath \<noteq> [] then
        (case writeFileFails h finalPath of
           Some e \<Rightarrow> (Some e, w)
         | None \<Rightarrow>
             (let w1 = emit [WriteFile finalPath] (w\<lparr>files := (files w)(finalPath \<mapsto> buffer)\<rparr>)
              in if autoOpen st \<and> \<not> skipOpen then
                   (case openPathFails h finalPath of
                      None \<Rightarrow> (None, emit [OpenPath finalPath] w1)
                    | Some e \<Rightarrow>
                        (None, emit [OpenPath finalPath, ConsoleError ''Failed to auto-open file:''] w1))
                 else (None, w1)))
      else (None, w))"

text \<open>
  The serialised markup: the width and height attributes are set to the scaled
  dimensions first.
\<close>

definition svg_data :: "host \<Rightarrow> MermaidExporterSettings \<Rightarrow> element \<Rightarrow> string" where
  "svg_data h st el =
     (let scale = imageScale st;
          (width, height) = dimensions h el;
          el1 = setAttribute el ''width'' (numberToString h (times_scale width scale));
          el2 = setAttribute el1 ''height'' (numberToString h (times_scale height scale))
      in serializeToString h el2)"

text \<open>
  The body of the \<^verbatim>\<open>try\<close> block; the first component is the message of the exception
  thrown, if any. A target directory counts when it is given and not the empty string.
\<close>

definition save_try ::
  "host \<Rightarrow> MermaidExporterSettings \<Rightarrow> element \<Rightarrow> string \<Rightarrow> nat \<Rightarrow> string \<Rightarrow> string option \<Rightarrow> bool
     \<Rightarrow> world \<Rightarrow> string option \<times> world" where
  "save_try h st el baseName index hdg targetDirectory skipOpen w =
     (let svgData = svg_data h st el;
          defaultName = defaultFileName baseName hdg index (format st)
      in case make_buffer h st el svgData of
           Inl e \<Rightarrow> (Some e, w)
         | Inr None \<Rightarrow> (None, emit [Notice ''Failed to create image buffer.''] w)
         | Inr (Some buffer) \<Rightarrow>
             (if targetDirectory \<noteq> None \<and> targetDirectory \<noteq> Some [] then
                (let finalPath = pathJoin h (the targetDirectory) defaultName
                 in if files w finalPath \<noteq> None \<and> \<not> overwrite st then
                      (if \<not> skipOpen
                       then (None, emit [Notice (''File already exists, skipping: '' @ defaultName)] w)
                       else (None, w))
                    else write_and_open h st finalPath buffer skipOpen w)
              else if \<not> dialogAvailable h then
                (None, emit [Notice ''Electron dialog not available.''] w)
              else
                (let w1 = emit [SaveDialog defaultName] w;
                     (canceled, filePath) = showSaveDialog h defaultName
                 in if \<not> canceled \<and> filePath \<noteq> []
                    then write_and_open h st filePath buffer skipOpen w1
                    else (None, w1))))"

definition saveSvgAsImage ::
  "host \<Rightarrow> MermaidExporterSettings \<Rightarrow> element \<Rightarrow> string \<Rightarrow> nat \<Rightarrow> string \<Rightarrow> string option \<Rightarrow> bool
     \<Rightarrow> world \<Rightarrow> world" where
  "saveSvgAsImage h st el baseName index hdg targetDirectory skipOpen w =
     (case save_try h st el baseName index hdg targetDirectory skipOpen w of
        (None, w') \<Rightarrow> w'
      | (Some e, w') \<Rightarrow> emit [Notice (''Save failed: '' @ e), ConsoleError e] w')"

section \<open>The export driver\<close>

record MermaidSelectionModal =
  mermaidBlocks :: "MermaidBlock list"
  activeFile :: string
  selected :: "bool list"

text \<open>The constructor: nothing is selected at first.\<close>

definition new_modal :: "MermaidBlock list \<Rightarrow> string \<Rightarrow> MermaidSelectionModal" where
  "new_modal blocks file =
     \<lparr>mermaidBlocks = blocks, activeFile = file, selected = replicate (length blocks) False\<rparr>"

text \<open>
  \<^verbatim>\<open>this.selected.map((val, idx) => val ? idx : -1).filter(idx => idx !== -1)\<close>
\<close>

definition selectedIndices :: "bool list \<Rightarrow> nat list" where
  "selectedIndices sel =
     map nat (filter (\<lambda>idx. idx \<noteq> - 1)
                (map (\<lambda>(val, idx). if val then int idx else - 1) (zip sel [0..<length sel])))"

text \<open>
  The loop inside the \<^verbatim>\<open>try\<close> block of the click handler: it runs to its end, or an
  exception leaves it, or it waits for ever in a render. Reading \<^verbatim>\<open>block.code\<close> of an
  index without a block throws a TypeError.
\<close>

fun export_loop ::
  "host \<Rightarrow> MermaidExporterSettings \<Rightarrow> MermaidSelectionModal \<Rightarrow> string \<Rightarrow> bool \<Rightarrow> nat list \<Rightarrow> world
     \<Rightarrow> unit outcome \<times> world" where
  "export_loop h st m targetDirectory isBulk [] w = (Returns (), w)"
| "export_loop h st m targetDirectory isBulk (index # rest) w =
     (if index < length (mermaidBlocks m) then
        (let block = mermaidBlocks m ! index
         in case renderMermaidToSvg h (code block) w of
              (Throws e, w1) \<Rightarrow> (Throws e, w1)
            | (Hangs, w1) \<Rightarrow> (Hangs, w1)
            | (Returns (Some el), w1) \<Rightarrow>
                export_loop h st m targetDirectory isBulk rest
                  (saveSvgAsImage h st el (activeFile m) index (heading block)
                     (Some targetDirectory) isBulk w1)
            | (Returns None, w1) \<Rightarrow>
                export_loop h st m targetDirectory isBulk rest
                  (emit [Notice (''Failed to render diagram #'' @ decimal (index + 1)
                                 @ '' (Timeout or not found)'')] w1))
      else (Throws (''Cannot read properties of undefined (reading '' @ [CHR 0x27] @ ''code''
                    @ [CHR 0x27] @ '')''), w))"

text \<open>\<^verbatim>\<open>`Exporting ${count} diagram${count !== 1 ? 's' : ''}...`\<close>\<close>

definition progress_text :: "nat \<Rightarrow> string" where
  "progress_text count =
     ''Exporting '' @ decimal count @ '' diagram'' @ (if count \<noteq> 1 then ''s'' else []) @ ''...''"

text \<open>
  What follows the \<^verbatim>\<open>try\<close> statement: after a bulk export the folder is opened once.
\<close>

definition open_folder :: "host \<Rightarrow> MermaidExporterSettings \<Rightarrow> bool \<Rightarrow> string \<Rightarrow> world \<Rightarrow> world" where
  "open_folder h st isBulk targetDirectory w =
     (if isBulk \<and> autoOpen st then emit [OpenPath targetDirectory] w else w)"

text \<open>
  The click handler of the export button; the result is the world as the handler leaves
  it. When a render never settles the handler stays suspended in the loop and nothing
  after the loop happens. The progress notice is hidden two seconds after the loop by a
  timer that the handler does not wait for; the trace records the message only.
\<close>

definition exportBtn_onclick ::
  "host \<Rightarrow> MermaidExporterSettings \<Rightarrow> MermaidSelectionModal \<Rightarrow> world \<Rightarrow> world" where
  "exportBtn_onclick h st m w =
     (let selectedIdx = selectedIndices (selected m)
      in if selectedIdx = [] then emit [Notice ''No blocks selected''] w
         else if \<not> dialogAvailable h then emit [Notice ''Electron dialog not available.''] w
         else
           (let w1 = emit [DirectoryDialog] w;
                (canceled, filePaths) = showOpenDialog h
            in case filePaths of
                 [] \<Rightarrow> w1
               | targetDirectory # others \<Rightarrow>
                   if canceled then w1
                   else
                     (let isBulk = (length selectedIdx > 1);
                          count = length selectedIdx;
                          w2 = emit [ModalClose, ProgressNotice (progress_text count)] w1
                      in case export_loop h st m targetDirectory isBulk selectedIdx w2 of
                           (Returns u, w3) \<Rightarrow>
                             open_folder h st isBulk targetDirectory
                               (emit [ProgressMessage ''Export finished.''] w3)
                         | (Throws e, w3) \<Rightarrow>
                             open_folder h st isBulk targetDirectory
                               (emit [ProgressHide, Notice (''Export failed: '' @ e)] w3)
                         | (Hangs, w3) \<Rightarrow> w3)))"

text \<open>The loop as the handler runs it, once the directory \<open>dir\<close> has been chosen.\<close>

definition batch_run ::
  "host \<Rightarrow> MermaidExporterSettings \<Rightarrow> MermaidSelectionModal \<Rightarrow> string \<Rightarrow> world
     \<Rightarrow> unit outcome \<times> world" where
  "batch_run h st m dir w =
     export_loop h st m dir (length (selectedIndices (selected m)) > 1)
       (selectedIndices (selected m))
       (emit [DirectoryDialog, ModalClose,
              ProgressNotice (progress_text (length (selectedIndices (selected m))))] w)"

text \<open>The parts of a trace that the properties below are about.\<close>

fun render_calls :: "event list \<Rightarrow> string list" where
  "render_calls [] = []"
| "render_calls (RenderCall c m # es) = m # render_calls es"
| "render_calls (e # es) = render_calls es"

fun written_paths :: "event list \<Rightarrow> string list" where
  "written_paths [] = []"
| "written_paths (WriteFile p # es) = p # written_paths es"
| "written_paths (e # es) = written_paths es"

fun save_dialogs :: "event list \<Rightarrow> string list" where
  "save_dialogs [] = []"
| "save_dialogs (SaveDialog n # es) = n # save_dialogs es"
| "save_dialogs (e # es) = save_dialogs es"

fun directory_dialogs :: "event list \<Rightarrow> nat" where
  "directory_dialogs [] = 0"
| "directory_dialogs (DirectoryDialog # es) = Suc (directory_dialogs es)"
| "directory_dialogs (e # es) = directory_dialogs es"

fun notices :: "event list \<Rightarrow> string list" where
  "notices [] = []"
| "notices (Notice n # es) = n # notices es"
| "notices (e # es) = notices es"

text \<open>The batch-level failure notices of a trace.\<close>

fun export_failures :: "event list \<Rightarrow> string list" where
  "export_failures [] = []"
| "export_failures (Notice n # es) =
     (if startsWith n ''Export failed: '' then n # export_failures es else export_failures es)"
| "export_failures (e # es) = export_failures es"

text \<open>
  No qualifying SVG element is in the container \<open>cid\<close> at any of the polls of a render of
  the code \<open>c\<close>.
\<close>

definition never_shows_svg :: "host \<Rightarrow> nat \<Rightarrow> string \<Rightarrow> bool" where
  "never_shows_svg h cid c =
     list_all (\<lambda>i. \<not> has_qualifying_svg (body_in_copy_code_button h)
                       (contents (markdownRender h cid (render_markup h c)) i))
       [0..<maxRetries]"

section \<open>Example inputs\<close>

text \<open>
  A note with two headings, two mermaid blocks and a block in another language between
  them, and its outline.
\<close>

definition example_note :: string where
  "example_note =
      ''# A'' @ [newline] @
      ''```mermaid'' @ [newline] @
      ''graph TD'' @ [newline] @
      ''```'' @ [newline] @
      ''## B'' @ [newline] @
      ''```js'' @ [newline] @
      ''x'' @ [newline] @
      ''```'' @ [newline] @
      ''```mermaid'' @ [newline] @
      ''flow'' @ [newline] @
      ''```''"

definition example_outline :: "CachedMetadata option" where
  "example_outline = Some
     \<lparr>sections = Some
        [\<lparr>sec_type = ''heading'',
         sec_position = \<lparr>start = \<lparr>line = 0, offset = 0\<rparr>, finish = \<lparr>line = 0, offset = 3\<rparr>\<rparr>\<rparr>,
         \<lparr>sec_type = ''code'',
         sec_position = \<lparr>start = \<lparr>line = 1, offset = 4\<rparr>, finish = \<lparr>line = 3, offset = 27\<rparr>\<rparr>\<rparr>,
         \<lparr>sec_type = ''heading'',
         sec_position = \<lparr>start = \<lparr>line = 4, offset = 28\<rparr>, finish = \<lparr>line = 4, offset = 32\<rparr>\<rparr>\<rparr>,
         \<lparr>sec_type = ''code'',
         sec_position = \<lparr>start = \<lparr>line = 5, offset = 33\<rparr>, finish = \<lparr>line = 7, offset = 44\<rparr>\<rparr>\<rparr>,
         \<lparr>sec_type = ''code'',
         sec_position = \<lparr>start = \<lparr>line = 8, offset = 45\<rparr>, finish = \<lparr>line = 10, offset = 64\<rparr>\<rparr>\<rparr>],
      headings = Some
        [\<lparr>h_heading = ''A'',
         h_position = \<lparr>start = \<lparr>line = 0, offset = 0\<rparr>, finish = \<lparr>line = 0, offset = 3\<rparr>\<rparr>\<rparr>,
         \<lparr>h_heading = ''B'',
         h_position = \<lparr>start = \<lparr>line = 4, offset = 28\<rparr>, finish = \<lparr>line = 4, offset = 32\<rparr>\<rparr>\<rparr>]\<rparr>"

text \<open>A world in which nothing has happened yet.\<close>

definition initial_world :: world where
  "initial_world = \<lparr>body = [], fresh = 0, clock = 0, polls = 0, files = Map.empty, log = []\<rparr>"

text \<open>
  A host on which everything works: the renderer resolves and the diagram is in the
  container at the first poll.
\<close>

definition example_svg :: element where
  "example_svg = Element ''svg'' [''flowchart''] [(''width'', ''100%'')] [] [Element ''g'' [] [] [] []]"

definition example_host :: host where
  "example_host =
     \<lparr>fontText = ''Inter'',
      fontFamily = [],
      bodyPath = [[''theme-dark''], []],
      markdownRender = (\<lambda>cid markup.
         \<lparr>settles = Resolves,
          contents = (\<lambda>i. [Element ''div'' [''mermaid''] [] [] [example_svg]])\<rparr>),
      viewBoxBaseVal = (\<lambda>e. (403 / 4, 50)),
      parseFloat = (\<lambda>s. None),
      numberToString = (\<lambda>x. ''n''),
      serializeToString = (\<lambda>e. ''<svg/>''),
      bufferFrom = (\<lambda>s. s),
      canvasOutOfRange = (\<lambda>x. 300),
      getContext2d = (\<lambda>cw ch. True),
      rasterize = (\<lambda>s cw ch. Inr ''PNG''),
      dialogAvailable = True,
      showSaveDialog = (\<lambda>n. (False, ''/tmp/'' @ n)),
      showOpenDialog = (False, [''/out'']),
      pathJoin = (\<lambda>d n. d @ ''/'' @ n),
      writeFileFails = Map.empty,
      openPathFails = Map.empty\<rparr>"

text \<open>The same host with a renderer whose promise rejects.\<close>

definition rejecting_host :: host where
  "rejecting_host =
     example_host\<lparr>markdownRender :=
       (\<lambda>cid markup. \<lparr>settles = Rejects ''render failed'', contents = (\<lambda>i. [])\<rparr>)\<rparr>"

text \<open>
  The same host with a renderer that resolves and never puts a diagram into the
  container; the copy button is all there is.
\<close>

definition idle_host :: host where
  "idle_host =
     example_host\<lparr>markdownRender :=
       (\<lambda>cid markup.
          \<lparr>settles = Resolves,
           contents = (\<lambda>i. [Element ''button'' [''copy-code-button''] [] []
                                [Element ''svg'' [''svg-icon''] [] [] []]])\<rparr>)\<rparr>"

text \<open>The settings that the plugin starts with, and the modal over the blocks of the example note.\<close>

definition DEFAULT_SETTINGS :: MermaidExporterSettings where
  "DEFAULT_SETTINGS = \<lparr>imageScale = 2, format = png, autoOpen = True, overwrite = True\<rparr>"

definition example_modal :: "bool list \<Rightarrow> MermaidSelectionModal" where
  "example_modal sel =
     (new_modal [\<lparr>code = ''graph TD'', heading = ''A''\<rparr>, \<lparr>code = ''flow'', heading = ''B''\<rparr>]
        ''Notes'')\<lparr>selected := sel\<rparr>"

text \<open>A world in which both files that the example export would write exist already.\<close>

definition exported_world :: world where
  "exported_world =
     initial_world\<lparr>files := [''/out/Notes-A-1.png'' \<mapsto> ''old A'', ''/out/Notes-B-2.png'' \<mapsto> ''old B'']\<rparr>"

text \<open>A host on which something goes wrong: its renderer rejects for the first container only.\<close>

definition flaky_host :: host where
  "flaky_host =
     example_host\<lparr>markdownRender :=
       (\<lambda>cid markup. if cid = 0 then \<lparr>settles = Rejects ''render failed'', contents = (\<lambda>i. [])\<rparr>
                      else markdownRender example_host cid markup)\<rparr>"

text \<open>
  More hosts: one whose renderer never settles; one on which the first example block
  renders to nothing and the render of the second rejects; one on which every image
  fails to decode; one on which no file can be written.
\<close>

definition pending_host :: host where
  "pending_host =
     example_host\<lparr>markdownRender := (\<lambda>cid markup. \<lparr>settles = Pending, contents = (\<lambda>i. [])\<rparr>)\<rparr>"

definition second_fails_host :: host where
  "second_fails_host =
     example_host\<lparr>markdownRender :=
       (\<lambda>cid markup. if markup = render_markup example_host ''flow''
                      then \<lparr>settles = Rejects ''render failed'', contents = (\<lambda>i. [])\<rparr>
                      else \<lparr>settles = Resolves, contents = (\<lambda>i. [])\<rparr>)\<rparr>"

definition undecodable_host :: host where
  "undecodable_host = example_host\<lparr>rasterize := (\<lambda>s cw ch. Inl ''decode error'')\<rparr>"

definition readonly_host :: host where
  "readonly_host = example_host\<lparr>writeFileFails := (\<lambda>p. Some ''EACCES: permission denied'')\<rparr>"

section \<open>Properties of the extraction\<close>

lemma trim_snoc_ws: "isWhiteSpace c \<Longrightarrow> trim (q @ [c]) = trim q"
proof (cases "\<forall>x\<in>set q. isWhiteSpace x")
  case True
  assume c: "isWhiteSpace c"
  have a: "dropWhile isWhiteSpace q = []" using True by (induction q) auto
  have b: "dropWhile isWhiteSpace (q @ [c]) = []" using True c by (induction q) auto
  show ?thesis unfolding trim_def a b by simp
next
  case False
  assume "isWhiteSpace c"
  with False show ?thesis by (auto simp: trim_def dropWhile_append)
qed

lemma endsWith_iff: "endsWith s p = (\<exists>q. s = q @ p)"
proof
  assume "endsWith s p"
  then have "s = take (length s - length p) s @ p"
    by (metis append_take_drop_id endsWith_def)
  then show "\<exists>q. s = q @ p" ..
next
  assume "\<exists>q. s = q @ p"
  then show "endsWith s p" by (auto simp: endsWith_def)
qed

lemma endsWith_self: "endsWith s s"
  by (simp add: endsWith_def)

lemma drop_Cons_eq: "drop n t = a # x \<Longrightarrow> drop (Suc n) t = x"
  by (metis drop_Suc list.sel(3) tl_drop)

text \<open>The closing pattern leaves a string alone that does not end in three backticks.\<close>

lemma replace_closing_no_match:
  "\<not> endsWith s closing_fence \<Longrightarrow> replace_closing s = s"
proof (induction s)
  case Nil
  then show ?case by simp
next
  case (Cons c cs)
  have a: "c # cs \<noteq> closing_fence" using Cons.prems endsWith_self by metis
  have b: "c # cs \<noteq> newline # closing_fence"
    using Cons.prems unfolding endsWith_iff by (metis append_Cons append_Nil)
  have c: "\<not> endsWith cs closing_fence"
    using Cons.prems unfolding endsWith_iff by (metis append_Cons)
  show ?case using a b c Cons.IH by simp
qed

lemma replace_closing_app_plain:
  "p = [] \<or> last p \<noteq> newline \<Longrightarrow> replace_closing (p @ closing_fence) = p"
proof (induction p)
  case Nil
  then show ?case by (simp add: closing_fence_def)
next
  case (Cons c p)
  then show ?case
    by (cases p) (auto simp: closing_fence_def)
qed

lemma replace_closing_app_nl:
  "replace_closing (p @ newline # closing_fence) = p"
proof (induction p)
  case Nil
  then show ?case by simp
next
  case (Cons c p)
  then show ?case by (auto simp: closing_fence_def newline_def)
qed

text \<open>
  The pattern also takes the newline before the closing fence; the trim that follows
  makes that invisible.
\<close>

lemma trim_replace_closing: "trim (replace_closing s) = trim (strip_closing_fence s)"
proof (cases "endsWith s closing_fence")
  case False
  then show ?thesis by (simp add: replace_closing_no_match strip_closing_fence_def)
next
  case True
  define p where "p = take (length s - length closing_fence) s"
  have s: "s = p @ closing_fence"
    using True p_def by (metis append_take_drop_id endsWith_def)
  have sp: "strip_closing_fence s = p" using True by (simp add: strip_closing_fence_def p_def)
  show ?thesis
  proof (cases "p = [] \<or> last p \<noteq> newline")
    case True
    then show ?thesis using s sp replace_closing_app_plain by metis
  next
    case False
    then obtain q where q: "p = q @ [newline]"
      by (metis append_butlast_last_id)
    have "replace_closing s = q" using s q replace_closing_app_nl by simp
    moreover have "trim p = trim q"
      using q trim_snoc_ws by (simp add: isWhiteSpace_def newline_def)
    ultimately show ?thesis using sp by simp
  qed
qed

lemma replace_opening_spec:
  "startsWith t fence \<Longrightarrow> replace_opening t = strip_leading_newline (strip_opening_fence t)"
  by (auto simp: replace_opening_def strip_leading_newline_def strip_opening_fence_def
      startsWith_def drop_Cons_eq split: list.splits)

lemma code_of_block:
  "startsWith t fence \<Longrightarrow> trim (replace_closing (replace_opening t)) = spec_sourceText t"
  by (simp add: trim_replace_closing replace_opening_spec spec_sourceText_def)

lemma nearest_heading_loop_take:
  "n \<le> length hs \<Longrightarrow> nearest_heading_loop hs l n = spec_contextLabel (take n hs) l"
proof (induction n)
  case 0
  then show ?case by (simp add: spec_contextLabel_def)
next
  case (Suc i)
  then have t: "take (Suc i) hs = take i hs @ [hs ! i]"
    by (simp add: take_Suc_conv_app_nth)
  show ?case using Suc
    by (auto simp: t spec_contextLabel_def split: list.splits)
qed

lemma nearest_heading_loop_spec:
  "nearest_heading_loop hs l (length hs) = spec_contextLabel hs l"
  by (simp add: nearest_heading_loop_take)

lemma extract_loop_map_filter:
  "extract_loop content hs ss acc =
     acc @ map (block_of content hs) (filter (mermaid_section content) ss)"
proof (induction ss arbitrary: acc)
  case Nil
  then show ?case by simp
next
  case (Cons s ss)
  show ?case
    by (simp add: Cons.IH mermaid_section_def section_text_def block_of_def fence_def
        nearest_heading_loop_spec code_of_block [unfolded fence_def] Let_def)
qed

lemma extract_map_filter:
  "extractMermaidBlocks content cache =
     map (block_of content (outline_headings cache))
         (filter (mermaid_section content) (outline_sections cache))"
  by (simp add: extractMermaidBlocks_def outline_sections_def outline_headings_def
      extract_loop_map_filter split: option.splits)



text \<open>
  Claim C3. The heading of every extracted block is the text of the last heading of the
  outline whose start line is strictly less than the start line of the block's section,
  and \<open>''direct content''\<close> when no heading precedes it.
\<close>

theorem extractMermaidBlocks_headings:
  "map heading (extractMermaidBlocks content cache)
     = map (\<lambda>s. spec_contextLabel (outline_headings cache) (line (start (sec_position s))))
         (filter (mermaid_section content) (outline_sections cache))"
  by (simp add: extract_map_filter block_of_def comp_def)

theorem extractMermaidBlocks_headings_witness:
  "map heading (extractMermaidBlocks example_note example_outline) = [''A'', ''B'']
   \<and> map heading (extractMermaidBlocks example_note
        (Some \<lparr>sections = sections (the example_outline), headings = None\<rparr>))
     = [''direct content'', ''direct content'']"
proof -
  have a: "map (\<lambda>s. spec_contextLabel (outline_headings example_outline)
                      (line (start (sec_position s))))
             (filter (mermaid_section example_note) (outline_sections example_outline))
           = [''A'', ''B'']"
    by code_simp
  have b: "map (\<lambda>s. spec_contextLabel
                      (outline_headings
                         (Some \<lparr>sections = sections (the example_outline), headings = None\<rparr>))
                      (line (start (sec_position s))))
             (filter (mermaid_section example_note)
                (outline_sections
                   (Some \<lparr>sections = sections (the example_outline), headings = None\<rparr>)))
           = [''direct content'', ''direct content'']"
    by code_simp
  show ?thesis
    using extractMermaidBlocks_headings [of example_note example_outline]
      extractMermaidBlocks_headings [of example_note
        "Some \<lparr>sections = sections (the example_outline), headings = None\<rparr>"]
      a b by simp
qed

section \<open>Properties of the file name\<close>




lemma digit_value_digit_char: "d < 10 \<Longrightarrow> digit_value (digit_char d) = d"
proof -
  assume "d < 10"
  then have "d \<in> {0,1,2,3,4,5,6,7,8,9}" by auto
  then show ?thesis by (auto simp: digit_value_def digit_char_def)
qed

lemma decimal_value_snoc: "decimal_value (s @ [c]) = 10 * decimal_value s + digit_value c"
  by (simp add: decimal_value_def)

lemma decimal_value_decimal: "decimal_value (decimal n) = n"
proof (induction n rule: decimal.induct)
  case (1 n)
  show ?case
  proof (cases "n < 10")
    case True
    then show ?thesis
      by (subst decimal.simps) (simp add: decimal_value_def digit_value_digit_char)
  next
    case False
    then have "decimal_value (decimal (n div 10)) = n div 10" using 1 by simp
    then show ?thesis using False
      by (subst decimal.simps) (simp add: decimal_value_snoc digit_value_digit_char)
  qed
qed



section \<open>Properties of the rendering\<close>

lemma querySelector_qualifying:
  "querySelector anc f = Some cand \<Longrightarrow> \<not> closest_copy_code_button cand
   \<Longrightarrow> has_qualifying_svg (list_ex (\<lambda>cs. ''copy-code-button'' \<in> set cs) anc) f"
proof (induction anc f rule: querySelector.induct)
  case (1 anc)
  then show ?case by simp
next
  case (2 anc t cs as tx ks es)
  show ?case
  proof (cases "t = ''svg'' \<and> ''copy-code-button'' \<notin> set cs")
    case True
    then have "cand = (Element t cs as tx ks, anc)" using "2.prems"(1) by simp
    then have "\<not> list_ex (\<lambda>cs. ''copy-code-button'' \<in> set cs) anc"
      using "2.prems"(2) by (simp add: closest_copy_code_button_def)
    then show ?thesis using True by simp
  next
    case False
    then have q: "querySelector anc (Element t cs as tx ks # es)
                  = (case querySelector (cs # anc) ks of
                       Some r \<Rightarrow> Some r | None \<Rightarrow> querySelector anc es)"
      by auto
    show ?thesis
    proof (cases "querySelector (cs # anc) ks")
      case None
      then have "querySelector anc es = Some cand" using q "2.prems"(1) by simp
      then have "has_qualifying_svg (list_ex (\<lambda>cs. ''copy-code-button'' \<in> set cs) anc) es"
        using "2.IH"(2) [OF False None] "2.prems"(2) by simp
      then show ?thesis by simp
    next
      case (Some r)
      then have "querySelector (cs # anc) ks = Some cand" using q "2.prems"(1) by simp
      then have "has_qualifying_svg (list_ex (\<lambda>cs. ''copy-code-button'' \<in> set cs) (cs # anc)) ks"
        using "2.IH"(1) [OF False] "2.prems"(2) by simp
      then have "has_qualifying_svg (list_ex (\<lambda>cs. ''copy-code-button'' \<in> set cs) anc
                                      \<or> ''copy-code-button'' \<in> set cs) ks"
        by (simp add: disj_commute)
      then show ?thesis by simp
    qed
  qed
qed

text \<open>One unfolding of the loop, by the outcome of the poll.\<close>

lemma poll_loop_done: "\<not> i < maxRetries \<Longrightarrow> poll_loop anc cont i w = (None, w)"
  by (subst poll_loop.simps) simp

lemma poll_loop_found:
  "i < maxRetries \<Longrightarrow> querySelector anc (cont i) = Some cand
   \<Longrightarrow> \<not> closest_copy_code_button cand
   \<Longrightarrow> poll_loop anc cont i w = (Some (fst cand), w\<lparr>polls := polls w + 1\<rparr>)"
  by (subst poll_loop.simps) (simp add: Let_def)

lemma poll_loop_retry:
  "i < maxRetries
   \<Longrightarrow> querySelector anc (cont i) = None
       \<or> (\<exists>cand. querySelector anc (cont i) = Some cand \<and> closest_copy_code_button cand)
   \<Longrightarrow> poll_loop anc cont i w
       = poll_loop anc cont (i + 1) (w\<lparr>polls := polls w + 1, clock := clock w + 50\<rparr>)"
  by (subst poll_loop.simps) (auto simp: Let_def)

lemma poll_loop_preserves:
  "poll_loop anc cont i w = (r, w')
   \<Longrightarrow> body w' = body w \<and> fresh w' = fresh w \<and> files w' = files w \<and> log w' = log w"
proof (induction "maxRetries - i" arbitrary: i w)
  case 0
  then show ?case by (simp add: poll_loop_done)
next
  case (Suc n)
  then have lt: "i < maxRetries" by simp
  show ?case
  proof (cases "querySelector anc (cont i)")
    case None
    have "poll_loop anc cont (i + 1) (w\<lparr>polls := polls w + 1, clock := clock w + 50\<rparr>) = (r, w')"
      using Suc.prems poll_loop_retry [where cont = cont and i = i, OF lt] None by simp
    then show ?thesis using Suc.hyps(1) [of "i + 1"] Suc.hyps(2) by fastforce
  next
    case (Some cand)
    show ?thesis
    proof (cases "closest_copy_code_button cand")
      case True
      have "poll_loop anc cont (i + 1) (w\<lparr>polls := polls w + 1, clock := clock w + 50\<rparr>) = (r, w')"
        using Suc.prems poll_loop_retry [where cont = cont and i = i, OF lt] Some True by simp
      then show ?thesis using Suc.hyps(1) [of "i + 1"] Suc.hyps(2) by fastforce
    next
      case False
      then show ?thesis using Suc.prems poll_loop_found [where cont = cont and i = i, OF lt Some False] by auto
    qed
  qed
qed

lemma poll_loop_bounds:
  "poll_loop anc cont i w = (r, w')
   \<Longrightarrow> polls w' \<le> polls w + (maxRetries - i) \<and> clock w' \<le> clock w + 50 * (maxRetries - i)"
proof (induction "maxRetries - i" arbitrary: i w)
  case 0
  then show ?case by (simp add: poll_loop_done)
next
  case (Suc n)
  then have lt: "i < maxRetries" by simp
  have n: "n = maxRetries - (i + 1)" using Suc.hyps(2) by simp
  have step: "poll_loop anc cont (i + 1) (w\<lparr>polls := polls w + 1, clock := clock w + 50\<rparr>) = (r, w')
              \<Longrightarrow> ?case"
  proof -
    assume "poll_loop anc cont (i + 1) (w\<lparr>polls := polls w + 1, clock := clock w + 50\<rparr>) = (r, w')"
    from Suc.hyps(1) [OF n this]
    have "polls w' \<le> polls w + 1 + (maxRetries - (i + 1))
          \<and> clock w' \<le> clock w + 50 + 50 * (maxRetries - (i + 1))"
      by simp
    moreover obtain k where k: "maxRetries - (i + 1) = k" by simp
    moreover have "maxRetries - i = Suc k" using lt k by simp
    ultimately show ?thesis by arith
  qed
  show ?case
  proof (cases "querySelector anc (cont i)")
    case None
    then show ?thesis using Suc.prems poll_loop_retry [where cont = cont and i = i, OF lt] step by simp
  next
    case (Some cand)
    show ?thesis
    proof (cases "closest_copy_code_button cand")
      case True
      then show ?thesis using Suc.prems poll_loop_retry [where cont = cont and i = i, OF lt] Some step by simp
    next
      case False
      then show ?thesis using Suc.prems poll_loop_found [where cont = cont and i = i, OF lt Some False] lt by auto
    qed
  qed
qed

lemma poll_loop_timeout:
  "\<forall>j. i \<le> j \<and> j < maxRetries \<longrightarrow>
         \<not> has_qualifying_svg (list_ex (\<lambda>cs. ''copy-code-button'' \<in> set cs) anc) (cont j)
   \<Longrightarrow> poll_loop anc cont i w
       = (None, w\<lparr>polls := polls w + (maxRetries - i), clock := clock w + 50 * (maxRetries - i)\<rparr>)"
proof (induction "maxRetries - i" arbitrary: i w)
  case 0
  then show ?case by (simp add: poll_loop_done)
next
  case (Suc n)
  then have lt: "i < maxRetries" by simp
  have n: "n = maxRetries - (i + 1)" using Suc.hyps(2) by simp
  have ar: "maxRetries - i = Suc (maxRetries - (i + 1))" using lt by simp
  have nq: "\<not> has_qualifying_svg (list_ex (\<lambda>cs. ''copy-code-button'' \<in> set cs) anc) (cont i)"
    using lt Suc.prems by simp
  have again: "querySelector anc (cont i) = None
       \<or> (\<exists>cand. querySelector anc (cont i) = Some cand \<and> closest_copy_code_button cand)"
    using querySelector_qualifying nq by (cases "querySelector anc (cont i)") auto
  have rest: "\<forall>j. i + 1 \<le> j \<and> j < maxRetries \<longrightarrow>
         \<not> has_qualifying_svg (list_ex (\<lambda>cs. ''copy-code-button'' \<in> set cs) anc) (cont j)"
    using Suc.prems by simp
  show ?case
    unfolding poll_loop_retry [where cont = cont and i = i, OF lt again] Suc.hyps(1) [OF n rest]
    by (simp add: ar)
qed

lemma remove1_snoc_fresh: "x \<notin> set xs \<Longrightarrow> remove1 x (xs @ [x]) = xs"
  by (simp add: remove1_append)

text \<open>What a call does when the promise of the renderer rejects or stays pending.\<close>

lemma render_rejects:
  "settles (markdownRender h (fresh w) (render_markup h c)) = Rejects e
   \<Longrightarrow> renderMermaidToSvg h c w
       = (Throws e,
          emit [ConsoleLog (''Mermaid Exporter: Detected font '' @ [CHR 0x27] @ rawFont h @ [CHR 0x27]),
                RenderCall (fresh w) (render_markup h c)]
            (w\<lparr>body := body w @ [fresh w], fresh := fresh w + 1\<rparr>))"
  by (simp add: renderMermaidToSvg_def Let_def emit_def)

lemma render_pending:
  "settles (markdownRender h (fresh w) (render_markup h c)) = Pending
   \<Longrightarrow> renderMermaidToSvg h c w
       = (Hangs,
          emit [ConsoleLog (''Mermaid Exporter: Detected font '' @ [CHR 0x27] @ rawFont h @ [CHR 0x27]),
                RenderCall (fresh w) (render_markup h c)]
            (w\<lparr>body := body w @ [fresh w], fresh := fresh w + 1\<rparr>))"
  by (simp add: renderMermaidToSvg_def Let_def emit_def)

text \<open>What a call does when the promise resolves, in terms of the polling loop.\<close>

lemma render_resolves:
  assumes "settles (markdownRender h (fresh w) (render_markup h c)) = Resolves"
    and "poll_loop ([] # bodyPath h) (contents (markdownRender h (fresh w) (render_markup h c))) 0
           (emit [ConsoleLog (''Mermaid Exporter: Detected font '' @ [CHR 0x27] @ rawFont h @ [CHR 0x27]),
                  RenderCall (fresh w) (render_markup h c)]
              (w\<lparr>body := body w @ [fresh w], fresh := fresh w + 1\<rparr>)) = (t, w4)"
  shows "renderMermaidToSvg h c w
       = (Returns (case t of None \<Rightarrow> None | Some el \<Rightarrow> Some (prepend el (styleEl (rawFont h)))),
          (if t = None
           then emit [ConsoleError ''Mermaid Exporter: Failed to find SVG after 10s wait.''] w4
           else w4)\<lparr>body := remove1 (fresh w) (body w4)\<rparr>)"
  using assms by (simp add: renderMermaidToSvg_def Let_def emit_def)

lemma poll_loop_result:
  obtains t w4 where "poll_loop anc cont i w = (t, w4)"
  by (cases "poll_loop anc cont i w") auto

lemma render_frame:
  "files (snd (renderMermaidToSvg h c w)) = files w
   \<and> fresh (snd (renderMermaidToSvg h c w)) = fresh w + 1
   \<and> log (snd (renderMermaidToSvg h c w))
     = log w @ [ConsoleLog (''Mermaid Exporter: Detected font '' @ [CHR 0x27] @ rawFont h @ [CHR 0x27]),
                RenderCall (fresh w) (render_markup h c)]
         @ (if fst (renderMermaidToSvg h c w) = Returns None
            then [ConsoleError ''Mermaid Exporter: Failed to find SVG after 10s wait.''] else [])
   \<and> polls (snd (renderMermaidToSvg h c w)) \<le> polls w + maxRetries
   \<and> clock (snd (renderMermaidToSvg h c w)) \<le> clock w + 50 * maxRetries"
proof (cases "settles (markdownRender h (fresh w) (render_markup h c))")
  case (Rejects e)
  show ?thesis unfolding render_rejects [OF Rejects] by (simp add: emit_def)
next
  case Pending
  show ?thesis unfolding render_pending [OF Pending] by (simp add: emit_def)
next
  case Resolves
  obtain t w4 where p:
    "poll_loop ([] # bodyPath h) (contents (markdownRender h (fresh w) (render_markup h c))) 0
           (emit [ConsoleLog (''Mermaid Exporter: Detected font '' @ [CHR 0x27] @ rawFont h @ [CHR 0x27]),
                  RenderCall (fresh w) (render_markup h c)]
              (w\<lparr>body := body w @ [fresh w], fresh := fresh w + 1\<rparr>)) = (t, w4)"
    by (rule poll_loop_result)
  note a = poll_loop_preserves [OF p]
  note b = poll_loop_bounds [OF p]
  show ?thesis unfolding render_resolves [OF Resolves p]
    using a b by (cases t) (simp_all add: emit_def)
qed

text \<open>How a call ends is decided by how the promise of the renderer settles.\<close>

lemma render_outcome:
  "(settles (markdownRender h (fresh w) (render_markup h c)) = Rejects e
      \<longrightarrow> fst (renderMermaidToSvg h c w) = Throws e)
   \<and> (settles (markdownRender h (fresh w) (render_markup h c)) = Pending
      \<longrightarrow> fst (renderMermaidToSvg h c w) = Hangs)
   \<and> (settles (markdownRender h (fresh w) (render_markup h c)) = Resolves
      \<longrightarrow> (\<exists>r. fst (renderMermaidToSvg h c w) = Returns r))"
  by (auto simp: renderMermaidToSvg_def Let_def split: prod.splits)

lemma render_ends:
  "((\<exists>r. fst (renderMermaidToSvg h c w) = Returns r)
      = (settles (markdownRender h (fresh w) (render_markup h c)) = Resolves))
   \<and> ((fst (renderMermaidToSvg h c w) = Throws e)
      = (settles (markdownRender h (fresh w) (render_markup h c)) = Rejects e))
   \<and> ((fst (renderMermaidToSvg h c w) = Hangs)
      = (settles (markdownRender h (fresh w) (render_markup h c)) = Pending))"
  using render_outcome [of h w c]
  by (cases "settles (markdownRender h (fresh w) (render_markup h c))")
     (auto simp: render_rejects render_pending)

lemma render_returns_aux:
  assumes "fresh w \<notin> set (body w)"
    and "settles (markdownRender h (fresh w) (render_markup h c)) = Resolves"
  shows "(\<exists>r. fst (renderMermaidToSvg h c w) = Returns r)
     \<and> body (snd (renderMermaidToSvg h c w)) = body w
     \<and> fresh w \<notin> set (body (snd (renderMermaidToSvg h c w)))"
proof -
  obtain t w4 where p:
    "poll_loop ([] # bodyPath h) (contents (markdownRender h (fresh w) (render_markup h c))) 0
           (emit [ConsoleLog (''Mermaid Exporter: Detected font '' @ [CHR 0x27] @ rawFont h @ [CHR 0x27]),
                  RenderCall (fresh w) (render_markup h c)]
              (w\<lparr>body := body w @ [fresh w], fresh := fresh w + 1\<rparr>)) = (t, w4)"
    by (rule poll_loop_result)
  have a: "body w4 = body w @ [fresh w]"
    using poll_loop_preserves [OF p] by (simp add: emit_def)
  show ?thesis unfolding render_resolves [OF assms(2) p]
    using a assms(1) by (simp add: emit_def remove1_snoc_fresh)
qed

lemma render_timeout_aux:
  assumes "settles (markdownRender h (fresh w) (render_markup h c)) = Resolves"
    and "\<forall>i<maxRetries. \<not> has_qualifying_svg (body_in_copy_code_button h)
            (contents (markdownRender h (fresh w) (render_markup h c)) i)"
  shows "fst (renderMermaidToSvg h c w) = Returns None
     \<and> polls (snd (renderMermaidToSvg h c w)) = polls w + maxRetries
     \<and> clock (snd (renderMermaidToSvg h c w)) = clock w + 50 * maxRetries"
proof -
  have q: "\<forall>j. 0 \<le> j \<and> j < maxRetries \<longrightarrow>
         \<not> has_qualifying_svg (list_ex (\<lambda>cs. ''copy-code-button'' \<in> set cs) ([] # bodyPath h))
             (contents (markdownRender h (fresh w) (render_markup h c)) j)"
    using assms(2) by (simp add: body_in_copy_code_button_def)
  show ?thesis
    unfolding render_resolves [OF assms(1) poll_loop_timeout [OF q]]
    by (simp add: emit_def)
qed

lemma never_shows_svg_iff:
  "never_shows_svg h cid c
   = (\<forall>i<maxRetries. \<not> has_qualifying_svg (body_in_copy_code_button h)
        (contents (markdownRender h cid (render_markup h c)) i))"
  by (auto simp: never_shows_svg_def list_all_iff)

text \<open>
  When the promise of the renderer resolves, the call returns (an element on success,
  null on timeout), and the container that it appended to the body of the document has
  been removed when it does: the children of the body are what they were before the
  call.
\<close>

theorem renderMermaidToSvg_removes_container:
  assumes "fresh w \<notin> set (body w)"
    and "settles (markdownRender h (fresh w) (render_markup h c)) = Resolves"
  shows "(\<exists>r. fst (renderMermaidToSvg h c w) = Returns r)
     \<and> body (snd (renderMermaidToSvg h c w)) = body w
     \<and> fresh w \<notin> set (body (snd (renderMermaidToSvg h c w)))"
  using assms by (rule render_returns_aux)

theorem renderMermaidToSvg_removes_container_witness:
  "fresh initial_world \<notin> set (body initial_world)
   \<and> settles (markdownRender example_host (fresh initial_world)
                 (render_markup example_host ''graph TD'')) = Resolves
   \<and> settles (markdownRender idle_host (fresh initial_world)
                 (render_markup idle_host ''graph TD'')) = Resolves
   \<and> (\<exists>r. fst (renderMermaidToSvg example_host ''graph TD'' initial_world) = Returns r)
   \<and> body (snd (renderMermaidToSvg example_host ''graph TD'' initial_world)) = body initial_world
   \<and> body (snd (renderMermaidToSvg idle_host ''graph TD'' initial_world)) = body initial_world"
proof -
  have a: "fresh initial_world \<notin> set (body initial_world)"
    by (simp add: initial_world_def)
  have b: "settles (markdownRender example_host (fresh initial_world)
                 (render_markup example_host ''graph TD'')) = Resolves"
    by (simp add: example_host_def)
  have c: "settles (markdownRender idle_host (fresh initial_world)
                 (render_markup idle_host ''graph TD'')) = Resolves"
    by (simp add: idle_host_def example_host_def)
  show ?thesis
    using renderMermaidToSvg_removes_container [OF a b]
      renderMermaidToSvg_removes_container [OF a c] a b c
    by blast
qed

text \<open>
  Claim C1. Every call of \<open>renderMermaidToSvg\<close> is to remove the container that it appended
  to the body of the document before it is left, on every exit: success, timeout, and an
  exception raised while rendering. The code removes the container on both normal exits
  and misses the exit by exception: at a renderer whose promise rejects, the call throws
  and the container that it created is still a child of the body.
\<close>

theorem renderMermaidToSvg_container_left_on_exception:
  "fst (renderMermaidToSvg rejecting_host ''graph TD'' initial_world) = Throws ''render failed''
   \<and> fresh initial_world \<notin> set (body initial_world)
   \<and> fresh initial_world
       \<in> set (body (snd (renderMermaidToSvg rejecting_host ''graph TD'' initial_world)))"
  by (simp add: renderMermaidToSvg_def rejecting_host_def example_host_def initial_world_def
      Let_def emit_def)

text \<open>
  Claim C4, as the code has it. A call makes at most 200 polls and waits at most 200
  times 50 ms between them, whatever the render engine does, and it returns exactly when
  the promise of the renderer resolves: it throws when the promise rejects and waits for
  ever when the promise stays pending. When the promise resolves and no qualifying SVG
  element (one that is not a copy-code-button artifact) is in the container at any of
  the polls, the call returns null after exactly 200 polls and 10000 ms of waiting.
\<close>

theorem renderMermaidToSvg_timeout:
  "polls (snd (renderMermaidToSvg h c w)) \<le> polls w + 200
   \<and> clock (snd (renderMermaidToSvg h c w)) \<le> clock w + 10000
   \<and> ((\<exists>r. fst (renderMermaidToSvg h c w) = Returns r)
        = (settles (markdownRender h (fresh w) (render_markup h c)) = Resolves))
   \<and> ((fst (renderMermaidToSvg h c w) = Throws e)
        = (settles (markdownRender h (fresh w) (render_markup h c)) = Rejects e))
   \<and> ((fst (renderMermaidToSvg h c w) = Hangs)
        = (settles (markdownRender h (fresh w) (render_markup h c)) = Pending))
   \<and> (settles (markdownRender h (fresh w) (render_markup h c)) = Resolves
        \<and> (\<forall>i<200. \<not> has_qualifying_svg (body_in_copy_code_button h)
                       (contents (markdownRender h (fresh w) (render_markup h c)) i))
      \<longrightarrow> fst (renderMermaidToSvg h c w) = Returns None
          \<and> polls (snd (renderMermaidToSvg h c w)) = polls w + 200
          \<and> clock (snd (renderMermaidToSvg h c w)) = clock w + 200 * 50)"
  using render_frame [of h c w] render_timeout_aux [of h w c] render_ends [of h c w e]
  by (simp add: maxRetries_def)

theorem renderMermaidToSvg_timeout_witness:
  "settles (markdownRender idle_host (fresh initial_world) (render_markup idle_host ''graph TD''))
     = Resolves
   \<and> never_shows_svg idle_host (fresh initial_world) ''graph TD''
   \<and> fst (renderMermaidToSvg idle_host ''graph TD'' initial_world) = Returns None
   \<and> polls (snd (renderMermaidToSvg idle_host ''graph TD'' initial_world)) = 200
   \<and> clock (snd (renderMermaidToSvg idle_host ''graph TD'' initial_world)) = 10000"
proof -
  have a: "settles (markdownRender idle_host (fresh initial_world)
                      (render_markup idle_host ''graph TD'')) = Resolves"
    by (simp add: idle_host_def example_host_def)
  have n: "never_shows_svg idle_host (fresh initial_world) ''graph TD''"
    unfolding never_shows_svg_iff
    by (simp add: idle_host_def example_host_def body_in_copy_code_button_def)
  then have b: "\<forall>i<200. \<not> has_qualifying_svg (body_in_copy_code_button idle_host)
                  (contents (markdownRender idle_host (fresh initial_world)
                               (render_markup idle_host ''graph TD'')) i)"
    unfolding never_shows_svg_iff by (simp add: maxRetries_def)
  have c: "polls initial_world = 0 \<and> clock initial_world = 0"
    by (simp add: initial_world_def)
  show ?thesis
    using renderMermaidToSvg_timeout [of idle_host "''graph TD''" initial_world] a b c n
    by simp
qed

text \<open>
  Claim C4 as stated fails: no qualifying SVG element ever appears in the container of
  a renderer whose promise rejects, or of one whose promise never settles, and the call
  does not return null there: it throws in the first case and never returns in the
  second.
\<close>

theorem renderMermaidToSvg_no_svg_no_null:
  "never_shows_svg rejecting_host (fresh initial_world) ''graph TD''
   \<and> fst (renderMermaidToSvg rejecting_host ''graph TD'' initial_world) = Throws ''render failed''
   \<and> never_shows_svg pending_host (fresh initial_world) ''graph TD''
   \<and> fst (renderMermaidToSvg pending_host ''graph TD'' initial_world) = Hangs"
proof -
  have a: "never_shows_svg rejecting_host (fresh initial_world) ''graph TD''"
    unfolding never_shows_svg_iff by (simp add: rejecting_host_def example_host_def)
  have b: "never_shows_svg pending_host (fresh initial_world) ''graph TD''"
    unfolding never_shows_svg_iff by (simp add: pending_host_def example_host_def)
  have c: "fst (renderMermaidToSvg rejecting_host ''graph TD'' initial_world)
           = Throws ''render failed''"
    by (simp add: render_rejects rejecting_host_def example_host_def)
  have d: "fst (renderMermaidToSvg pending_host ''graph TD'' initial_world) = Hangs"
    by (simp add: render_pending pending_host_def example_host_def)
  from a b c d show ?thesis by blast
qed

section \<open>Properties of the export of one image\<close>

lemma render_calls_append: "render_calls (a @ b) = render_calls a @ render_calls b"
  by (induction a rule: render_calls.induct) simp_all

lemma written_paths_append: "written_paths (a @ b) = written_paths a @ written_paths b"
  by (induction a rule: written_paths.induct) simp_all

lemma save_dialogs_append: "save_dialogs (a @ b) = save_dialogs a @ save_dialogs b"
  by (induction a rule: save_dialogs.induct) simp_all

lemma directory_dialogs_append: "directory_dialogs (a @ b) = directory_dialogs a + directory_dialogs b"
  by (induction a rule: directory_dialogs.induct) simp_all

lemma notices_append: "notices (a @ b) = notices a @ notices b"
  by (induction a rule: notices.induct) simp_all

lemma export_failures_append: "export_failures (a @ b) = export_failures a @ export_failures b"
  by (induction a rule: export_failures.induct) simp_all

text \<open>The write and the attempt to open, in one equation for each way it can go.\<close>

lemma write_and_open_writes:
  "finalPath \<noteq> [] \<Longrightarrow> writeFileFails h finalPath = None
   \<Longrightarrow> write_and_open h st finalPath buffer skipOpen w
       = (None, emit ([WriteFile finalPath]
                      @ (if autoOpen st \<and> \<not> skipOpen
                         then OpenPath finalPath
                              # (if openPathFails h finalPath = None then []
                                 else [ConsoleError ''Failed to auto-open file:''])
                         else []))
                  (w\<lparr>files := (files w)(finalPath \<mapsto> buffer)\<rparr>))"
  by (auto simp: write_and_open_def emit_def Let_def split: option.splits)

lemma write_and_open_frame:
  "write_and_open h st finalPath buffer skipOpen w = (x, w')
   \<Longrightarrow> body w' = body w \<and> fresh w' = fresh w \<and> clock w' = clock w \<and> polls w' = polls w
       \<and> (\<exists>evs. log w' = log w @ evs \<and> render_calls evs = [] \<and> save_dialogs evs = []
              \<and> directory_dialogs evs = 0 \<and> notices evs = [] \<and> export_failures evs = []
              \<and> (written_paths evs = [] \<or> written_paths evs = [finalPath]))"
  by (auto simp: write_and_open_def emit_def Let_def split: option.splits if_splits)

text \<open>A call with a target directory, by the outcome of the conversion.\<close>

lemma save_with_directory:
  assumes "d \<noteq> []"
  shows "saveSvgAsImage h st el baseName index hdg (Some d) skipOpen w =
     (case make_buffer h st el (svg_data h st el) of
        Inl e \<Rightarrow> emit [Notice (''Save failed: '' @ e), ConsoleError e] w
      | Inr None \<Rightarrow> emit [Notice ''Failed to create image buffer.''] w
      | Inr (Some buffer) \<Rightarrow>
          if files w (pathJoin h d (defaultFileName baseName hdg index (format st))) \<noteq> None
             \<and> \<not> overwrite st
          then (if skipOpen then w
                else emit [Notice (''File already exists, skipping: ''
                                   @ defaultFileName baseName hdg index (format st))] w)
          else (case write_and_open h st (pathJoin h d (defaultFileName baseName hdg index (format st)))
                       buffer skipOpen w of
                  (None, w') \<Rightarrow> w'
                | (Some e, w') \<Rightarrow> emit [Notice (''Save failed: '' @ e), ConsoleError e] w'))"
  using assms
  by (simp add: saveSvgAsImage_def save_try_def Let_def split: sum.splits option.splits)

lemma save_skips_existing_aux:
  assumes "\<not> overwrite st" and "d \<noteq> []"
    and "files w (pathJoin h d (defaultFileName baseName hdg index (format st))) = Some old"
  shows "files (saveSvgAsImage h st el baseName index hdg (Some d) skipOpen w) = files w
     \<and> written_paths (log (saveSvgAsImage h st el baseName index hdg (Some d) skipOpen w))
       = written_paths (log w)
     \<and> (make_buffer h st el (svg_data h st el) = Inr (Some buffer)
        \<longrightarrow> log (saveSvgAsImage h st el baseName index hdg (Some d) skipOpen w)
            = log w @ (if skipOpen then []
                       else [Notice (''File already exists, skipping: ''
                                     @ defaultFileName baseName hdg index (format st))]))"
  unfolding save_with_directory [OF assms(2)] using assms(1,3)
  by (simp add: emit_def written_paths_append split: sum.splits option.splits)

lemma canvas_size_floor:
  assumes "dimensions h el = (Some wd, Some ht)"
    and "pw = double_round (wd * of_nat (imageScale st))"
    and "ph = double_round (ht * of_nat (imageScale st))"
    and "0 \<le> pw" and "pw < 2 ^ 31" and "0 \<le> ph" and "ph < 2 ^ 31"
  shows "canvas_size h st el = (nat \<lfloor>pw\<rfloor>, nat \<lfloor>ph\<rfloor>)"
  using assms by (simp add: canvas_size_def times_scale_def toCanvasSize_def Let_def)

lemma example_make_buffer:
  "format st = png \<Longrightarrow> make_buffer example_host st el d = Inr (Some ''PNG'')"
  by (simp add: make_buffer_def example_host_def split: prod.splits)

lemma example_existing_file:
  "files exported_world (pathJoin example_host ''/out'' (defaultFileName ''Notes'' ''A'' 0 png))
   = Some ''old A''"
  by (simp add: exported_world_def initial_world_def example_host_def defaultFileName_def
      decimal.simps digit_char_def reserved_chars_def)

text \<open>
  Claim C6, as the code has it. With overwrite off and a target directory in which the
  computed path exists, \<open>saveSvgAsImage\<close> writes nothing: the file system is unchanged.
  When the image buffer was made, the only effect is the notice
  \<open>File already exists, skipping: name\<close>, and that notice is shown only when \<open>skipOpen\<close> is
  false, which is the single-item export; in a batch export (\<open>skipOpen\<close> true) the skip is
  silent.
\<close>

theorem saveSvgAsImage_skips_existing:
  assumes "\<not> overwrite st" and "d \<noteq> []"
    and "files w (pathJoin h d (defaultFileName baseName hdg index (format st))) = Some old"
  shows "files (saveSvgAsImage h st el baseName index hdg (Some d) skipOpen w) = files w
     \<and> written_paths (log (saveSvgAsImage h st el baseName index hdg (Some d) skipOpen w))
       = written_paths (log w)
     \<and> (make_buffer h st el (svg_data h st el) = Inr (Some buffer)
        \<longrightarrow> log (saveSvgAsImage h st el baseName index hdg (Some d) skipOpen w)
            = log w @ (if skipOpen then []
                       else [Notice (''File already exists, skipping: ''
                                     @ defaultFileName baseName hdg index (format st))]))"
  using assms by (rule save_skips_existing_aux)

theorem saveSvgAsImage_skips_existing_witness:
  "files (saveSvgAsImage example_host (DEFAULT_SETTINGS\<lparr>overwrite := False\<rparr>) example_svg
            ''Notes'' 0 ''A'' (Some ''/out'') False exported_world) = files exported_world
   \<and> log (saveSvgAsImage example_host (DEFAULT_SETTINGS\<lparr>overwrite := False\<rparr>) example_svg
            ''Notes'' 0 ''A'' (Some ''/out'') False exported_world)
     = [Notice ''File already exists, skipping: Notes-A-1.png'']"
proof -
  have a: "\<not> overwrite (DEFAULT_SETTINGS\<lparr>overwrite := False\<rparr>)" by simp
  have b: "''/out'' \<noteq> []" by simp
  have f: "format (DEFAULT_SETTINGS\<lparr>overwrite := False\<rparr>) = png"
    by (simp add: DEFAULT_SETTINGS_def)
  have c: "files exported_world
             (pathJoin example_host ''/out''
                (defaultFileName ''Notes'' ''A'' 0 (format (DEFAULT_SETTINGS\<lparr>overwrite := False\<rparr>))))
           = Some ''old A''"
    unfolding f by (rule example_existing_file)
  have n: "defaultFileName ''Notes'' ''A'' 0 png = ''Notes-A-1.png''"
    by (simp add: defaultFileName_def decimal.simps digit_char_def reserved_chars_def)
  have l: "log exported_world = []" by (simp add: exported_world_def initial_world_def)
  show ?thesis
    using saveSvgAsImage_skips_existing [OF a b c, where el = example_svg and buffer = "''PNG''"
        and skipOpen = False]
      example_make_buffer [OF f] f n l
    by simp
qed

text \<open>
  Claim C6 as stated fails for a batch export: with two blocks selected, overwrite off and
  both target files in place, the handler reports no notice at all.
\<close>

theorem batch_skip_is_silent:
  "\<not> overwrite (DEFAULT_SETTINGS\<lparr>overwrite := False\<rparr>)
   \<and> files exported_world (pathJoin example_host ''/out'' (defaultFileName ''Notes'' ''A'' 0 png))
     = Some ''old A''
   \<and> log (saveSvgAsImage example_host (DEFAULT_SETTINGS\<lparr>overwrite := False\<rparr>) example_svg
            ''Notes'' 0 ''A'' (Some ''/out'') True exported_world) = []
   \<and> notices (log (exportBtn_onclick example_host (DEFAULT_SETTINGS\<lparr>overwrite := False\<rparr>)
                      (example_modal [True, True]) exported_world)) = []"
proof -
  have a: "\<not> overwrite (DEFAULT_SETTINGS\<lparr>overwrite := False\<rparr>)" by simp
  have b: "''/out'' \<noteq> []" by simp
  have f: "format (DEFAULT_SETTINGS\<lparr>overwrite := False\<rparr>) = png"
    by (simp add: DEFAULT_SETTINGS_def)
  have l: "log exported_world = []" by (simp add: exported_world_def initial_world_def)
  have s: "log (saveSvgAsImage example_host (DEFAULT_SETTINGS\<lparr>overwrite := False\<rparr>) example_svg
            ''Notes'' 0 ''A'' (Some ''/out'') True exported_world) = []"
    unfolding save_with_directory [OF b]
    using a example_existing_file
    by (simp add: example_make_buffer [OF f] f l)
  have n: "notices (log (exportBtn_onclick example_host (DEFAULT_SETTINGS\<lparr>overwrite := False\<rparr>)
                      (example_modal [True, True]) exported_world)) = []"
    by code_simp
  show ?thesis using a example_existing_file s n by simp
qed

text \<open>
  The arithmetic of doubles: \<open>double_round\<close> gives a double nearest to its argument, the
  one with the even significand when two are equally near.
\<close>

lemma two_to_powi: "two_to e = 2 powi e"
  by (simp add: two_to_def power_int_def field_simps)

lemma bit_length_bounds: "0 < n \<Longrightarrow> 2 ^ (bit_length n - 1) \<le> n \<and> n < 2 ^ bit_length n"
proof (induction n rule: bit_length.induct)
  case (1 n)
  show ?case
  proof (cases "n = 1")
    case True
    then show ?thesis by (simp add: bit_length.simps [of 1] bit_length.simps [of 0])
  next
    case False
    then have h: "0 < n div 2" using 1(2) by simp
    have ih: "2 ^ (bit_length (n div 2) - 1) \<le> n div 2 \<and> n div 2 < 2 ^ bit_length (n div 2)"
      using 1(1) 1(2) h by simp
    have pos: "0 < bit_length (n div 2)" using h by (simp add: bit_length.simps [of "n div 2"])
    have bl: "bit_length n = Suc (bit_length (n div 2))" using 1(2) by (simp add: bit_length.simps [of n])
    have a: "2 * 2 ^ (bit_length (n div 2) - 1) \<le> n" using ih by linarith
    have "(2::int) * 2 ^ (bit_length (n div 2) - 1) = 2 ^ bit_length (n div 2)"
      using pos by (cases "bit_length (n div 2)") simp_all
    then have a': "(2::int) ^ bit_length (n div 2) \<le> n" using a by simp
    have b: "n < 2 * 2 ^ bit_length (n div 2)" using ih by linarith
    show ?thesis unfolding bl using a' b by simp
  qed
qed


lemma round_half_even_near:
  "\<bar>of_int (round_half_even y) - y\<bar> \<le> 1 / 2
   \<and> (\<bar>of_int (round_half_even y) - y\<bar> = 1 / 2 \<longrightarrow> even (round_half_even y))"
proof -
  define f where "f = \<lfloor>y\<rfloor>"
  define r where "r = y - of_int f"
  have r0: "0 \<le> r" and r1: "r < 1" unfolding r_def f_def by linarith+
  have y: "y = of_int f + r" unfolding r_def by simp
  consider (lo) "r < 1 / 2" | (hi) "1 / 2 < r" | (tie) "r = 1 / 2" by linarith
  then show ?thesis
  proof cases
    case lo
    then have v: "round_half_even y = f"
      unfolding round_half_even_def Let_def f_def [symmetric] r_def [symmetric] by simp
    show ?thesis unfolding v using lo r0 by (simp add: y)
  next
    case hi
    then have v: "round_half_even y = f + 1"
      unfolding round_half_even_def Let_def f_def [symmetric] r_def [symmetric] by simp
    show ?thesis unfolding v using hi r1 by (simp add: y)
  next
    case tie
    then have v: "round_half_even y = (if f mod 2 = 0 then f else f + 1)"
      unfolding round_half_even_def Let_def f_def [symmetric] r_def [symmetric] by simp
    have e: "even (if f mod 2 = 0 then f else f + 1)"
      by (simp add: even_iff_mod_2_eq_zero) presburger
    show ?thesis unfolding v using tie e by (simp add: y)
  qed
qed


lemma bit_length_double: "0 < n \<Longrightarrow> 2 ^ bit_length n \<le> 2 * n \<and> n < 2 ^ bit_length n"
proof -
  assume n: "0 < n"
  note b = bit_length_bounds [OF n]
  have "bit_length n \<noteq> 0" using b n by (cases "bit_length n") auto
  then obtain k where k: "bit_length n = Suc k" by (cases "bit_length n") auto
  show ?thesis using b unfolding k by simp
qed

lemma binary_exponent_bounds:
  assumes "0 < a"
  shows "2 powi binary_exponent a \<le> a \<and> a < 2 powi (binary_exponent a + 1)"
proof -
  obtain p q where pq: "quotient_of a = (p, q)" by force
  have q: "0 < q" using quotient_of_denom_pos [OF pq] .
  have a: "a = of_int p / of_int q" using quotient_of_div [OF pq] .
  have p: "0 < p" using assms q unfolding a by (simp add: zero_less_divide_iff)
  define P :: int where "P = 2 ^ bit_length p"
  define Q :: int where "Q = 2 ^ bit_length q"
  define d where "d = int (bit_length p) - int (bit_length q)"
  have P: "P \<le> 2 * p" "p < P" using bit_length_double [OF p] unfolding P_def by simp_all
  have Q: "Q \<le> 2 * q" "q < Q" using bit_length_double [OF q] unfolding Q_def by simp_all
  have P0: "0 < P" and Q0: "0 < Q" unfolding P_def Q_def by simp_all
  have "p * Q < P * Q" using P(2) Q0 by simp
  also have "P * Q \<le> P * (2 * q)" using Q(1) P0 by simp
  finally have I1: "p * Q < 2 * P * q" by simp
  have "P * q \<le> 2 * p * q" using P(1) q by simp
  also have "2 * p * q < 2 * p * Q" using Q(2) p by simp
  finally have I2: "P * q < 2 * Q * p" by (simp add: mult.commute mult.left_commute)
  have pd: "(2 :: rat) powi d = of_int P / of_int Q"
    unfolding d_def P_def Q_def by (simp add: power_int_diff)
  have pd1: "(2 :: rat) powi (d + 1) = 2 * of_int P / of_int Q"
    by (simp add: power_int_add pd)
  have pd2: "(2 :: rat) powi (d - 1) = of_int P / (2 * of_int Q)"
    by (simp add: power_int_diff pd)
  have "of_int (p * Q) < (of_int (2 * P * q) :: rat)" using I1 by (simp only: of_int_less_iff)
  then have U: "a < 2 powi (d + 1)"
    unfolding pd1 a using q Q0 by (simp add: field_simps)
  have "of_int (P * q) < (of_int (2 * Q * p) :: rat)" using I2 by (simp only: of_int_less_iff)
  then have L: "2 powi (d - 1) < a"
    unfolding pd2 a using q Q0 by (simp add: field_simps)
  have be: "binary_exponent a = (if 2 powi d \<le> a then d else d - 1)"
    unfolding binary_exponent_def pq Let_def d_def two_to_powi by simp
  show ?thesis
  proof (cases "2 powi d \<le> a")
    case True
    then show ?thesis unfolding be using U by simp
  next
    case False
    then show ?thesis unfolding be using L by simp
  qed
qed

lemma double_round_nearest:
  assumes "x \<noteq> 0"
  shows "\<exists>e n. 2 powi e \<le> \<bar>x\<bar> \<and> \<bar>x\<bar> < 2 powi (e + 1)
           \<and> double_round x = of_int n * 2 powi (max e (- 1022) - 52)
           \<and> 2 * \<bar>double_round x - x\<bar> \<le> 2 powi (max e (- 1022) - 52)
           \<and> (2 * \<bar>double_round x - x\<bar> = 2 powi (max e (- 1022) - 52) \<longrightarrow> even n)"
proof -
  define a where "a = \<bar>x\<bar>"
  define e where "e = binary_exponent a"
  define u :: rat where "u = 2 powi (max e (- 1022) - 52)"
  define m where "m = round_half_even (a / u)"
  define s :: int where "s = (if x < 0 then - 1 else 1)"
  have a0: "0 < a" using assms unfolding a_def by simp
  have u0: "0 < u" unfolding u_def by simp
  note b = binary_exponent_bounds [OF a0]
  note r = round_half_even_near [of "a / u"]
  have sx: "sgn x = of_int s" using assms unfolding s_def by (simp add: sgn_if)
  have xa: "x = of_int s * a" unfolding s_def a_def by simp
  have dr: "double_round x = of_int (s * m) * u"
    using assms unfolding double_round_def Let_def a_def [symmetric] e_def [symmetric]
      two_to_powi u_def [symmetric] m_def [symmetric] sx
    by simp
  have "double_round x - x = of_int s * (of_int m * u - a)"
    unfolding dr using xa by (simp add: algebra_simps)
  then have "\<bar>double_round x - x\<bar> = \<bar>of_int s * (of_int m * u - a)\<bar>"
    by simp
  also have "\<dots> = \<bar>of_int m * u - a\<bar>" unfolding s_def by (simp add: abs_mult)
  also have "\<dots> = \<bar>(of_int m - a / u) * u\<bar>"
  proof -
    have "of_int m * u - a = (of_int m - a / u) * u" using u0 by (simp add: field_simps)
    then show ?thesis by simp
  qed
  also have "\<dots> = \<bar>of_int m - a / u\<bar> * u" using u0 by (simp add: abs_mult)
  finally have d: "\<bar>double_round x - x\<bar> = \<bar>of_int m - a / u\<bar> * u" .
  have le: "2 * \<bar>double_round x - x\<bar> \<le> u"
  proof -
    have "\<bar>of_int m - a / u\<bar> * u \<le> 1 / 2 * u"
      using r u0 unfolding m_def [symmetric] by (intro mult_right_mono) simp_all
    then show ?thesis unfolding d by simp
  qed
  have ev: "2 * \<bar>double_round x - x\<bar> = u \<longrightarrow> even (s * m)"
  proof
    assume "2 * \<bar>double_round x - x\<bar> = u"
    then have "2 * \<bar>of_int m - a / u\<bar> * u = 1 * u" unfolding d by simp
    then have "2 * \<bar>of_int m - a / u\<bar> = 1" using u0 by simp
    then have "\<bar>of_int m - a / u\<bar> = 1 / 2" by simp
    then have "even m" using r unfolding m_def [symmetric] by simp
    then show "even (s * m)" by simp
  qed
  show ?thesis
    using b dr le ev unfolding e_def [symmetric] a_def [symmetric] u_def [symmetric]
    by (intro exI [where x = e] exI [where x = "s * m"]) (simp add: a_def u_def)
qed

lemma round_floor: "round (x :: rat) = (if frac x < 1 / 2 then \<lfloor>x\<rfloor> else \<lfloor>x\<rfloor> + 1)"
proof -
  have h: "frac (1 / 2 :: rat) = 1 / 2" by (simp add: frac_def floor_unique)
  have z: "\<lfloor>1 / 2 :: rat\<rfloor> = 0" by (simp add: floor_unique)
  show ?thesis unfolding round_def floor_add h z by auto
qed

lemma floor_eq_round: "0 \<le> x \<Longrightarrow> (nat \<lfloor>x\<rfloor> = nat (round (x :: rat))) = (frac x < 1 / 2)"
proof -
  assume "0 \<le> x"
  then have "0 \<le> \<lfloor>x\<rfloor>" by simp
  then have "nat \<lfloor>x\<rfloor> \<noteq> nat (\<lfloor>x\<rfloor> + 1)" by arith
  then show ?thesis unfolding round_floor by simp
qed

text \<open>
  Claim C7, as the code has it. The code assigns the unrounded products \<open>width * scale\<close>
  and \<open>height * scale\<close>, computed in doubles, to the canvas, which drops the fraction: for
  products that are not negative and below \<open>2^31\<close>, the drawing surface is
  \<open>floor (width * scale)\<close> by \<open>floor (height * scale)\<close>, and the image is rasterised on a
  surface of that size. That is \<open>round (width * scale)\<close> by \<open>round (height * scale)\<close>
  exactly when the fraction of each product is below one half, as it is when the
  products are integers. A product in doubles is the exact product rounded to 53
  significant bits (to a multiple of \<open>2^-1074\<close> below \<open>2^-1022\<close>), to the nearest such
  number and to the even one of two that are equally near.
\<close>

theorem canvas_size_truncates:
  assumes "dimensions h el = (Some wd, Some ht)"
    and "pw = double_round (wd * of_nat (imageScale st))"
    and "ph = double_round (ht * of_nat (imageScale st))"
    and "0 \<le> pw" and "pw < 2 ^ 31" and "0 \<le> ph" and "ph < 2 ^ 31"
  shows "canvas_size h st el = (nat \<lfloor>pw\<rfloor>, nat \<lfloor>ph\<rfloor>)
     \<and> ((canvas_size h st el = (nat (round pw), nat (round ph)))
        = (frac pw < 1 / 2 \<and> frac ph < 1 / 2))
     \<and> (pw \<in> \<int> \<and> ph \<in> \<int> \<longrightarrow> canvas_size h st el = (nat (round pw), nat (round ph)))
     \<and> (format st = png
        \<longrightarrow> make_buffer h st el d
            = (if getContext2d h (nat \<lfloor>pw\<rfloor>) (nat \<lfloor>ph\<rfloor>)
               then (case rasterize h d (nat \<lfloor>pw\<rfloor>) (nat \<lfloor>ph\<rfloor>) of
                       Inl e \<Rightarrow> Inl e
                     | Inr b \<Rightarrow> Inr (Some b))
               else Inr None))
     \<and> double_round 0 = 0
     \<and> (\<forall>x. x \<noteq> 0
          \<longrightarrow> (\<exists>e n. 2 powi e \<le> \<bar>x\<bar> \<and> \<bar>x\<bar> < 2 powi (e + 1)
                 \<and> double_round x = of_int n * 2 powi (max e (- 1022) - 52)
                 \<and> 2 * \<bar>double_round x - x\<bar> \<le> 2 powi (max e (- 1022) - 52)
                 \<and> (2 * \<bar>double_round x - x\<bar> = 2 powi (max e (- 1022) - 52)
                    \<longrightarrow> even n)))"
proof -
  note c = canvas_size_floor [OF assms]
  have z: "double_round 0 = 0" by (simp add: double_round_def)
  have n: "\<forall>x. x \<noteq> 0
          \<longrightarrow> (\<exists>e n. 2 powi e \<le> \<bar>x\<bar> \<and> \<bar>x\<bar> < 2 powi (e + 1)
                 \<and> double_round x = of_int n * 2 powi (max e (- 1022) - 52)
                 \<and> 2 * \<bar>double_round x - x\<bar> \<le> 2 powi (max e (- 1022) - 52)
                 \<and> (2 * \<bar>double_round x - x\<bar> = 2 powi (max e (- 1022) - 52)
                    \<longrightarrow> even n))"
    using double_round_nearest by blast
  have i: "pw \<in> \<int> \<Longrightarrow> frac pw < 1 / 2" and j: "ph \<in> \<int> \<Longrightarrow> frac ph < 1 / 2"
    by (simp_all add: frac_eq_0_iff [THEN iffD2])
  have e: "(canvas_size h st el = (nat (round pw), nat (round ph)))
           = (frac pw < 1 / 2 \<and> frac ph < 1 / 2)"
    unfolding c using floor_eq_round [OF assms(4)] floor_eq_round [OF assms(6)] by simp
  have m: "format st = png \<Longrightarrow> make_buffer h st el d
            = (if getContext2d h (nat \<lfloor>pw\<rfloor>) (nat \<lfloor>ph\<rfloor>)
               then (case rasterize h d (nat \<lfloor>pw\<rfloor>) (nat \<lfloor>ph\<rfloor>) of
                       Inl e \<Rightarrow> Inl e
                     | Inr b \<Rightarrow> Inr (Some b))
               else Inr None)"
    by (simp add: make_buffer_def c)
  have t: "canvas_size h st el = (nat \<lfloor>pw\<rfloor>, nat \<lfloor>ph\<rfloor>)
     \<and> ((canvas_size h st el = (nat (round pw), nat (round ph)))
        = (frac pw < 1 / 2 \<and> frac ph < 1 / 2))
     \<and> (pw \<in> \<int> \<and> ph \<in> \<int> \<longrightarrow> canvas_size h st el = (nat (round pw), nat (round ph)))"
    using c e i j by blast
  from t m z n show ?thesis by blast
qed

text \<open>
  The witness is a vector whose width is the double nearest to 100.3, at scale 10: the
  product in doubles is exactly 1003.
\<close>

theorem canvas_size_truncates_witness:
  "double_round (7057985041019699 / 70368744177664 * of_nat 10) = 1003
   \<and> canvas_size (example_host\<lparr>viewBoxBaseVal := (\<lambda>e. (7057985041019699 / 70368744177664, 80))\<rparr>)
      (DEFAULT_SETTINGS\<lparr>imageScale := 10\<rparr>) example_svg = (1003, 800)
   \<and> nat (round (1003 :: rat)) = 1003 \<and> nat (round (800 :: rat)) = 800
   \<and> make_buffer (example_host\<lparr>viewBoxBaseVal := (\<lambda>e. (7057985041019699 / 70368744177664, 80))\<rparr>)
        (DEFAULT_SETTINGS\<lparr>imageScale := 10\<rparr>) example_svg ''<svg/>'' = Inr (Some ''PNG'')"
proof -
  let ?h = "example_host\<lparr>viewBoxBaseVal := (\<lambda>e. (7057985041019699 / 70368744177664, 80))\<rparr>"
  let ?st = "DEFAULT_SETTINGS\<lparr>imageScale := 10\<rparr>"
  have d: "dimensions ?h example_svg = (Some (7057985041019699 / 70368744177664), Some 80)"
    by (simp add: dimensions_def example_host_def)
  have pw0: "double_round (7057985041019699 / 70368744177664 * of_nat 10) = 1003"
    by code_simp
  have ph0: "double_round (80 * of_nat 10) = 800"
    by code_simp
  have pw: "(1003 :: rat) = double_round (7057985041019699 / 70368744177664 * of_nat (imageScale ?st))"
    using pw0 by simp
  have ph: "(800 :: rat) = double_round (80 * of_nat (imageScale ?st))"
    using ph0 by simp
  have f: "format ?st = png"
    by (simp add: DEFAULT_SETTINGS_def)
  have i: "(1003 :: rat) \<in> \<int> \<and> (800 :: rat) \<in> \<int>"
    by simp
  have g: "getContext2d ?h 1003 800 \<and> rasterize ?h ''<svg/>'' 1003 800 = Inr ''PNG''"
    by (simp add: example_host_def)
  have p1: "(0 :: rat) \<le> 1003" and p2: "(1003 :: rat) < 2 ^ 31"
    and p3: "(0 :: rat) \<le> 800" and p4: "(800 :: rat) < 2 ^ 31"
    by simp_all
  have n: "nat \<lfloor>1003 :: rat\<rfloor> = 1003 \<and> nat \<lfloor>800 :: rat\<rfloor> = 800
           \<and> nat (round (1003 :: rat)) = 1003 \<and> nat (round (800 :: rat)) = 800"
    by simp
  show ?thesis
    using canvas_size_truncates [OF d pw ph p1 p2 p3 p4, where d = "''<svg/>''"] pw0 f n i g
    by simp
qed

text \<open>
  Claim C7 as stated fails for a width that is not integral: a vector of 100.75 by 50 at
  scale 1 is drawn on a surface 100 wide, and 100.75 rounds to 101. The product is exact
  in doubles.
\<close>

theorem canvas_size_not_rounded:
  "dimensions example_host example_svg = (Some (403 / 4), Some 50)
   \<and> canvas_size example_host (DEFAULT_SETTINGS\<lparr>imageScale := 1\<rparr>) example_svg = (100, 50)
   \<and> round (403 / 4 * 1 :: rat) = 101
   \<and> double_round (403 / 4 * 1) = 403 / 4"
proof -
  have d: "dimensions example_host example_svg = (Some (403 / 4), Some 50)"
    by (simp add: dimensions_def example_host_def)
  have p: "double_round (403 / 4 * of_nat 1) = 403 / 4 \<and> double_round (50 * of_nat 1) = 50
           \<and> double_round (403 / 4 * 1) = 403 / 4"
    by code_simp
  have f: "nat \<lfloor>403 / 4 :: rat\<rfloor> = 100 \<and> nat \<lfloor>50 :: rat\<rfloor> = 50
           \<and> round (403 / 4 * 1 :: rat) = 101"
    by code_simp
  have c: "canvas_size example_host (DEFAULT_SETTINGS\<lparr>imageScale := 1\<rparr>) example_svg = (100, 50)"
    by code_simp
  from d c f p show ?thesis by blast
qed

section \<open>Properties of the export driver\<close>

lemma selectedIndices_aux:
  "map nat (filter (\<lambda>idx. idx \<noteq> - 1)
      (map (\<lambda>(val, idx). if val then int idx else - 1) (zip sel [n..<n + length sel])))
   = map (\<lambda>i. n + i) (filter (\<lambda>i. sel ! i) [0..<length sel])"
proof (induction sel arbitrary: n)
  case Nil
  then show ?case by simp
next
  case (Cons b sel)
  have u: "[n..<n + length (b # sel)] = n # [Suc n..<Suc n + length sel]"
    by (subst upt_rec) simp
  have v: "[0..<length (b # sel)] = 0 # map Suc [0..<length sel]"
    by (simp del: upt_Suc add: upt_conv_Cons map_Suc_upt)
  show ?case
    unfolding u v using Cons.IH [of "Suc n"]
    by (simp add: filter_map comp_def)
qed

lemma selectedIndices_filter:
  "selectedIndices sel = filter (\<lambda>i. sel ! i) [0..<length sel]"
  using selectedIndices_aux [of sel 0] by (simp add: selectedIndices_def)

lemma selectedIndices_bound: "k \<in> set (selectedIndices sel) \<Longrightarrow> k < length sel \<and> sel ! k"
  by (simp add: selectedIndices_filter)


text \<open>Save: what it leaves alone.\<close>

lemma save_frame:
  "body (saveSvgAsImage h st el baseName index hdg td skipOpen w) = body w
   \<and> fresh (saveSvgAsImage h st el baseName index hdg td skipOpen w) = fresh w
   \<and> render_calls (log (saveSvgAsImage h st el baseName index hdg td skipOpen w))
       = render_calls (log w)
   \<and> directory_dialogs (log (saveSvgAsImage h st el baseName index hdg td skipOpen w))
       = directory_dialogs (log w)
   \<and> export_failures (log (saveSvgAsImage h st el baseName index hdg td skipOpen w))
       = export_failures (log w)
   \<and> set (log w) \<subseteq> set (log (saveSvgAsImage h st el baseName index hdg td skipOpen w))"
proof -
  obtain x w' where s: "save_try h st el baseName index hdg td skipOpen w = (x, w')"
    by (cases "save_try h st el baseName index hdg td skipOpen w") auto
  have "body w' = body w \<and> fresh w' = fresh w
        \<and> render_calls (log w') = render_calls (log w)
        \<and> directory_dialogs (log w') = directory_dialogs (log w)
        \<and> export_failures (log w') = export_failures (log w)
        \<and> set (log w) \<subseteq> set (log w')"
    using s
    by (auto simp: save_try_def Let_def emit_def render_calls_append directory_dialogs_append
        export_failures_append startsWith_def
        split: sum.splits option.splits if_splits prod.splits
        dest!: write_and_open_frame)
  then show ?thesis
    unfolding saveSvgAsImage_def s
    by (cases x) (auto simp: emit_def render_calls_append directory_dialogs_append
        export_failures_append startsWith_def)
qed

lemma save_with_directory_paths:
  assumes "d \<noteq> []"
  shows "save_dialogs (log (saveSvgAsImage h st el baseName index hdg (Some d) skipOpen w))
         = save_dialogs (log w)
     \<and> (\<exists>ps. written_paths (log (saveSvgAsImage h st el baseName index hdg (Some d) skipOpen w))
               = written_paths (log w) @ ps
             \<and> set ps \<subseteq> {pathJoin h d (defaultFileName baseName hdg index (format st))})"
proof (cases "make_buffer h st el (svg_data h st el)")
  case (Inl e)
  then show ?thesis unfolding save_with_directory [OF assms]
    by (simp add: emit_def save_dialogs_append written_paths_append)
next
  case (Inr ob)
  show ?thesis
  proof (cases ob)
    case None
    then show ?thesis unfolding save_with_directory [OF assms] Inr
      by (simp add: emit_def save_dialogs_append written_paths_append)
  next
    case (Some buffer)
    obtain x w' where wo:
      "write_and_open h st (pathJoin h d (defaultFileName baseName hdg index (format st)))
         buffer skipOpen w = (x, w')"
      by (cases "write_and_open h st (pathJoin h d (defaultFileName baseName hdg index (format st)))
                   buffer skipOpen w") auto
    from write_and_open_frame [OF wo] obtain evs where evs:
      "log w' = log w @ evs" "save_dialogs evs = []"
      "written_paths evs = []
       \<or> written_paths evs = [pathJoin h d (defaultFileName baseName hdg index (format st))]"
      by blast
    show ?thesis unfolding save_with_directory [OF assms] Inr Some
      using wo evs
      by (cases x) (auto simp: emit_def save_dialogs_append written_paths_append)
  qed
qed

text \<open>Save: the two ways in which it fails, both caught inside the function.\<close>

lemma save_catches:
  "make_buffer h st el (svg_data h st el) = Inl e
   \<Longrightarrow> log (saveSvgAsImage h st el baseName index hdg td skipOpen w)
       = log w @ [Notice (''Save failed: '' @ e), ConsoleError e]"
  by (simp add: saveSvgAsImage_def save_try_def Let_def emit_def)

lemma save_write_fails:
  assumes "d \<noteq> []" and "overwrite st"
    and "make_buffer h st el (svg_data h st el) = Inr (Some buffer)"
    and "pathJoin h d (defaultFileName baseName hdg index (format st)) \<noteq> []"
    and "writeFileFails h (pathJoin h d (defaultFileName baseName hdg index (format st))) = Some e"
  shows "log (saveSvgAsImage h st el baseName index hdg (Some d) skipOpen w)
         = log w @ [Notice (''Save failed: '' @ e), ConsoleError e]
     \<and> files (saveSvgAsImage h st el baseName index hdg (Some d) skipOpen w) = files w"
  unfolding save_with_directory [OF assms(1)] assms(3)
  using assms(2,4,5) by (simp add: write_and_open_def emit_def)

text \<open>The loop of the handler, one step at a time.\<close>

lemma loop_undefined:
  "\<not> index < length (mermaidBlocks m)
   \<Longrightarrow> export_loop h st m dir isBulk (index # rest) w
       = (Throws (''Cannot read properties of undefined (reading '' @ [CHR 0x27] @ ''code''
                  @ [CHR 0x27] @ '')''), w)"
  by simp

lemma loop_raise:
  "index < length (mermaidBlocks m)
   \<Longrightarrow> fst (renderMermaidToSvg h (code (mermaidBlocks m ! index)) w) = Throws e
   \<Longrightarrow> export_loop h st m dir isBulk (index # rest) w
       = (Throws e, snd (renderMermaidToSvg h (code (mermaidBlocks m ! index)) w))"
  by (cases "renderMermaidToSvg h (code (mermaidBlocks m ! index)) w") (simp add: Let_def)

lemma loop_hang:
  "index < length (mermaidBlocks m)
   \<Longrightarrow> fst (renderMermaidToSvg h (code (mermaidBlocks m ! index)) w) = Hangs
   \<Longrightarrow> export_loop h st m dir isBulk (index # rest) w
       = (Hangs, snd (renderMermaidToSvg h (code (mermaidBlocks m ! index)) w))"
  by (cases "renderMermaidToSvg h (code (mermaidBlocks m ! index)) w") (simp add: Let_def)

lemma loop_save:
  "index < length (mermaidBlocks m)
   \<Longrightarrow> fst (renderMermaidToSvg h (code (mermaidBlocks m ! index)) w) = Returns (Some el)
   \<Longrightarrow> export_loop h st m dir isBulk (index # rest) w
       = export_loop h st m dir isBulk rest
           (saveSvgAsImage h st el (activeFile m) index (heading (mermaidBlocks m ! index))
              (Some dir) isBulk (snd (renderMermaidToSvg h (code (mermaidBlocks m ! index)) w)))"
  by (cases "renderMermaidToSvg h (code (mermaidBlocks m ! index)) w") (simp add: Let_def)

lemma loop_timeout:
  "index < length (mermaidBlocks m)
   \<Longrightarrow> fst (renderMermaidToSvg h (code (mermaidBlocks m ! index)) w) = Returns None
   \<Longrightarrow> export_loop h st m dir isBulk (index # rest) w
       = export_loop h st m dir isBulk rest
           (emit [Notice (''Failed to render diagram #'' @ decimal (index + 1)
                          @ '' (Timeout or not found)'')]
              (snd (renderMermaidToSvg h (code (mermaidBlocks m ! index)) w)))"
  by (cases "renderMermaidToSvg h (code (mermaidBlocks m ! index)) w") (simp add: Let_def)

lemma render_log_projections:
  "render_calls (log (snd (renderMermaidToSvg h c w))) = render_calls (log w) @ [render_markup h c]
   \<and> written_paths (log (snd (renderMermaidToSvg h c w))) = written_paths (log w)
   \<and> save_dialogs (log (snd (renderMermaidToSvg h c w))) = save_dialogs (log w)
   \<and> directory_dialogs (log (snd (renderMermaidToSvg h c w))) = directory_dialogs (log w)
   \<and> notices (log (snd (renderMermaidToSvg h c w))) = notices (log w)
   \<and> export_failures (log (snd (renderMermaidToSvg h c w))) = export_failures (log w)
   \<and> set (log w) \<subseteq> set (log (snd (renderMermaidToSvg h c w)))"
  using render_frame [of h c w]
  by (auto simp: render_calls_append written_paths_append save_dialogs_append
      directory_dialogs_append notices_append export_failures_append)

declare export_loop.simps(2) [simp del]

lemma export_loop_frame:
  assumes "dir \<noteq> []"
  shows "save_dialogs (log (snd (export_loop h st m dir isBulk idxs w))) = save_dialogs (log w)
     \<and> directory_dialogs (log (snd (export_loop h st m dir isBulk idxs w)))
       = directory_dialogs (log w)
     \<and> set (written_paths (log (snd (export_loop h st m dir isBulk idxs w))))
       \<subseteq> set (written_paths (log w))
         \<union> (\<lambda>k. pathJoin h dir
                   (defaultFileName (activeFile m) (heading (mermaidBlocks m ! k)) k (format st)))
           ` set idxs"
proof (induction idxs arbitrary: w)
  case Nil
  then show ?case by simp
next
  case (Cons index rest)
  let ?R = "renderMermaidToSvg h (code (mermaidBlocks m ! index)) w"
  note rp = render_log_projections [of h "code (mermaidBlocks m ! index)" w]
  show ?case
  proof (cases "index < length (mermaidBlocks m)")
    case False
    then show ?thesis by (auto simp: loop_undefined)
  next
    case True
    show ?thesis
    proof (cases "fst ?R")
      case (Throws e)
      show ?thesis unfolding loop_raise [OF True Throws] using rp by auto
    next
      case Hangs
      show ?thesis unfolding loop_hang [OF True Hangs] using rp by auto
    next
      case (Returns r)
      show ?thesis
      proof (cases r)
        case None
        have t: "fst ?R = Returns None" using Returns None by simp
        show ?thesis unfolding loop_timeout [OF True t]
          using Cons.IH [of "emit [Notice (''Failed to render diagram #'' @ decimal (index + 1)
                          @ '' (Timeout or not found)'')] (snd ?R)"] rp
          by (auto simp: emit_def save_dialogs_append directory_dialogs_append written_paths_append)
      next
        case (Some el)
        have t: "fst ?R = Returns (Some el)" using Returns Some by simp
        let ?S = "saveSvgAsImage h st el (activeFile m) index (heading (mermaidBlocks m ! index))
              (Some dir) isBulk (snd ?R)"
        note sf = save_frame [of h st el "activeFile m" index "heading (mermaidBlocks m ! index)"
                    "Some dir" isBulk "snd ?R"]
        from save_with_directory_paths [OF assms, of h st el "activeFile m" index
                    "heading (mermaidBlocks m ! index)" isBulk "snd ?R"]
        obtain ps where sd: "save_dialogs (log ?S) = save_dialogs (log (snd ?R))"
          and wp: "written_paths (log ?S) = written_paths (log (snd ?R)) @ ps"
          and ps: "set ps \<subseteq> {pathJoin h dir (defaultFileName (activeFile m)
                                   (heading (mermaidBlocks m ! index)) index (format st))}"
          by blast
        note ih = Cons.IH [of ?S]
        have a: "save_dialogs (log (snd (export_loop h st m dir isBulk rest ?S)))
                 = save_dialogs (log w)"
          using ih sd rp by simp
        have b: "directory_dialogs (log (snd (export_loop h st m dir isBulk rest ?S)))
                 = directory_dialogs (log w)"
          using ih sf rp by simp
        have "set (written_paths (log ?S))
              \<subseteq> set (written_paths (log w))
                \<union> {pathJoin h dir (defaultFileName (activeFile m)
                                   (heading (mermaidBlocks m ! index)) index (format st))}"
          using wp ps rp by auto
        then have c: "set (written_paths (log (snd (export_loop h st m dir isBulk rest ?S))))
              \<subseteq> set (written_paths (log w))
                \<union> (\<lambda>k. pathJoin h dir
                     (defaultFileName (activeFile m) (heading (mermaidBlocks m ! k)) k (format st)))
                   ` set (index # rest)"
          using ih by auto
        show ?thesis unfolding loop_save [OF True t]
          using a b c by blast
      qed
    qed
  qed
qed

lemma export_loop_log_grows:
  "set (log w) \<subseteq> set (log (snd (export_loop h st m dir isBulk idxs w)))"
proof (induction idxs arbitrary: w)
  case Nil
  then show ?case by simp
next
  case (Cons index rest)
  let ?R = "renderMermaidToSvg h (code (mermaidBlocks m ! index)) w"
  note rp = render_log_projections [of h "code (mermaidBlocks m ! index)" w]
  show ?case
  proof (cases "index < length (mermaidBlocks m)")
    case False
    then show ?thesis by (auto simp: loop_undefined)
  next
    case True
    show ?thesis
    proof (cases "fst ?R")
      case (Throws e)
      show ?thesis unfolding loop_raise [OF True Throws] using rp by auto
    next
      case Hangs
      show ?thesis unfolding loop_hang [OF True Hangs] using rp by auto
    next
      case (Returns r)
      show ?thesis
      proof (cases r)
        case None
        have t: "fst ?R = Returns None" using Returns None by simp
        show ?thesis unfolding loop_timeout [OF True t]
          using Cons.IH [of "emit [Notice (''Failed to render diagram #'' @ decimal (index + 1)
                          @ '' (Timeout or not found)'')] (snd ?R)"] rp
          by (auto simp: emit_def)
      next
        case (Some el)
        have t: "fst ?R = Returns (Some el)" using Returns Some by simp
        let ?S = "saveSvgAsImage h st el (activeFile m) index (heading (mermaidBlocks m ! index))
              (Some dir) isBulk (snd ?R)"
        note sf = save_frame [of h st el "activeFile m" index "heading (mermaidBlocks m ! index)"
                    "Some dir" isBulk "snd ?R"]
        show ?thesis unfolding loop_save [OF True t]
          using Cons.IH [of ?S] rp sf
          by auto
      qed
    qed
  qed
qed

text \<open>
  The loop renders the first of its blocks, whatever comes of it, and never takes a render
  back.
\<close>

lemma export_loop_renders_first:
  assumes "\<forall>j\<in>set idxs. j < length (mermaidBlocks m)"
  shows "\<exists>more. render_calls (log (snd (export_loop h st m dir isBulk idxs w)))
            = render_calls (log w)
              @ map (\<lambda>k. render_markup h (code (mermaidBlocks m ! k))) (take 1 idxs) @ more"
  using assms
proof (induction idxs arbitrary: w)
  case Nil
  then show ?case by simp
next
  case (Cons index rest)
  let ?R = "renderMermaidToSvg h (code (mermaidBlocks m ! index)) w"
  note rp = render_log_projections [of h "code (mermaidBlocks m ! index)" w]
  have lt: "index < length (mermaidBlocks m)" using Cons.prems by simp
  have p1: "\<forall>j\<in>set rest. j < length (mermaidBlocks m)" using Cons.prems by simp
  show ?case
  proof (cases "fst ?R")
    case (Throws e)
    show ?thesis unfolding loop_raise [OF lt Throws] using rp by simp
  next
    case Hangs
    show ?thesis unfolding loop_hang [OF lt Hangs] using rp by simp
  next
    case (Returns r)
    show ?thesis
    proof (cases r)
      case None
      have t: "fst ?R = Returns None" using Returns None by simp
      let ?T = "emit [Notice (''Failed to render diagram #'' @ decimal (index + 1)
                          @ '' (Timeout or not found)'')] (snd ?R)"
      from Cons.IH [OF p1, of ?T] obtain more where
        "render_calls (log (snd (export_loop h st m dir isBulk rest ?T)))
         = render_calls (log ?T)
           @ map (\<lambda>k. render_markup h (code (mermaidBlocks m ! k))) (take 1 rest) @ more"
        by blast
      then show ?thesis unfolding loop_timeout [OF lt t]
        using rp by (simp add: emit_def render_calls_append)
    next
      case (Some el)
      have t: "fst ?R = Returns (Some el)" using Returns Some by simp
      let ?S = "saveSvgAsImage h st el (activeFile m) index (heading (mermaidBlocks m ! index))
              (Some dir) isBulk (snd ?R)"
      note sf = save_frame [of h st el "activeFile m" index "heading (mermaidBlocks m ! index)"
                  "Some dir" isBulk "snd ?R"]
      from Cons.IH [OF p1, of ?S] obtain more where
        "render_calls (log (snd (export_loop h st m dir isBulk rest ?S)))
         = render_calls (log ?S)
           @ map (\<lambda>k. render_markup h (code (mermaidBlocks m ! k))) (take 1 rest) @ more"
        by blast
      then show ?thesis unfolding loop_save [OF lt t]
        using rp sf by simp
    qed
  qed
qed

text \<open>
  The loop on a run of blocks whose renders resolve: it gets past them, whatever the saves
  do, having rendered each of them and written nothing but their files.
\<close>

lemma loop_prefix:
  assumes "\<forall>j\<in>set pre. j < length (mermaidBlocks m)"
    and "\<forall>i<length pre. settles (markdownRender h (fresh w + i)
                            (render_markup h (code (mermaidBlocks m ! (pre ! i))))) = Resolves"
  shows "\<exists>w1. export_loop h st m dir isBulk (pre @ rest) w = export_loop h st m dir isBulk rest w1
      \<and> fresh w1 = fresh w + length pre
      \<and> render_calls (log w1)
        = render_calls (log w) @ map (\<lambda>k. render_markup h (code (mermaidBlocks m ! k))) pre
      \<and> export_failures (log w1) = export_failures (log w)
      \<and> set (log w) \<subseteq> set (log w1)
      \<and> (dir \<noteq> []
         \<longrightarrow> set (written_paths (log w1))
             \<subseteq> set (written_paths (log w))
               \<union> (\<lambda>k. pathJoin h dir
                       (defaultFileName (activeFile m) (heading (mermaidBlocks m ! k)) k (format st)))
                 ` set pre)"
  using assms
proof (induction pre arbitrary: w)
  case Nil
  show ?case by (intro exI [where x = w]) simp
next
  case (Cons index pre)
  let ?R = "renderMermaidToSvg h (code (mermaidBlocks m ! index)) w"
  let ?p = "\<lambda>k. pathJoin h dir
              (defaultFileName (activeFile m) (heading (mermaidBlocks m ! k)) k (format st))"
  note rp = render_log_projections [of h "code (mermaidBlocks m ! index)" w]
  have fr: "fresh (snd ?R) = fresh w + 1"
    using render_frame [of h "code (mermaidBlocks m ! index)" w] by simp
  have lt: "index < length (mermaidBlocks m)" using Cons.prems(1) by simp
  have p1: "\<forall>j\<in>set pre. j < length (mermaidBlocks m)" using Cons.prems(1) by simp
  have "settles (markdownRender h (fresh w + 0)
                   (render_markup h (code (mermaidBlocks m ! ((index # pre) ! 0))))) = Resolves"
    using Cons.prems(2) by blast
  then have rs: "settles (markdownRender h (fresh w)
                   (render_markup h (code (mermaidBlocks m ! index)))) = Resolves"
    by simp
  then obtain r where r: "fst ?R = Returns r"
    using render_outcome [of h w "code (mermaidBlocks m ! index)"] by blast
  have "\<exists>S. export_loop h st m dir isBulk (index # pre @ rest) w
              = export_loop h st m dir isBulk (pre @ rest) S
          \<and> fresh S = fresh w + 1
          \<and> render_calls (log S)
            = render_calls (log w) @ [render_markup h (code (mermaidBlocks m ! index))]
          \<and> export_failures (log S) = export_failures (log w)
          \<and> set (log w) \<subseteq> set (log S)
          \<and> (dir \<noteq> [] \<longrightarrow> set (written_paths (log S))
                            \<subseteq> set (written_paths (log w)) \<union> {?p index})"
  proof (cases r)
    case None
    have t: "fst ?R = Returns None" using r None by simp
    show ?thesis unfolding loop_timeout [OF lt t]
      using rp fr
      by (intro exI [where x = "emit [Notice (''Failed to render diagram #'' @ decimal (index + 1)
                          @ '' (Timeout or not found)'')] (snd ?R)"])
         (auto simp: emit_def render_calls_append export_failures_append written_paths_append
            startsWith_def)
  next
    case (Some el)
    have t: "fst ?R = Returns (Some el)" using r Some by simp
    let ?S = "saveSvgAsImage h st el (activeFile m) index (heading (mermaidBlocks m ! index))
              (Some dir) isBulk (snd ?R)"
    note sf = save_frame [of h st el "activeFile m" index "heading (mermaidBlocks m ! index)"
                "Some dir" isBulk "snd ?R"]
    have wp: "dir \<noteq> [] \<longrightarrow> set (written_paths (log ?S))
                            \<subseteq> set (written_paths (log w)) \<union> {?p index}"
    proof
      assume d: "dir \<noteq> []"
      from save_with_directory_paths [OF d, of h st el "activeFile m" index
                    "heading (mermaidBlocks m ! index)" isBulk "snd ?R"]
      obtain ps where "written_paths (log ?S) = written_paths (log (snd ?R)) @ ps"
        and "set ps \<subseteq> {?p index}"
        by blast
      then show "set (written_paths (log ?S)) \<subseteq> set (written_paths (log w)) \<union> {?p index}"
        using rp by auto
    qed
    have "fresh ?S = fresh w + 1
          \<and> render_calls (log ?S)
            = render_calls (log w) @ [render_markup h (code (mermaidBlocks m ! index))]
          \<and> export_failures (log ?S) = export_failures (log w)
          \<and> set (log w) \<subseteq> set (log ?S)"
      using sf rp fr by auto
    then show ?thesis unfolding loop_save [OF lt t]
      using wp by (intro exI [where x = ?S]) blast
  qed
  then obtain S where step: "export_loop h st m dir isBulk (index # pre @ rest) w
              = export_loop h st m dir isBulk (pre @ rest) S"
    and fS: "fresh S = fresh w + 1"
    and rS: "render_calls (log S)
            = render_calls (log w) @ [render_markup h (code (mermaidBlocks m ! index))]"
    and eS: "export_failures (log S) = export_failures (log w)"
    and lS: "set (log w) \<subseteq> set (log S)"
    and wS: "dir \<noteq> [] \<longrightarrow> set (written_paths (log S))
                            \<subseteq> set (written_paths (log w)) \<union> {?p index}"
    by blast
  have p2: "\<forall>i<length pre. settles (markdownRender h (fresh S + i)
                            (render_markup h (code (mermaidBlocks m ! (pre ! i))))) = Resolves"
  proof (intro allI impI)
    fix i assume "i < length pre"
    then have "Suc i < length (index # pre)" by simp
    then have "settles (markdownRender h (fresh w + Suc i)
                 (render_markup h (code (mermaidBlocks m ! ((index # pre) ! Suc i))))) = Resolves"
      using Cons.prems(2) by blast
    then show "settles (markdownRender h (fresh S + i)
                 (render_markup h (code (mermaidBlocks m ! (pre ! i))))) = Resolves"
      using fS by simp
  qed
  from Cons.IH [OF p1 p2] obtain w1 where
    a: "export_loop h st m dir isBulk (pre @ rest) S = export_loop h st m dir isBulk rest w1"
    and b: "fresh w1 = fresh S + length pre"
    and c: "render_calls (log w1)
        = render_calls (log S) @ map (\<lambda>k. render_markup h (code (mermaidBlocks m ! k))) pre"
    and d: "export_failures (log w1) = export_failures (log S)"
    and e: "set (log S) \<subseteq> set (log w1)"
    and f: "dir \<noteq> [] \<longrightarrow> set (written_paths (log w1))
             \<subseteq> set (written_paths (log S)) \<union> ?p ` set pre"
    by blast
  have g: "dir \<noteq> [] \<longrightarrow> set (written_paths (log w1))
             \<subseteq> set (written_paths (log w)) \<union> ?p ` set (index # pre)"
    using f wS by auto
  have "export_loop h st m dir isBulk ((index # pre) @ rest) w
          = export_loop h st m dir isBulk rest w1
      \<and> fresh w1 = fresh w + length (index # pre)
      \<and> render_calls (log w1)
        = render_calls (log w)
          @ map (\<lambda>k. render_markup h (code (mermaidBlocks m ! k))) (index # pre)
      \<and> export_failures (log w1) = export_failures (log w)
      \<and> set (log w) \<subseteq> set (log w1)"
    using step a b c d e fS rS eS lS by auto
  then show ?case using g by blast
qed

lemma save_writes:
  assumes "d \<noteq> []" and "overwrite st"
    and "make_buffer h st el (svg_data h st el) = Inr (Some buffer)"
    and "writeFileFails h (pathJoin h d (defaultFileName baseName hdg index (format st))) = None"
    and "pathJoin h d (defaultFileName baseName hdg index (format st)) \<noteq> []"
  shows "written_paths (log (saveSvgAsImage h st el baseName index hdg (Some d) skipOpen w))
         = written_paths (log w) @ [pathJoin h d (defaultFileName baseName hdg index (format st))]
     \<and> files (saveSvgAsImage h st el baseName index hdg (Some d) skipOpen w)
         (pathJoin h d (defaultFileName baseName hdg index (format st))) = Some buffer"
  unfolding save_with_directory [OF assms(1)] assms(3) write_and_open_writes [OF assms(5,4)]
  using assms(2) by (simp add: emit_def written_paths_append)

lemma export_loop_writes_all:
  assumes "dir \<noteq> []" and "overwrite st"
    and "\<forall>k\<in>set idxs. k < length (mermaidBlocks m)"
    and "\<forall>k\<in>set idxs. \<forall>w. \<exists>el.
           fst (renderMermaidToSvg h (code (mermaidBlocks m ! k)) w) = Returns (Some el)"
    and "\<forall>el. \<exists>buffer. make_buffer h st el (svg_data h st el) = Inr (Some buffer)"
    and "\<forall>p. writeFileFails h p = None" and "\<forall>n. pathJoin h dir n \<noteq> []"
  shows "fst (export_loop h st m dir isBulk idxs w) = Returns ()
     \<and> written_paths (log (snd (export_loop h st m dir isBulk idxs w)))
       = written_paths (log w)
         @ map (\<lambda>k. pathJoin h dir
                  (defaultFileName (activeFile m) (heading (mermaidBlocks m ! k)) k (format st)))
             idxs"
  using assms(3,4)
proof (induction idxs arbitrary: w)
  case Nil
  then show ?case by simp
next
  case (Cons index rest)
  let ?R = "renderMermaidToSvg h (code (mermaidBlocks m ! index)) w"
  note rp = render_log_projections [of h "code (mermaidBlocks m ! index)" w]
  have lt: "index < length (mermaidBlocks m)" using Cons.prems(1) by simp
  have "\<exists>el. fst ?R = Returns (Some el)" using Cons.prems(2) by simp
  then obtain el where t: "fst ?R = Returns (Some el)" by blast
  obtain buffer where b: "make_buffer h st el (svg_data h st el) = Inr (Some buffer)"
    using assms(5) by blast
  let ?S = "saveSvgAsImage h st el (activeFile m) index (heading (mermaidBlocks m ! index))
              (Some dir) isBulk (snd ?R)"
  have wf: "writeFileFails h (pathJoin h dir (defaultFileName (activeFile m)
              (heading (mermaidBlocks m ! index)) index (format st))) = None"
    using assms(6) by simp
  have ne: "pathJoin h dir (defaultFileName (activeFile m)
              (heading (mermaidBlocks m ! index)) index (format st)) \<noteq> []"
    using assms(7) by simp
  note sw = save_writes [OF assms(1,2) b wf ne, of isBulk "snd ?R"]
  have p1: "\<forall>k\<in>set rest. k < length (mermaidBlocks m)" using Cons.prems(1) by simp
  have p2: "\<forall>k\<in>set rest. \<forall>w. \<exists>el.
              fst (renderMermaidToSvg h (code (mermaidBlocks m ! k)) w) = Returns (Some el)"
    using Cons.prems(2) by simp
  show ?case unfolding loop_save [OF lt t]
    using Cons.IH [OF p1 p2, of ?S] sw rp by simp
qed

text \<open>The handler, once a directory has been chosen.\<close>

lemma handler_runs:
  assumes "selectedIndices (selected m) \<noteq> []" and "dialogAvailable h"
    and "showOpenDialog h = (False, dir # ds)"
  shows "exportBtn_onclick h st m w =
     (case fst (batch_run h st m dir w) of
        Returns u \<Rightarrow>
          open_folder h st (length (selectedIndices (selected m)) > 1) dir
            (emit [ProgressMessage ''Export finished.''] (snd (batch_run h st m dir w)))
      | Throws e \<Rightarrow>
          open_folder h st (length (selectedIndices (selected m)) > 1) dir
            (emit [ProgressHide, Notice (''Export failed: '' @ e)] (snd (batch_run h st m dir w)))
      | Hangs \<Rightarrow> snd (batch_run h st m dir w))"
  using assms
  by (simp add: exportBtn_onclick_def batch_run_def Let_def emit_def
      split: prod.splits outcome.splits)

lemma handler_projections:
  assumes "selectedIndices (selected m) \<noteq> []" and "dialogAvailable h"
    and "showOpenDialog h = (False, dir # ds)"
  shows "render_calls (log (exportBtn_onclick h st m w))
         = render_calls (log (snd (batch_run h st m dir w)))
     \<and> written_paths (log (exportBtn_onclick h st m w))
         = written_paths (log (snd (batch_run h st m dir w)))
     \<and> save_dialogs (log (exportBtn_onclick h st m w))
         = save_dialogs (log (snd (batch_run h st m dir w)))
     \<and> directory_dialogs (log (exportBtn_onclick h st m w))
         = directory_dialogs (log (snd (batch_run h st m dir w)))
     \<and> export_failures (log (exportBtn_onclick h st m w))
         = export_failures (log (snd (batch_run h st m dir w)))
           @ (case fst (batch_run h st m dir w) of
                Throws e \<Rightarrow> [''Export failed: '' @ e] | Returns u \<Rightarrow> [] | Hangs \<Rightarrow> [])
     \<and> set (log (snd (batch_run h st m dir w))) \<subseteq> set (log (exportBtn_onclick h st m w))
     \<and> (fst (batch_run h st m dir w) = Returns ()
        \<longrightarrow> ProgressMessage ''Export finished.'' \<in> set (log (exportBtn_onclick h st m w)))"
  unfolding handler_runs [OF assms] Let_def open_folder_def
  by (auto simp: emit_def render_calls_append written_paths_append save_dialogs_append
      directory_dialogs_append export_failures_append startsWith_def
      split: outcome.splits)

lemma example_render:
  assumes "markdownRender h = markdownRender example_host" and "bodyPath h = bodyPath example_host"
  shows "fst (renderMermaidToSvg h c w) = Returns (Some (prepend example_svg (styleEl (rawFont h))))"
proof -
  let ?w3 = "emit [ConsoleLog (''Mermaid Exporter: Detected font '' @ [CHR 0x27] @ rawFont h @ [CHR 0x27]),
                  RenderCall (fresh w) (render_markup h c)]
              (w\<lparr>body := body w @ [fresh w], fresh := fresh w + 1\<rparr>)"
  have rj: "settles (markdownRender h (fresh w) (render_markup h c)) = Resolves"
    by (simp add: assms example_host_def)
  have lt: "0 < maxRetries" by (simp add: maxRetries_def)
  have q: "querySelector ([] # bodyPath h)
             (contents (markdownRender h (fresh w) (render_markup h c)) 0)
           = Some (example_svg, [[''mermaid''], [], [''theme-dark''], []])"
    by (simp add: assms example_host_def example_svg_def)
  have nc: "\<not> closest_copy_code_button (example_svg, [[''mermaid''], [], [''theme-dark''], []])"
    by (simp add: closest_copy_code_button_def example_svg_def)
  have p: "poll_loop ([] # bodyPath h)
             (contents (markdownRender h (fresh w) (render_markup h c))) 0 ?w3
           = (Some example_svg, ?w3\<lparr>polls := polls ?w3 + 1\<rparr>)"
    using poll_loop_found [where cont = "contents (markdownRender h (fresh w)
                                          (render_markup h c))" and i = 0, OF lt q nc]
    by simp
  show ?thesis unfolding render_resolves [OF rj p] by simp
qed

lemma batch_run_start:
  "render_calls (log (emit [DirectoryDialog, ModalClose, ProgressNotice t] w)) = render_calls (log w)
   \<and> written_paths (log (emit [DirectoryDialog, ModalClose, ProgressNotice t] w)) = written_paths (log w)
   \<and> save_dialogs (log (emit [DirectoryDialog, ModalClose, ProgressNotice t] w)) = save_dialogs (log w)
   \<and> directory_dialogs (log (emit [DirectoryDialog, ModalClose, ProgressNotice t] w))
     = directory_dialogs (log w) + 1
   \<and> export_failures (log (emit [DirectoryDialog, ModalClose, ProgressNotice t] w))
     = export_failures (log w)
   \<and> set (log w) \<subseteq> set (log (emit [DirectoryDialog, ModalClose, ProgressNotice t] w))
   \<and> fresh (emit [DirectoryDialog, ModalClose, ProgressNotice t] w) = fresh w"
  by (auto simp: emit_def render_calls_append written_paths_append save_dialogs_append
      directory_dialogs_append export_failures_append)

lemma selected_in_range:
  "length (selected m) \<le> length (mermaidBlocks m)
   \<Longrightarrow> \<forall>k\<in>set (selectedIndices (selected m)). k < length (mermaidBlocks m)"
  using selectedIndices_bound by fastforce

text \<open>A batch, up to a block before which every render resolves.\<close>

lemma batch_prefix:
  assumes "selectedIndices (selected m) = pre @ rest"
    and "length (selected m) \<le> length (mermaidBlocks m)"
    and "\<forall>i<length pre. settles (markdownRender h (fresh w + i)
                            (render_markup h (code (mermaidBlocks m ! (pre ! i))))) = Resolves"
  shows "\<exists>w1. batch_run h st m dir w
             = export_loop h st m dir (length (selectedIndices (selected m)) > 1) rest w1
      \<and> fresh w1 = fresh w + length pre
      \<and> render_calls (log w1)
        = render_calls (log w) @ map (\<lambda>k. render_markup h (code (mermaidBlocks m ! k))) pre
      \<and> export_failures (log w1) = export_failures (log w)
      \<and> set (log w) \<subseteq> set (log w1)
      \<and> (dir \<noteq> []
         \<longrightarrow> set (written_paths (log w1))
             \<subseteq> set (written_paths (log w))
               \<union> (\<lambda>k. pathJoin h dir
                       (defaultFileName (activeFile m) (heading (mermaidBlocks m ! k)) k (format st)))
                 ` set pre)"
proof -
  let ?w2 = "emit [DirectoryDialog, ModalClose,
                   ProgressNotice (progress_text (length (selectedIndices (selected m))))] w"
  note st = batch_run_start [of "progress_text (length (selectedIndices (selected m)))" w]
  have ir: "\<forall>j\<in>set pre. j < length (mermaidBlocks m)"
    using selected_in_range [OF assms(2)] assms(1) by simp
  have rs: "\<forall>i<length pre. settles (markdownRender h (fresh ?w2 + i)
                            (render_markup h (code (mermaidBlocks m ! (pre ! i))))) = Resolves"
    using assms(3) st by simp
  from loop_prefix [OF ir rs, where st = st and dir = dir and rest = rest
      and isBulk = "length (selectedIndices (selected m)) > 1"]
  obtain w1 where
    a: "export_loop h st m dir (length (selectedIndices (selected m)) > 1) (pre @ rest) ?w2
        = export_loop h st m dir (length (selectedIndices (selected m)) > 1) rest w1"
    and b: "fresh w1 = fresh ?w2 + length pre"
    and c: "render_calls (log w1)
        = render_calls (log ?w2) @ map (\<lambda>k. render_markup h (code (mermaidBlocks m ! k))) pre"
    and d: "export_failures (log w1) = export_failures (log ?w2)"
    and e: "set (log ?w2) \<subseteq> set (log w1)"
    and f: "dir \<noteq> [] \<longrightarrow> set (written_paths (log w1))
             \<subseteq> set (written_paths (log ?w2))
               \<union> (\<lambda>k. pathJoin h dir
                       (defaultFileName (activeFile m) (heading (mermaidBlocks m ! k)) k (format st)))
                 ` set pre"
    by blast
  have a': "batch_run h st m dir w
            = export_loop h st m dir (length (selectedIndices (selected m)) > 1) rest w1"
    using a unfolding batch_run_def assms(1) by simp
  have e': "set (log w) \<subseteq> set (log w1)" using e st by blast
  show ?thesis
    using a' b c d e' f st by (intro exI [where x = w1]) simp
qed

text \<open>A batch in which every render resolves.\<close>

lemma batch_finishes_aux:
  assumes "selectedIndices (selected m) \<noteq> []" and "dialogAvailable h"
    and "showOpenDialog h = (False, dir # ds)"
    and "length (selected m) \<le> length (mermaidBlocks m)"
    and "\<forall>i<length (selectedIndices (selected m)).
           settles (markdownRender h (fresh w + i)
             (render_markup h (code (mermaidBlocks m ! (selectedIndices (selected m) ! i)))))
           = Resolves"
  shows "render_calls (log (exportBtn_onclick h st m w))
         = render_calls (log w)
           @ map (\<lambda>k. render_markup h (code (mermaidBlocks m ! k))) (selectedIndices (selected m))
     \<and> export_failures (log (exportBtn_onclick h st m w)) = export_failures (log w)
     \<and> ProgressMessage ''Export finished.'' \<in> set (log (exportBtn_onclick h st m w))"
proof -
  note hp = handler_projections [OF assms(1,2,3), of st w]
  have s: "selectedIndices (selected m) = selectedIndices (selected m) @ []" by simp
  from batch_prefix [OF s assms(4,5), where st = st and dir = dir]
  obtain w1 where
    a: "batch_run h st m dir w
        = export_loop h st m dir (length (selectedIndices (selected m)) > 1) [] w1"
    and c: "render_calls (log w1)
        = render_calls (log w)
          @ map (\<lambda>k. render_markup h (code (mermaidBlocks m ! k))) (selectedIndices (selected m))"
    and d: "export_failures (log w1) = export_failures (log w)"
    by blast
  have b: "batch_run h st m dir w = (Returns (), w1)" using a by simp
  show ?thesis using hp c d unfolding b by simp
qed

text \<open>A batch in which the render of a block throws, or never settles.\<close>

lemma batch_aborts_aux:
  assumes "selectedIndices (selected m) = pre @ k # post" and "dialogAvailable h"
    and "showOpenDialog h = (False, dir # ds)"
    and "length (selected m) \<le> length (mermaidBlocks m)"
    and "\<forall>i<length pre. settles (markdownRender h (fresh w + i)
                            (render_markup h (code (mermaidBlocks m ! (pre ! i))))) = Resolves"
    and "settles (markdownRender h (fresh w + length pre)
                    (render_markup h (code (mermaidBlocks m ! k)))) = Rejects e"
  shows "render_calls (log (exportBtn_onclick h st m w))
         = render_calls (log w)
           @ map (\<lambda>k. render_markup h (code (mermaidBlocks m ! k))) (pre @ [k])
     \<and> export_failures (log (exportBtn_onclick h st m w))
         = export_failures (log w) @ [''Export failed: '' @ e]
     \<and> (dir \<noteq> []
        \<longrightarrow> set (written_paths (log (exportBtn_onclick h st m w)))
            \<subseteq> set (written_paths (log w))
              \<union> (\<lambda>k. pathJoin h dir
                      (defaultFileName (activeFile m) (heading (mermaidBlocks m ! k)) k (format st)))
                ` set pre)"
proof -
  have ne: "selectedIndices (selected m) \<noteq> []" using assms(1) by simp
  note hp = handler_projections [OF ne assms(2,3), of st w]
  have lt: "k < length (mermaidBlocks m)"
    using selected_in_range [OF assms(4)] assms(1) by simp
  from batch_prefix [OF assms(1,4,5), where st = st and dir = dir]
  obtain w1 where
    a: "batch_run h st m dir w
        = export_loop h st m dir (length (selectedIndices (selected m)) > 1) (k # post) w1"
    and b: "fresh w1 = fresh w + length pre"
    and c: "render_calls (log w1)
        = render_calls (log w) @ map (\<lambda>k. render_markup h (code (mermaidBlocks m ! k))) pre"
    and d: "export_failures (log w1) = export_failures (log w)"
    and f: "dir \<noteq> [] \<longrightarrow> set (written_paths (log w1))
             \<subseteq> set (written_paths (log w))
               \<union> (\<lambda>k. pathJoin h dir
                       (defaultFileName (activeFile m) (heading (mermaidBlocks m ! k)) k (format st)))
                 ` set pre"
    by blast
  have "settles (markdownRender h (fresh w1) (render_markup h (code (mermaidBlocks m ! k))))
        = Rejects e"
    using assms(6) b by simp
  then have t: "fst (renderMermaidToSvg h (code (mermaidBlocks m ! k)) w1) = Throws e"
    using render_outcome [of h w1 "code (mermaidBlocks m ! k)" e] by simp
  note rp = render_log_projections [of h "code (mermaidBlocks m ! k)" w1]
  have br: "batch_run h st m dir w
            = (Throws e, snd (renderMermaidToSvg h (code (mermaidBlocks m ! k)) w1))"
    unfolding a by (rule loop_raise [OF lt t])
  show ?thesis using hp rp c d f unfolding br by simp
qed

lemma batch_hangs_aux:
  assumes "selectedIndices (selected m) = pre @ k # post" and "dialogAvailable h"
    and "showOpenDialog h = (False, dir # ds)"
    and "length (selected m) \<le> length (mermaidBlocks m)"
    and "\<forall>i<length pre. settles (markdownRender h (fresh w + i)
                            (render_markup h (code (mermaidBlocks m ! (pre ! i))))) = Resolves"
    and "settles (markdownRender h (fresh w + length pre)
                    (render_markup h (code (mermaidBlocks m ! k)))) = Pending"
  shows "render_calls (log (exportBtn_onclick h st m w))
         = render_calls (log w)
           @ map (\<lambda>k. render_markup h (code (mermaidBlocks m ! k))) (pre @ [k])
     \<and> export_failures (log (exportBtn_onclick h st m w)) = export_failures (log w)
     \<and> snd (batch_run h st m dir w) = exportBtn_onclick h st m w"
proof -
  have ne: "selectedIndices (selected m) \<noteq> []" using assms(1) by simp
  note hp = handler_projections [OF ne assms(2,3), of st w]
  note hr = handler_runs [OF ne assms(2,3), of st w]
  have lt: "k < length (mermaidBlocks m)"
    using selected_in_range [OF assms(4)] assms(1) by simp
  from batch_prefix [OF assms(1,4,5), where st = st and dir = dir]
  obtain w1 where
    a: "batch_run h st m dir w
        = export_loop h st m dir (length (selectedIndices (selected m)) > 1) (k # post) w1"
    and b: "fresh w1 = fresh w + length pre"
    and c: "render_calls (log w1)
        = render_calls (log w) @ map (\<lambda>k. render_markup h (code (mermaidBlocks m ! k))) pre"
    and d: "export_failures (log w1) = export_failures (log w)"
    by blast
  have "settles (markdownRender h (fresh w1) (render_markup h (code (mermaidBlocks m ! k))))
        = Pending"
    using assms(6) b by simp
  then have t: "fst (renderMermaidToSvg h (code (mermaidBlocks m ! k)) w1) = Hangs"
    using render_outcome [of h w1 "code (mermaidBlocks m ! k)"] by simp
  note rp = render_log_projections [of h "code (mermaidBlocks m ! k)" w1]
  have br: "batch_run h st m dir w
            = (Hangs, snd (renderMermaidToSvg h (code (mermaidBlocks m ! k)) w1))"
    unfolding a by (rule loop_hang [OF lt t])
  have "exportBtn_onclick h st m w = snd (batch_run h st m dir w)"
    unfolding hr br by simp
  then show ?thesis using hp rp c d unfolding br by simp
qed

text \<open>
  A batch in which a block fails without an exception: the loop reports it and goes on to
  the next block.
\<close>

lemma batch_after_item:
  assumes "selectedIndices (selected m) = pre @ k # post" and "dialogAvailable h"
    and "showOpenDialog h = (False, dir # ds)"
    and "length (selected m) \<le> length (mermaidBlocks m)"
    and "\<forall>i<length pre. settles (markdownRender h (fresh w + i)
                            (render_markup h (code (mermaidBlocks m ! (pre ! i))))) = Resolves"
    and "\<And>w1. fresh w1 = fresh w + length pre
          \<Longrightarrow> export_loop h st m dir (length (selectedIndices (selected m)) > 1) (k # post) w1
              = export_loop h st m dir (length (selectedIndices (selected m)) > 1) post (T w1)
            \<and> N \<in> set (log (T w1))
            \<and> render_calls (log (T w1))
              = render_calls (log w1) @ [render_markup h (code (mermaidBlocks m ! k))]"
  shows "N \<in> set (log (exportBtn_onclick h st m w))
     \<and> (\<exists>more. render_calls (log (exportBtn_onclick h st m w))
           = render_calls (log w)
             @ map (\<lambda>k. render_markup h (code (mermaidBlocks m ! k))) (pre @ k # take 1 post)
             @ more)"
proof -
  have ne: "selectedIndices (selected m) \<noteq> []" using assms(1) by simp
  note hp = handler_projections [OF ne assms(2,3), of st w]
  have ir: "\<forall>j\<in>set post. j < length (mermaidBlocks m)"
    using selected_in_range [OF assms(4)] assms(1) by simp
  from batch_prefix [OF assms(1,4,5), where st = st and dir = dir]
  obtain w1 where
    a: "batch_run h st m dir w
        = export_loop h st m dir (length (selectedIndices (selected m)) > 1) (k # post) w1"
    and b: "fresh w1 = fresh w + length pre"
    and c: "render_calls (log w1)
        = render_calls (log w) @ map (\<lambda>k. render_markup h (code (mermaidBlocks m ! k))) pre"
    by blast
  note s = assms(6) [OF b]
  have br: "batch_run h st m dir w
            = export_loop h st m dir (length (selectedIndices (selected m)) > 1) post (T w1)"
    using a s by simp
  from export_loop_renders_first [OF ir, where h = h and st = st and dir = dir
      and isBulk = "length (selectedIndices (selected m)) > 1" and w = "T w1"]
  obtain more where
    "render_calls (log (snd (batch_run h st m dir w)))
     = render_calls (log (T w1))
       @ map (\<lambda>k. render_markup h (code (mermaidBlocks m ! k))) (take 1 post) @ more"
    unfolding br by blast
  then have r: "render_calls (log (exportBtn_onclick h st m w))
           = render_calls (log w)
             @ map (\<lambda>k. render_markup h (code (mermaidBlocks m ! k))) (pre @ k # take 1 post)
             @ more"
    using hp s c by simp
  have "N \<in> set (log (snd (batch_run h st m dir w)))"
    unfolding br
    using s export_loop_log_grows [of "T w1" h st m dir
        "length (selectedIndices (selected m)) > 1" post]
    by blast
  then have n: "N \<in> set (log (exportBtn_onclick h st m w))" using hp by blast
  from n r show ?thesis by blast
qed

lemma batch_timeout_aux:
  assumes "selectedIndices (selected m) = pre @ k # post" and "dialogAvailable h"
    and "showOpenDialog h = (False, dir # ds)"
    and "length (selected m) \<le> length (mermaidBlocks m)"
    and "\<forall>i<length pre. settles (markdownRender h (fresh w + i)
                            (render_markup h (code (mermaidBlocks m ! (pre ! i))))) = Resolves"
    and "settles (markdownRender h (fresh w + length pre)
                    (render_markup h (code (mermaidBlocks m ! k)))) = Resolves"
    and "never_shows_svg h (fresh w + length pre) (code (mermaidBlocks m ! k))"
  shows "Notice (''Failed to render diagram #'' @ decimal (k + 1) @ '' (Timeout or not found)'')
           \<in> set (log (exportBtn_onclick h st m w))
     \<and> (\<exists>more. render_calls (log (exportBtn_onclick h st m w))
           = render_calls (log w)
             @ map (\<lambda>k. render_markup h (code (mermaidBlocks m ! k))) (pre @ k # take 1 post)
             @ more)"
proof (rule batch_after_item [OF assms(1,2,3,4,5), where T = "\<lambda>w1 :: world.
         emit [Notice (''Failed to render diagram #'' @ decimal (k + 1)
                       @ '' (Timeout or not found)'')]
           (snd (renderMermaidToSvg h (code (mermaidBlocks m ! k)) w1))"])
  fix w1 :: world assume b: "fresh w1 = fresh w + length pre"
  have lt: "k < length (mermaidBlocks m)"
    using selected_in_range [OF assms(4)] assms(1) by simp
  have rs: "settles (markdownRender h (fresh w1) (render_markup h (code (mermaidBlocks m ! k))))
            = Resolves"
    using assms(6) b by simp
  have nv: "\<forall>i<maxRetries. \<not> has_qualifying_svg (body_in_copy_code_button h)
              (contents (markdownRender h (fresh w1)
                           (render_markup h (code (mermaidBlocks m ! k)))) i)"
    using assms(7) b by (simp add: never_shows_svg_iff)
  have t: "fst (renderMermaidToSvg h (code (mermaidBlocks m ! k)) w1) = Returns None"
    using render_timeout_aux [OF rs nv] by simp
  note rp = render_log_projections [of h "code (mermaidBlocks m ! k)" w1]
  show "export_loop h st m dir (length (selectedIndices (selected m)) > 1) (k # post) w1
        = export_loop h st m dir (length (selectedIndices (selected m)) > 1) post
            (emit [Notice (''Failed to render diagram #'' @ decimal (k + 1)
                           @ '' (Timeout or not found)'')]
               (snd (renderMermaidToSvg h (code (mermaidBlocks m ! k)) w1)))
      \<and> Notice (''Failed to render diagram #'' @ decimal (k + 1) @ '' (Timeout or not found)'')
          \<in> set (log (emit [Notice (''Failed to render diagram #'' @ decimal (k + 1)
                                    @ '' (Timeout or not found)'')]
                        (snd (renderMermaidToSvg h (code (mermaidBlocks m ! k)) w1))))
      \<and> render_calls (log (emit [Notice (''Failed to render diagram #'' @ decimal (k + 1)
                                         @ '' (Timeout or not found)'')]
                             (snd (renderMermaidToSvg h (code (mermaidBlocks m ! k)) w1))))
        = render_calls (log w1) @ [render_markup h (code (mermaidBlocks m ! k))]"
    using loop_timeout [OF lt t] rp by (simp add: emit_def render_calls_append)
qed

lemma batch_save_fails_aux:
  assumes "selectedIndices (selected m) = pre @ k # post" and "dialogAvailable h"
    and "showOpenDialog h = (False, dir # ds)"
    and "length (selected m) \<le> length (mermaidBlocks m)"
    and "\<forall>i<length pre. settles (markdownRender h (fresh w + i)
                            (render_markup h (code (mermaidBlocks m ! (pre ! i))))) = Resolves"
    and "\<forall>w1. fresh w1 = fresh w + length pre
           \<longrightarrow> fst (renderMermaidToSvg h (code (mermaidBlocks m ! k)) w1) = Returns (Some el)"
    and "make_buffer h st el (svg_data h st el) = Inl e
         \<or> (make_buffer h st el (svg_data h st el) = Inr (Some buffer)
            \<and> dir \<noteq> [] \<and> overwrite st
            \<and> pathJoin h dir (defaultFileName (activeFile m) (heading (mermaidBlocks m ! k)) k
                               (format st)) \<noteq> []
            \<and> writeFileFails h
                (pathJoin h dir (defaultFileName (activeFile m) (heading (mermaidBlocks m ! k)) k
                                  (format st))) = Some e)"
  shows "Notice (''Save failed: '' @ e) \<in> set (log (exportBtn_onclick h st m w))
     \<and> (\<exists>more. render_calls (log (exportBtn_onclick h st m w))
           = render_calls (log w)
             @ map (\<lambda>k. render_markup h (code (mermaidBlocks m ! k))) (pre @ k # take 1 post)
             @ more)"
proof (rule batch_after_item [OF assms(1,2,3,4,5), where T = "\<lambda>w1 :: world.
         saveSvgAsImage h st el (activeFile m) k (heading (mermaidBlocks m ! k)) (Some dir)
           (length (selectedIndices (selected m)) > 1)
           (snd (renderMermaidToSvg h (code (mermaidBlocks m ! k)) w1))"])
  fix w1 :: world assume b: "fresh w1 = fresh w + length pre"
  let ?R = "renderMermaidToSvg h (code (mermaidBlocks m ! k)) w1"
  let ?S = "saveSvgAsImage h st el (activeFile m) k (heading (mermaidBlocks m ! k)) (Some dir)
              (length (selectedIndices (selected m)) > 1) (snd ?R)"
  have lt: "k < length (mermaidBlocks m)"
    using selected_in_range [OF assms(4)] assms(1) by simp
  have t: "fst ?R = Returns (Some el)" using assms(6) b by blast
  note rp = render_log_projections [of h "code (mermaidBlocks m ! k)" w1]
  note sf = save_frame [of h st el "activeFile m" k "heading (mermaidBlocks m ! k)"
              "Some dir" "length (selectedIndices (selected m)) > 1" "snd ?R"]
  have "log ?S = log (snd ?R) @ [Notice (''Save failed: '' @ e), ConsoleError e]"
    using assms(7)
  proof
    assume "make_buffer h st el (svg_data h st el) = Inl e"
    then show ?thesis by (rule save_catches)
  next
    assume c: "make_buffer h st el (svg_data h st el) = Inr (Some buffer)
            \<and> dir \<noteq> [] \<and> overwrite st
            \<and> pathJoin h dir (defaultFileName (activeFile m) (heading (mermaidBlocks m ! k)) k
                               (format st)) \<noteq> []
            \<and> writeFileFails h
                (pathJoin h dir (defaultFileName (activeFile m) (heading (mermaidBlocks m ! k)) k
                                  (format st))) = Some e"
    then have c1: "dir \<noteq> []" and c2: "overwrite st"
      and c3: "make_buffer h st el (svg_data h st el) = Inr (Some buffer)"
      and c4: "pathJoin h dir (defaultFileName (activeFile m) (heading (mermaidBlocks m ! k)) k
                               (format st)) \<noteq> []"
      and c5: "writeFileFails h
                (pathJoin h dir (defaultFileName (activeFile m) (heading (mermaidBlocks m ! k)) k
                                  (format st))) = Some e"
      by simp_all
    show ?thesis using save_write_fails [OF c1 c2 c3 c4 c5] by blast
  qed
  then have n: "Notice (''Save failed: '' @ e) \<in> set (log ?S)" by simp
  show "export_loop h st m dir (length (selectedIndices (selected m)) > 1) (k # post) w1
        = export_loop h st m dir (length (selectedIndices (selected m)) > 1) post ?S
      \<and> Notice (''Save failed: '' @ e) \<in> set (log ?S)
      \<and> render_calls (log ?S)
        = render_calls (log w1) @ [render_markup h (code (mermaidBlocks m ! k))]"
    using loop_save [OF lt t] n sf rp by simp
qed



lemma handler_nothing_selected:
  "selectedIndices (selected m) = []
   \<Longrightarrow> written_paths (log (exportBtn_onclick h st m w)) = written_paths (log w)"
  by (simp add: exportBtn_onclick_def emit_def written_paths_append)

lemma handler_paths_aux:
  assumes "dialogAvailable h" and "showOpenDialog h = (False, dir # ds)" and "dir \<noteq> []"
    and "length (selected m) \<le> length (mermaidBlocks m)"
  shows "set (written_paths (log (exportBtn_onclick h st m w)))
         \<subseteq> set (written_paths (log w))
           \<union> (\<lambda>k. pathJoin h dir
                   (defaultFileName (activeFile m) (heading (mermaidBlocks m ! k)) k (format st)))
             ` {k. k < length (selected m) \<and> selected m ! k}"
    and "overwrite st
         \<Longrightarrow> \<forall>k<length (mermaidBlocks m). \<forall>w. \<exists>el.
               fst (renderMermaidToSvg h (code (mermaidBlocks m ! k)) w) = Returns (Some el)
         \<Longrightarrow> \<forall>el. \<exists>buffer. make_buffer h st el (svg_data h st el) = Inr (Some buffer)
         \<Longrightarrow> \<forall>p. writeFileFails h p = None
         \<Longrightarrow> \<forall>n. pathJoin h dir n \<noteq> []
         \<Longrightarrow> written_paths (log (exportBtn_onclick h st m w))
             = written_paths (log w)
               @ map (\<lambda>k. pathJoin h dir
                        (defaultFileName (activeFile m) (heading (mermaidBlocks m ! k)) k (format st)))
                   (filter (\<lambda>k. selected m ! k) [0..<length (selected m)])"
proof -
  have si: "set (selectedIndices (selected m)) = {k. k < length (selected m) \<and> selected m ! k}"
    by (auto simp: selectedIndices_filter)
  show "set (written_paths (log (exportBtn_onclick h st m w)))
         \<subseteq> set (written_paths (log w))
           \<union> (\<lambda>k. pathJoin h dir
                   (defaultFileName (activeFile m) (heading (mermaidBlocks m ! k)) k (format st)))
             ` {k. k < length (selected m) \<and> selected m ! k}"
  proof (cases "selectedIndices (selected m) = []")
    case True
    then show ?thesis using handler_nothing_selected by simp
  next
    case False
    show ?thesis
      using handler_projections [OF False assms(1,2), of st w]
        export_loop_frame [OF assms(3), of h st m "length (selectedIndices (selected m)) > 1"
          "selectedIndices (selected m)"
          "emit [DirectoryDialog, ModalClose,
                 ProgressNotice (progress_text (length (selectedIndices (selected m))))] w"]
        batch_run_start
      unfolding si by (simp add: batch_run_def)
  qed
  show "written_paths (log (exportBtn_onclick h st m w))
             = written_paths (log w)
               @ map (\<lambda>k. pathJoin h dir
                        (defaultFileName (activeFile m) (heading (mermaidBlocks m ! k)) k (format st)))
                   (filter (\<lambda>k. selected m ! k) [0..<length (selected m)])"
    if ov: "overwrite st"
      and rn: "\<forall>k<length (mermaidBlocks m). \<forall>w. \<exists>el.
               fst (renderMermaidToSvg h (code (mermaidBlocks m ! k)) w) = Returns (Some el)"
      and mb: "\<forall>el. \<exists>buffer. make_buffer h st el (svg_data h st el) = Inr (Some buffer)"
      and wf: "\<forall>p. writeFileFails h p = None"
      and pj: "\<forall>n. pathJoin h dir n \<noteq> []"
  proof (cases "selectedIndices (selected m) = []")
    case True
    then show ?thesis
      using handler_nothing_selected [OF True] by (simp add: selectedIndices_filter)
  next
    case False
    note ir = selected_in_range [OF assms(4)]
    have rn': "\<forall>k\<in>set (selectedIndices (selected m)). \<forall>w. \<exists>el.
               fst (renderMermaidToSvg h (code (mermaidBlocks m ! k)) w) = Returns (Some el)"
      using rn ir by blast
    show ?thesis
      using handler_projections [OF False assms(1,2), of st w]
        export_loop_writes_all [OF assms(3) ov ir rn' mb wf pj,
          of "length (selectedIndices (selected m)) > 1"
          "emit [DirectoryDialog, ModalClose,
                 ProgressNotice (progress_text (length (selectedIndices (selected m))))] w"]
        batch_run_start
      by (simp add: batch_run_def selectedIndices_filter)
  qed
qed

section \<open>The claims about the export driver\<close>

text \<open>
  Claim C5, as the code has it. Take a batch with a directory chosen, and a selected
  block \<open>k\<close> before which the render of every selected block resolves; \<open>pre\<close> are the
  selected blocks before it and \<open>post\<close> those after it.

  \<^item> When the render of \<open>k\<close> resolves and no diagram appears, the notice
    \<open>Failed to render diagram #(k+1)\<close> is shown and the loop goes on: the block after \<open>k\<close>
    is rendered.
  \<^item> When the render of \<open>k\<close> returns an element and the conversion throws, or the write
    throws (with overwriting on), the exception is caught inside \<open>saveSvgAsImage\<close>, the
    notice \<open>Save failed\<close> is shown and the loop goes on: the block after \<open>k\<close> is rendered.
  \<^item> When the render of \<open>k\<close> throws, the handler catches the exception for the whole
    batch: the blocks of \<open>pre\<close> and \<open>k\<close> have been rendered and no block of \<open>post\<close> is,
    exactly one notice \<open>Export failed\<close> is added, and no file is written but those of
    \<open>pre\<close>.
  \<^item> When the render of \<open>k\<close> never settles, the handler stays in the loop: no block of
    \<open>post\<close> is rendered, no failure is reported, and nothing that follows the loop
    happens.
  \<^item> When the render of every selected block resolves, every selected block is rendered,
    in order, whatever the saves do, no \<open>Export failed\<close> is reported and the progress
    notice ends with \<open>Export finished.\<close>
\<close>

theorem batch_continues_after_failures:
  assumes "dialogAvailable h" and "showOpenDialog h = (False, dir # ds)"
    and "length (selected m) \<le> length (mermaidBlocks m)"
    and "selectedIndices (selected m) = pre @ k # post"
    and "\<forall>i<length pre. settles (markdownRender h (fresh w + i)
                            (render_markup h (code (mermaidBlocks m ! (pre ! i))))) = Resolves"
  shows "(settles (markdownRender h (fresh w + length pre) (render_markup h (code (mermaidBlocks m ! k)))) = Resolves
          \<and> never_shows_svg h (fresh w + length pre) (code (mermaidBlocks m ! k))
          \<longrightarrow> Notice (''Failed to render diagram #'' @ decimal (k + 1)
                       @ '' (Timeout or not found)'')
                \<in> set (log (exportBtn_onclick h st m w))
              \<and> decimal_value (decimal (k + 1)) = k + 1
              \<and> (\<exists>more. render_calls (log (exportBtn_onclick h st m w))
                   = render_calls (log w)
                     @ map (\<lambda>j. render_markup h (code (mermaidBlocks m ! j)))
                         (pre @ k # take 1 post)
                     @ more))
     \<and> ((\<forall>w1. fresh w1 = fresh w + length pre
                \<longrightarrow> fst (renderMermaidToSvg h (code (mermaidBlocks m ! k)) w1)
                    = Returns (Some el))
          \<and> (make_buffer h st el (svg_data h st el) = Inl e
              \<or> (make_buffer h st el (svg_data h st el) = Inr (Some buffer)
                  \<and> dir \<noteq> [] \<and> overwrite st
                  \<and> pathJoin h dir (defaultFileName (activeFile m) (heading (mermaidBlocks m ! k)) k
                                     (format st)) \<noteq> []
                  \<and> writeFileFails h
                      (pathJoin h dir (defaultFileName (activeFile m) (heading (mermaidBlocks m ! k)) k
                                     (format st))) = Some e))
          \<longrightarrow> Notice (''Save failed: '' @ e) \<in> set (log (exportBtn_onclick h st m w))
              \<and> (\<exists>more. render_calls (log (exportBtn_onclick h st m w))
                   = render_calls (log w)
                     @ map (\<lambda>j. render_markup h (code (mermaidBlocks m ! j)))
                         (pre @ k # take 1 post)
                     @ more))
     \<and> (settles (markdownRender h (fresh w + length pre) (render_markup h (code (mermaidBlocks m ! k)))) = Rejects e'
          \<longrightarrow> render_calls (log (exportBtn_onclick h st m w))
                = render_calls (log w)
                  @ map (\<lambda>j. render_markup h (code (mermaidBlocks m ! j))) (pre @ [k])
              \<and> export_failures (log (exportBtn_onclick h st m w))
                = export_failures (log w) @ [''Export failed: '' @ e']
              \<and> (dir \<noteq> []
                 \<longrightarrow> set (written_paths (log (exportBtn_onclick h st m w)))
                     \<subseteq> set (written_paths (log w))
                       \<union> (\<lambda>j. pathJoin h dir
                               (defaultFileName (activeFile m) (heading (mermaidBlocks m ! j)) j
                                  (format st)))
                         ` set pre))
     \<and> (settles (markdownRender h (fresh w + length pre) (render_markup h (code (mermaidBlocks m ! k)))) = Pending
          \<longrightarrow> render_calls (log (exportBtn_onclick h st m w))
                = render_calls (log w)
                  @ map (\<lambda>j. render_markup h (code (mermaidBlocks m ! j))) (pre @ [k])
              \<and> export_failures (log (exportBtn_onclick h st m w)) = export_failures (log w)
              \<and> snd (batch_run h st m dir w) = exportBtn_onclick h st m w)
     \<and> ((\<forall>i<length (selectedIndices (selected m)).
             settles (markdownRender h (fresh w + i)
               (render_markup h (code (mermaidBlocks m ! (selectedIndices (selected m) ! i)))))
             = Resolves)
          \<longrightarrow> render_calls (log (exportBtn_onclick h st m w))
                = render_calls (log w)
                  @ map (\<lambda>j. render_markup h (code (mermaidBlocks m ! j)))
                      (selectedIndices (selected m))
              \<and> export_failures (log (exportBtn_onclick h st m w)) = export_failures (log w)
              \<and> ProgressMessage ''Export finished.'' \<in> set (log (exportBtn_onclick h st m w)))"
proof -
  have ne: "selectedIndices (selected m) \<noteq> []" using assms(4) by simp
  note a = batch_timeout_aux [OF assms(4,1,2,3,5), where st = st]
  note b = batch_save_fails_aux [OF assms(4,1,2,3,5), where st = st and el = el and e = e
      and buffer = buffer]
  note c = batch_aborts_aux [OF assms(4,1,2,3,5), where st = st and e = e']
  note d = batch_hangs_aux [OF assms(4,1,2,3,5), where st = st]
  note f = batch_finishes_aux [OF ne assms(1,2,3), where st = st and w = w]
  note g = decimal_value_decimal [of "k + 1"]
  have 1: "settles (markdownRender h (fresh w + length pre) (render_markup h (code (mermaidBlocks m ! k)))) = Resolves
          \<and> never_shows_svg h (fresh w + length pre) (code (mermaidBlocks m ! k))
          \<longrightarrow> Notice (''Failed to render diagram #'' @ decimal (k + 1)
                       @ '' (Timeout or not found)'')
                \<in> set (log (exportBtn_onclick h st m w))
              \<and> decimal_value (decimal (k + 1)) = k + 1
              \<and> (\<exists>more. render_calls (log (exportBtn_onclick h st m w))
                   = render_calls (log w)
                     @ map (\<lambda>j. render_markup h (code (mermaidBlocks m ! j)))
                         (pre @ k # take 1 post)
                     @ more)"
    using a g by blast
  have 2: "(\<forall>w1. fresh w1 = fresh w + length pre
                \<longrightarrow> fst (renderMermaidToSvg h (code (mermaidBlocks m ! k)) w1)
                    = Returns (Some el))
          \<and> (make_buffer h st el (svg_data h st el) = Inl e
              \<or> (make_buffer h st el (svg_data h st el) = Inr (Some buffer)
                  \<and> dir \<noteq> [] \<and> overwrite st
                  \<and> pathJoin h dir (defaultFileName (activeFile m) (heading (mermaidBlocks m ! k)) k
                                     (format st)) \<noteq> []
                  \<and> writeFileFails h
                      (pathJoin h dir (defaultFileName (activeFile m) (heading (mermaidBlocks m ! k)) k
                                     (format st))) = Some e))
          \<longrightarrow> Notice (''Save failed: '' @ e) \<in> set (log (exportBtn_onclick h st m w))
              \<and> (\<exists>more. render_calls (log (exportBtn_onclick h st m w))
                   = render_calls (log w)
                     @ map (\<lambda>j. render_markup h (code (mermaidBlocks m ! j)))
                         (pre @ k # take 1 post)
                     @ more)"
    using b by blast
  from 1 2 c d f show ?thesis by blast
qed

lemma example_selection:
  "selectedIndices (selected (example_modal [True, True])) = [0, 1]
   \<and> selectedIndices (selected (example_modal [True, False])) = [0]
   \<and> selectedIndices (selected (example_modal [False, True])) = [1]"
  by (simp add: example_modal_def new_modal_def selectedIndices_def)

lemma example_blocks:
  "length (mermaidBlocks (example_modal sel)) = 2
   \<and> code (mermaidBlocks (example_modal sel) ! 0) = ''graph TD''
   \<and> code (mermaidBlocks (example_modal sel) ! 1) = ''flow''
   \<and> heading (mermaidBlocks (example_modal sel) ! 0) = ''A''
   \<and> heading (mermaidBlocks (example_modal sel) ! 1) = ''B''
   \<and> activeFile (example_modal sel) = ''Notes''
   \<and> selected (example_modal sel) = sel"
  by (simp add: example_modal_def new_modal_def)

lemma render_markup_eq:
  "rawFont h = rawFont h' \<Longrightarrow> (render_markup h c = render_markup h' c') = (c = c')"
  by (simp add: render_markup_def safeCode_def)

lemma second_fails_settles:
  "settles (markdownRender second_fails_host cid (render_markup second_fails_host c))
   = (if c = ''flow'' then Rejects ''render failed'' else Resolves)"
proof -
  have "rawFont second_fails_host = rawFont example_host"
    by (simp add: rawFont_def second_fails_host_def)
  from render_markup_eq [OF this, of c "''flow''"] show ?thesis
    by (simp add: second_fails_host_def)
qed

lemma second_fails_never_shows: "never_shows_svg second_fails_host cid c"
  by (simp add: never_shows_svg_iff second_fails_host_def)

lemma export_failures_member: "n \<in> set (export_failures l) \<Longrightarrow> Notice n \<in> set l"
  by (induction l rule: export_failures.induct) (auto split: if_splits)

lemma example_two_selected:
  "selectedIndices (selected (example_modal [True, True])) = [] @ 0 # [1]"
  "selectedIndices (selected (example_modal [True, True])) = [0] @ 1 # []"
  "length (selected (example_modal [True, True]))
   \<le> length (mermaidBlocks (example_modal [True, True]))"
  using example_selection example_blocks by simp_all

theorem batch_continues_after_failures_witness:
  "Notice ''Failed to render diagram #1 (Timeout or not found)''
     \<in> set (log (exportBtn_onclick second_fails_host DEFAULT_SETTINGS (example_modal [True, True]) initial_world))
   \<and> render_calls (log (exportBtn_onclick second_fails_host DEFAULT_SETTINGS (example_modal [True, True]) initial_world))
     = [render_markup second_fails_host ''graph TD'', render_markup second_fails_host ''flow'']
   \<and> export_failures (log (exportBtn_onclick second_fails_host DEFAULT_SETTINGS (example_modal [True, True]) initial_world)) = [''Export failed: render failed'']
   \<and> set (written_paths (log (exportBtn_onclick second_fails_host DEFAULT_SETTINGS (example_modal [True, True]) initial_world)))
     \<subseteq> {''/out/Notes-A-1.png''}
   \<and> Notice ''Save failed: decode error'' \<in> set (log (exportBtn_onclick undecodable_host DEFAULT_SETTINGS (example_modal [True, True]) initial_world))
   \<and> Notice ''Save failed: EACCES: permission denied'' \<in> set (log (exportBtn_onclick readonly_host DEFAULT_SETTINGS (example_modal [True, True]) initial_world))
   \<and> render_calls (log (exportBtn_onclick pending_host DEFAULT_SETTINGS (example_modal [True, True]) initial_world)) = [render_markup pending_host ''graph TD'']
   \<and> export_failures (log (exportBtn_onclick pending_host DEFAULT_SETTINGS (example_modal [True, True]) initial_world)) = []
   \<and> render_calls (log (exportBtn_onclick example_host DEFAULT_SETTINGS (example_modal [True, True]) initial_world))
     = [render_markup example_host ''graph TD'', render_markup example_host ''flow'']
   \<and> export_failures (log (exportBtn_onclick example_host DEFAULT_SETTINGS (example_modal [True, True]) initial_world)) = []
   \<and> ProgressMessage ''Export finished.'' \<in> set (log (exportBtn_onclick example_host DEFAULT_SETTINGS (example_modal [True, True]) initial_world))"
proof -
  note s1 = example_two_selected(1) and s2 = example_two_selected(2)
    and l = example_two_selected(3)
  note bl = example_blocks [where sel = "[True, True]"]
  have lw: "log initial_world = []" and fw: "fresh initial_world = 0"
    by (simp_all add: initial_world_def)
  have dn: "decimal (0 + 1) = ''1''" by (simp add: decimal.simps digit_char_def)
  have out: "''/out'' \<noteq> []" by simp
  have ov: "overwrite DEFAULT_SETTINGS" and fm: "format DEFAULT_SETTINGS = png"
    by (simp_all add: DEFAULT_SETTINGS_def)

  have d2: "dialogAvailable second_fails_host"
    and o2: "showOpenDialog second_fails_host = (False, ''/out'' # [])"
    by (simp_all add: second_fails_host_def example_host_def)
  have p2a: "\<forall>i<length ([] :: nat list).
      settles (markdownRender second_fails_host (fresh initial_world + i)
        (render_markup second_fails_host
           (code (mermaidBlocks (example_modal [True, True]) ! ([] ! i))))) = Resolves"
    by simp
  have p2b: "\<forall>i<length [0 :: nat].
      settles (markdownRender second_fails_host (fresh initial_world + i)
        (render_markup second_fails_host
           (code (mermaidBlocks (example_modal [True, True]) ! ([0] ! i))))) = Resolves"
    using bl by (simp add: second_fails_settles)
  have r2a: "settles (markdownRender second_fails_host (fresh initial_world + length ([] :: nat list))
        (render_markup second_fails_host (code (mermaidBlocks (example_modal [True, True]) ! 0))))
      = Resolves
      \<and> never_shows_svg second_fails_host (fresh initial_world + length ([] :: nat list))
          (code (mermaidBlocks (example_modal [True, True]) ! 0))"
    using bl by (simp add: second_fails_settles second_fails_never_shows)
  have r2b: "settles (markdownRender second_fails_host (fresh initial_world + length [0 :: nat])
        (render_markup second_fails_host (code (mermaidBlocks (example_modal [True, True]) ! 1))))
      = Rejects ''render failed''"
    using bl by (simp add: second_fails_settles)
  note t2a = batch_continues_after_failures [OF d2 o2 l s1 p2a, where st = DEFAULT_SETTINGS]
  note t2b = batch_continues_after_failures [OF d2 o2 l s2 p2b, where st = DEFAULT_SETTINGS
      and e' = "''render failed''"]
  have a1: "Notice ''Failed to render diagram #1 (Timeout or not found)'' \<in> set (log (exportBtn_onclick second_fails_host DEFAULT_SETTINGS (example_modal [True, True]) initial_world))"
    using t2a r2a dn by simp
  have a2: "render_calls (log (exportBtn_onclick second_fails_host DEFAULT_SETTINGS (example_modal [True, True]) initial_world))
     = [render_markup second_fails_host ''graph TD'', render_markup second_fails_host ''flow'']"
    using t2b r2b bl lw by simp
  have a3: "export_failures (log (exportBtn_onclick second_fails_host DEFAULT_SETTINGS (example_modal [True, True]) initial_world)) = [''Export failed: render failed'']"
    using t2b r2b lw by simp
  have nm: "pathJoin second_fails_host ''/out''
              (defaultFileName ''Notes'' ''A'' 0 png) = ''/out/Notes-A-1.png''"
    by (simp add: second_fails_host_def example_host_def defaultFileName_def decimal.simps
        digit_char_def reserved_chars_def)
  have a4: "set (written_paths (log (exportBtn_onclick second_fails_host DEFAULT_SETTINGS (example_modal [True, True]) initial_world)))
            \<subseteq> {''/out/Notes-A-1.png''}"
    using t2b r2b out lw bl fm nm by simp

  have du: "dialogAvailable undecodable_host"
    and ou: "showOpenDialog undecodable_host = (False, ''/out'' # [])"
    by (simp_all add: undecodable_host_def example_host_def)
  have pu: "\<forall>i<length ([] :: nat list).
      settles (markdownRender undecodable_host (fresh initial_world + i)
        (render_markup undecodable_host
           (code (mermaidBlocks (example_modal [True, True]) ! ([] ! i))))) = Resolves"
    by simp
  have ru: "\<forall>w1. fresh w1 = fresh initial_world + length ([] :: nat list)
      \<longrightarrow> fst (renderMermaidToSvg undecodable_host
                 (code (mermaidBlocks (example_modal [True, True]) ! 0)) w1)
          = Returns (Some (prepend example_svg (styleEl (rawFont undecodable_host))))"
    using example_render [of undecodable_host] by (simp add: undecodable_host_def)
  have mu: "make_buffer undecodable_host DEFAULT_SETTINGS
              (prepend example_svg (styleEl (rawFont undecodable_host)))
              (svg_data undecodable_host DEFAULT_SETTINGS
                 (prepend example_svg (styleEl (rawFont undecodable_host))))
            = Inl ''decode error''"
    by (simp add: make_buffer_def undecodable_host_def example_host_def DEFAULT_SETTINGS_def
        split: prod.splits)
  note tu = batch_continues_after_failures [OF du ou l s1 pu, where st = DEFAULT_SETTINGS
      and el = "prepend example_svg (styleEl (rawFont undecodable_host))"
      and e = "''decode error''"]
  have a5: "Notice ''Save failed: decode error'' \<in> set (log (exportBtn_onclick undecodable_host DEFAULT_SETTINGS (example_modal [True, True]) initial_world))"
    using tu ru mu by simp

  have dr: "dialogAvailable readonly_host"
    and or: "showOpenDialog readonly_host = (False, ''/out'' # [])"
    by (simp_all add: readonly_host_def example_host_def)
  have pr: "\<forall>i<length ([] :: nat list).
      settles (markdownRender readonly_host (fresh initial_world + i)
        (render_markup readonly_host
           (code (mermaidBlocks (example_modal [True, True]) ! ([] ! i))))) = Resolves"
    by simp
  have rr: "\<forall>w1. fresh w1 = fresh initial_world + length ([] :: nat list)
      \<longrightarrow> fst (renderMermaidToSvg readonly_host
                 (code (mermaidBlocks (example_modal [True, True]) ! 0)) w1)
          = Returns (Some (prepend example_svg (styleEl (rawFont readonly_host))))"
    using example_render [of readonly_host] by (simp add: readonly_host_def)
  have mr: "make_buffer readonly_host DEFAULT_SETTINGS
              (prepend example_svg (styleEl (rawFont readonly_host)))
              (svg_data readonly_host DEFAULT_SETTINGS
                 (prepend example_svg (styleEl (rawFont readonly_host))))
            = Inr (Some ''PNG'')"
    by (simp add: make_buffer_def readonly_host_def example_host_def DEFAULT_SETTINGS_def
        split: prod.splits)
  have wr: "pathJoin readonly_host ''/out''
              (defaultFileName (activeFile (example_modal [True, True]))
                 (heading (mermaidBlocks (example_modal [True, True]) ! 0)) 0
                 (format DEFAULT_SETTINGS)) \<noteq> []
            \<and> writeFileFails readonly_host
                (pathJoin readonly_host ''/out''
                   (defaultFileName (activeFile (example_modal [True, True]))
                      (heading (mermaidBlocks (example_modal [True, True]) ! 0)) 0
                      (format DEFAULT_SETTINGS)))
              = Some ''EACCES: permission denied''"
    by (simp add: readonly_host_def example_host_def)
  note tr = batch_continues_after_failures [OF dr or l s1 pr, where st = DEFAULT_SETTINGS
      and el = "prepend example_svg (styleEl (rawFont readonly_host))"
      and buffer = "''PNG''" and e = "''EACCES: permission denied''"]
  have a6: "Notice ''Save failed: EACCES: permission denied'' \<in> set (log (exportBtn_onclick readonly_host DEFAULT_SETTINGS (example_modal [True, True]) initial_world))"
    using tr rr mr wr out ov by simp

  have dp: "dialogAvailable pending_host"
    and op: "showOpenDialog pending_host = (False, ''/out'' # [])"
    by (simp_all add: pending_host_def example_host_def)
  have pp: "\<forall>i<length ([] :: nat list).
      settles (markdownRender pending_host (fresh initial_world + i)
        (render_markup pending_host
           (code (mermaidBlocks (example_modal [True, True]) ! ([] ! i))))) = Resolves"
    by simp
  have rp: "settles (markdownRender pending_host (fresh initial_world + length ([] :: nat list))
        (render_markup pending_host (code (mermaidBlocks (example_modal [True, True]) ! 0))))
      = Pending"
    by (simp add: pending_host_def)
  note tp = batch_continues_after_failures [OF dp op l s1 pp, where st = DEFAULT_SETTINGS]
  have a7: "render_calls (log (exportBtn_onclick pending_host DEFAULT_SETTINGS (example_modal [True, True]) initial_world)) = [render_markup pending_host ''graph TD'']"
    using tp rp bl lw by simp
  have a8: "export_failures (log (exportBtn_onclick pending_host DEFAULT_SETTINGS (example_modal [True, True]) initial_world)) = []"
    using tp rp lw by simp

  have de: "dialogAvailable example_host"
    and oe: "showOpenDialog example_host = (False, ''/out'' # [])"
    by (simp_all add: example_host_def)
  have pe: "\<forall>i<length ([] :: nat list).
      settles (markdownRender example_host (fresh initial_world + i)
        (render_markup example_host
           (code (mermaidBlocks (example_modal [True, True]) ! ([] ! i))))) = Resolves"
    by simp
  have re: "\<forall>i<length (selectedIndices (selected (example_modal [True, True]))).
      settles (markdownRender example_host (fresh initial_world + i)
        (render_markup example_host
           (code (mermaidBlocks (example_modal [True, True])
                    ! (selectedIndices (selected (example_modal [True, True])) ! i)))))
      = Resolves"
    by (simp add: example_host_def)
  note te = batch_continues_after_failures [OF de oe l s1 pe, where st = DEFAULT_SETTINGS]
  have a9: "render_calls (log (exportBtn_onclick example_host DEFAULT_SETTINGS (example_modal [True, True]) initial_world))
     = [render_markup example_host ''graph TD'', render_markup example_host ''flow'']"
    using te re example_selection bl lw by simp
  have a10: "export_failures (log (exportBtn_onclick example_host DEFAULT_SETTINGS (example_modal [True, True]) initial_world)) = []"
    using te re lw by simp
  have a11: "ProgressMessage ''Export finished.'' \<in> set (log (exportBtn_onclick example_host DEFAULT_SETTINGS (example_modal [True, True]) initial_world))"
    using te re by blast
  from a1 a2 a3 a4 a5 a6 a7 a8 a9 a10 a11 show ?thesis by blast
qed

text \<open>
  Claim C5 as stated fails: with two blocks selected and a render of the first that
  throws, the second block, which would have rendered, is never rendered and nothing is
  written.
\<close>

theorem batch_stops_at_render_exception:
  "selectedIndices (selected (example_modal [True, True])) = [0, 1]
   \<and> settles (markdownRender flaky_host 1 (render_markup flaky_host ''flow'')) = Resolves
   \<and> render_calls (log (exportBtn_onclick flaky_host DEFAULT_SETTINGS (example_modal [True, True])
                          initial_world))
     = [render_markup flaky_host ''graph TD'']
   \<and> written_paths (log (exportBtn_onclick flaky_host DEFAULT_SETTINGS (example_modal [True, True])
                           initial_world)) = []
   \<and> Notice ''Export failed: render failed''
       \<in> set (log (exportBtn_onclick flaky_host DEFAULT_SETTINGS (example_modal [True, True])
                      initial_world))"
proof -
  note s = example_two_selected(1) and l = example_two_selected(3)
  note bl = example_blocks [where sel = "[True, True]"]
  have d: "dialogAvailable flaky_host" and o: "showOpenDialog flaky_host = (False, ''/out'' # [])"
    by (simp_all add: flaky_host_def example_host_def)
  have p: "\<forall>i<length ([] :: nat list).
      settles (markdownRender flaky_host (fresh initial_world + i)
        (render_markup flaky_host
           (code (mermaidBlocks (example_modal [True, True]) ! ([] ! i))))) = Resolves"
    by simp
  have rj: "settles (markdownRender flaky_host (fresh initial_world + length ([] :: nat list))
              (render_markup flaky_host (code (mermaidBlocks (example_modal [True, True]) ! 0))))
            = Rejects ''render failed''"
    by (simp add: flaky_host_def initial_world_def)
  have ok: "settles (markdownRender flaky_host 1 (render_markup flaky_host ''flow'')) = Resolves"
    by (simp add: flaky_host_def example_host_def)
  have lw: "log initial_world = []" by (simp add: initial_world_def)
  have out: "''/out'' \<noteq> []" by simp
  note t = batch_aborts_aux [OF s d o l p rj, where st = DEFAULT_SETTINGS]
  have a: "render_calls (log (exportBtn_onclick flaky_host DEFAULT_SETTINGS
                                 (example_modal [True, True]) initial_world))
           = [render_markup flaky_host ''graph TD'']"
    using t bl lw by simp
  have "set (written_paths (log (exportBtn_onclick flaky_host DEFAULT_SETTINGS
                                   (example_modal [True, True]) initial_world))) \<subseteq> {}"
    using t out lw by simp
  then have b: "written_paths (log (exportBtn_onclick flaky_host DEFAULT_SETTINGS
                                      (example_modal [True, True]) initial_world)) = []"
    by simp
  have "''Export failed: render failed''
        \<in> set (export_failures (log (exportBtn_onclick flaky_host DEFAULT_SETTINGS
                                       (example_modal [True, True]) initial_world)))"
    using t lw by simp
  then have c: "Notice ''Export failed: render failed''
       \<in> set (log (exportBtn_onclick flaky_host DEFAULT_SETTINGS (example_modal [True, True])
                      initial_world))"
    by (rule export_failures_member)
  from example_selection ok a b c show ?thesis by blast
qed



lemma example_ideal:
  "overwrite DEFAULT_SETTINGS
   \<and> (\<forall>k<length (mermaidBlocks (example_modal sel)). \<forall>w. \<exists>el.
         fst (renderMermaidToSvg example_host (code (mermaidBlocks (example_modal sel) ! k)) w)
         = Returns (Some el))
   \<and> (\<forall>el. \<exists>buffer. make_buffer example_host DEFAULT_SETTINGS el
                        (svg_data example_host DEFAULT_SETTINGS el) = Inr (Some buffer))
   \<and> (\<forall>p. writeFileFails example_host p = None)
   \<and> (\<forall>n. pathJoin example_host ''/out'' n \<noteq> [])"
proof -
  have f: "format DEFAULT_SETTINGS = png" by (simp add: DEFAULT_SETTINGS_def)
  have a: "overwrite DEFAULT_SETTINGS" by (simp add: DEFAULT_SETTINGS_def)
  have b: "\<forall>k<length (mermaidBlocks (example_modal sel)). \<forall>w. \<exists>el.
         fst (renderMermaidToSvg example_host (code (mermaidBlocks (example_modal sel) ! k)) w)
         = Returns (Some el)"
    using example_render [OF refl refl] by blast
  have c: "\<forall>el. \<exists>buffer. make_buffer example_host DEFAULT_SETTINGS el
                        (svg_data example_host DEFAULT_SETTINGS el) = Inr (Some buffer)"
    using example_make_buffer [OF f] by blast
  have d: "(\<forall>p. writeFileFails example_host p = None)
           \<and> (\<forall>n. pathJoin example_host ''/out'' n \<noteq> [])"
    by (simp add: example_host_def)
  from a b c d show ?thesis by blast
qed


lemma decimal_digits: "set (decimal n) \<subseteq> set ''0123456789''"
proof (induction n rule: decimal.induct)
  case (1 n)
  have d: "\<And>k. k < 10 \<Longrightarrow> digit_char k \<in> set ''0123456789''"
    unfolding digit_char_def by (rule nth_mem) simp
  show ?case
  proof (cases "n < 10")
    case True
    then show ?thesis using d [of n] by (subst decimal.simps) simp
  next
    case False
    have m: "n mod 10 < 10" by simp
    show ?thesis using False 1 d [OF m] by (subst decimal.simps) simp
  qed
qed

lemma decimal_nonempty: "decimal n \<noteq> []"
  by (subst decimal.simps) simp

lemma digit_char_zero: "k < 10 \<Longrightarrow> 0 < k \<Longrightarrow> digit_char k \<noteq> CHR ''0''"
proof -
  assume "k < 10" and "0 < k"
  then have "k \<in> {1, 2, 3, 4, 5, 6, 7, 8, 9}" by auto
  then show ?thesis unfolding digit_char_def by auto
qed

lemma decimal_no_leading_zero: "0 < n \<Longrightarrow> hd (decimal n) \<noteq> CHR ''0''"
proof (induction n rule: decimal.induct)
  case (1 n)
  show ?case
  proof (cases "n < 10")
    case True
    then show ?thesis using 1(2) digit_char_zero [of n] by (subst decimal.simps) simp
  next
    case False
    then have p: "0 < n div 10" by simp
    have "hd (decimal (n div 10)) \<noteq> CHR ''0''" using 1(1) False p by simp
    then show ?thesis using False decimal_nonempty [of "n div 10"]
      by (subst decimal.simps) simp
  qed
qed

text \<open>
  Claim C10. The indices that the handler exports are the positions of the selected
  blocks in the full list of extracted blocks. Every file that the handler writes is
  named \<open>base-heading-(k+1).format\<close> in the chosen directory for a selected position \<open>k\<close>
  of that list; and when every render, conversion and write succeeds and overwriting is
  on, the files written are exactly those, one for each selected position, in order:
  the number in the name is \<open>k + 1\<close> however many blocks are selected. What \<open>decimal\<close>
  writes for it is the decimal numeral of that number: digits only, no leading zero, and
  denoting \<open>k + 1\<close>.
\<close>

theorem export_file_names_use_document_index:
  assumes "dialogAvailable h" and "showOpenDialog h = (False, dir # ds)" and "dir \<noteq> []"
    and "length (selected m) \<le> length (mermaidBlocks m)"
  shows "selectedIndices (selected m) = filter (\<lambda>k. selected m ! k) [0..<length (selected m)]
     \<and> (\<forall>j. decimal_value (decimal (j + 1)) = j + 1
             \<and> set (decimal (j + 1)) \<subseteq> set ''0123456789''
             \<and> hd (decimal (j + 1)) \<noteq> CHR ''0'')
     \<and> set (written_paths (log (exportBtn_onclick h st m w)))
       \<subseteq> set (written_paths (log w))
         \<union> (\<lambda>k. pathJoin h dir
                   (activeFile m @ ''-'' @ replace_reserved (heading (mermaidBlocks m ! k))
                    @ ''-'' @ decimal (k + 1) @ ''.'' @ fmt_string (format st)))
           ` {k. k < length (selected m) \<and> selected m ! k}
     \<and> (overwrite st
        \<and> (\<forall>k<length (mermaidBlocks m). \<forall>w. \<exists>el.
               fst (renderMermaidToSvg h (code (mermaidBlocks m ! k)) w) = Returns (Some el))
        \<and> (\<forall>el. \<exists>buffer. make_buffer h st el (svg_data h st el) = Inr (Some buffer))
        \<and> (\<forall>p. writeFileFails h p = None)
        \<and> (\<forall>n. pathJoin h dir n \<noteq> [])
        \<longrightarrow> written_paths (log (exportBtn_onclick h st m w))
            = written_paths (log w)
              @ map (\<lambda>k. pathJoin h dir
                       (activeFile m @ ''-'' @ replace_reserved (heading (mermaidBlocks m ! k))
                        @ ''-'' @ decimal (k + 1) @ ''.'' @ fmt_string (format st)))
                  (filter (\<lambda>k. selected m ! k) [0..<length (selected m)]))"
proof -
  have d: "\<forall>j. decimal_value (decimal (j + 1)) = j + 1
             \<and> set (decimal (j + 1)) \<subseteq> set ''0123456789''
             \<and> hd (decimal (j + 1)) \<noteq> CHR ''0''"
    using decimal_value_decimal decimal_digits decimal_no_leading_zero by simp
  show ?thesis
    using selectedIndices_filter [of "selected m"] d
      handler_paths_aux(1) [OF assms, where st = st and w = w]
      handler_paths_aux(2) [OF assms, where st = st and w = w]
    unfolding defaultFileName_def Let_def
    by blast
qed

theorem export_file_names_use_document_index_witness:
  "selectedIndices (selected (example_modal [False, True])) = [1]
   \<and> written_paths (log (exportBtn_onclick example_host DEFAULT_SETTINGS
                            (example_modal [False, True]) initial_world))
     = [''/out/Notes-B-2.png'']"
proof -
  have d: "dialogAvailable example_host" and o: "showOpenDialog example_host = (False, ''/out'' # [])"
    by (simp_all add: example_host_def)
  have n: "''/out'' \<noteq> []" by simp
  have l: "length (selected (example_modal [False, True]))
           \<le> length (mermaidBlocks (example_modal [False, True]))"
    using example_blocks by simp
  have lw: "log initial_world = []" by (simp add: initial_world_def)
  have f: "format DEFAULT_SETTINGS = png" by (simp add: DEFAULT_SETTINGS_def)
  have u: "[0..<length (selected (example_modal [False, True]))] = [0, 1]"
    using example_blocks by (simp add: upt_rec)
  have nm: "pathJoin example_host ''/out''
              (''Notes'' @ ''-'' @ replace_reserved ''B'' @ ''-'' @ decimal (1 + 1) @ ''.''
               @ fmt_string png) = ''/out/Notes-B-2.png''"
    by (simp add: example_host_def decimal.simps digit_char_def reserved_chars_def)
  note i = example_ideal [where sel = "[False, True]"]
  note t = export_file_names_use_document_index [OF d o n l, where st = DEFAULT_SETTINGS
      and w = initial_world]
  have a: "selectedIndices (selected (example_modal [False, True])) = [1]"
    using t example_selection by simp
  have b: "written_paths (log (exportBtn_onclick example_host DEFAULT_SETTINGS
                            (example_modal [False, True]) initial_world))
           = [''/out/Notes-B-2.png'']"
    using t i unfolding u using example_blocks lw f nm by simp
  from a b show ?thesis by blast
qed

end
